(* ===== verification/Prelude.thy ===== *)
theory Prelude
  imports Complex_Main "HOL-Library.AList" "HOL-Library.Multiset"
    "HOL-Library.List_Lexorder" "HOL-Library.Char_ord"
begin

text \<open>
  What every component shares: the pieces of the JavaScript standard library the source
  uses, and generic lemmas about them.

  \<^item> A \<open>Date\<close> is its epoch milliseconds, an \<open>int\<close>; all date arithmetic of the source is
    in UTC, where a day is always 86400000 ms, so \<open>setUTCDate(getUTCDate() - n)\<close> is
    \<open>days_before\<close>, and a calendar month is computed from the day number.
  \<^item> A JavaScript number is a \<open>real\<close> (exact arithmetic: rounding of doubles is not
    modelled), a count or a day number an \<open>int\<close>. Where the source tests for \<open>NaN\<close> or
    an infinity it is the type \<open>jsnum\<close>.
  \<^item> A \<open>Map\<close> is an association list in insertion order (\<open>AList.update\<close> keeps the place
    of a key that is there and appends a new one, as \<open>Map.set\<close> does); a \<open>Set\<close> is a list
    without repetition, in insertion order.
  \<^item> \<open>Array.prototype.sort\<close> is stable, so it is insertion sort by the comparator.
\<close>

named_theorems js_simps "evaluation of the JavaScript primitives"
named_theorems bucket_simps "facts about Maps that accumulate sums"

section \<open>Dates\<close>

type_synonym date = int

abbreviation DAY_MS :: int where "DAY_MS \<equiv> 86400000"

definition dayKeyOf :: "date \<Rightarrow> date" where
  "dayKeyOf d = d - d mod DAY_MS"

definition days_before :: "date \<Rightarrow> int \<Rightarrow> date" where
  "days_before d n = d - n * DAY_MS"

lemma dayKeyOf_le: "dayKeyOf d \<le> d"
  by (simp add: dayKeyOf_def)

lemma dayKeyOf_less: "d < dayKeyOf d + DAY_MS"
  using pos_mod_bound [of DAY_MS d] by (simp add: dayKeyOf_def)

lemma dayKeyOf_dvd [simp]: "DAY_MS dvd dayKeyOf d"
  by (metis dayKeyOf_def dvd_minus_mod)

lemma dayKeyOf_idem [simp]: "dayKeyOf (dayKeyOf d) = dayKeyOf d"
  using dayKeyOf_dvd [of d] by (simp add: dayKeyOf_def [of "dayKeyOf d"])

lemma dayKeyOf_aligned: "DAY_MS dvd d \<Longrightarrow> dayKeyOf d = d"
  by (simp add: dayKeyOf_def)

lemma dayKeyOf_mono: "a \<le> b \<Longrightarrow> dayKeyOf a \<le> dayKeyOf b"
proof -
  assume "a \<le> b"
  then have "a div DAY_MS \<le> b div DAY_MS" by (rule zdiv_mono1) simp
  moreover have "dayKeyOf x = (x div DAY_MS) * DAY_MS" for x
    by (simp add: dayKeyOf_def minus_mod_eq_div_mult)
  ultimately show ?thesis by simp
qed

text \<open>An aligned bound separates dates exactly as it separates their day keys.\<close>

lemma dayKeyOf_less_aligned: "DAY_MS dvd b \<Longrightarrow> dayKeyOf a < b \<longleftrightarrow> a < b"
proof
  assume b: "DAY_MS dvd b" and "dayKeyOf a < b"
  then obtain k where k: "b = k * DAY_MS" by (metis dvd_def mult.commute)
  have a: "dayKeyOf a = (a div DAY_MS) * DAY_MS"
    by (simp add: dayKeyOf_def minus_mod_eq_div_mult)
  with k \<open>dayKeyOf a < b\<close> have "a div DAY_MS + 1 \<le> k" by simp
  then have "(a div DAY_MS + 1) * DAY_MS \<le> b" unfolding k by (rule mult_right_mono) simp
  with a dayKeyOf_less [of a] show "a < b" by (simp add: algebra_simps)
next
  assume "a < b" then show "dayKeyOf a < b" using dayKeyOf_le [of a] by simp
qed

lemma days_before_dvd [simp]: "DAY_MS dvd d \<Longrightarrow> DAY_MS dvd days_before d n"
  by (simp add: days_before_def)

lemma days_before_le: "0 \<le> n \<Longrightarrow> days_before d n \<le> d"
  by (simp add: days_before_def)

text \<open>The proleptic Gregorian calendar: year and month of a day number, and back.\<close>

definition ym_of_day :: "int \<Rightarrow> int \<times> int" where
  "ym_of_day day =
    (let z = day + 719468;
         era = z div 146097;
         doe = z - era * 146097;
         yoe = (doe - doe div 1460 + doe div 36524 - doe div 146096) div 365;
         doy = doe - (365 * yoe + yoe div 4 - yoe div 100);
         mp = (5 * doy + 2) div 153;
         m = (if mp < 10 then mp + 3 else mp - 9)
     in (yoe + era * 400 + (if m \<le> 2 then 1 else 0), m))"

definition dom_of_day :: "int \<Rightarrow> int" where
  "dom_of_day day =
    (let z = day + 719468;
         era = z div 146097;
         doe = z - era * 146097;
         yoe = (doe - doe div 1460 + doe div 36524 - doe div 146096) div 365;
         doy = doe - (365 * yoe + yoe div 4 - yoe div 100);
         mp = (5 * doy + 2) div 153
     in doy - (153 * mp + 2) div 5 + 1)"

definition day_of_ym1 :: "int \<Rightarrow> int \<Rightarrow> int" where
  "day_of_ym1 y0 m =
    (let y = (if m \<le> 2 then y0 - 1 else y0);
         era = y div 400;
         yoe = y - era * 400;
         doy = (153 * (if m > 2 then m - 3 else m + 9) + 2) div 5;
         doe = yoe * 365 + yoe div 4 - yoe div 100 + doy
     in era * 146097 + doe - 719468)"

text \<open>\<open>setUTCFullYear(getUTCFullYear() - 1)\<close>: the same month, day and time one year
  earlier, 29 February overflowing into 1 March.\<close>

definition year_before :: "date \<Rightarrow> date" where
  "year_before d =
    (let day = d div DAY_MS; ym = ym_of_day day
     in (day_of_ym1 (fst ym - 1) (snd ym) + dom_of_day day - 1) * DAY_MS + d mod DAY_MS)"

text \<open>\<open>toISOString().slice(0, 7)\<close>, as the pair (year, month) it renders.\<close>

definition monthKeyOf :: "date \<Rightarrow> int \<times> int" where
  "monthKeyOf d = ym_of_day (d div DAY_MS)"

section \<open>Numbers\<close>

definition js_round :: "real \<Rightarrow> int" where
  "js_round x = \<lfloor>x + 1 / 2\<rfloor>"

definition round1 :: "real \<Rightarrow> real" where
  "round1 x = of_int (js_round (x * 10)) / 10"

datatype jsnum = Num real | PosInf | NegInf | NaN

fun isFinite :: "jsnum \<Rightarrow> bool" where
  "isFinite (Num _) = True"
| "isFinite _ = False"

definition clamp :: "real \<Rightarrow> real \<Rightarrow> real \<Rightarrow> real" where
  "clamp lo hi x = min hi (max lo x)"

lemma clamp_bounds: "lo \<le> hi \<Longrightarrow> lo \<le> clamp lo hi x \<and> clamp lo hi x \<le> hi"
  by (simp add: clamp_def)

lemma clamp_id: "lo \<le> x \<Longrightarrow> x \<le> hi \<Longrightarrow> clamp lo hi x = x"
  by (simp add: clamp_def)

lemma js_round_of_int [js_simps]: "js_round (of_int k) = k"
  unfolding js_round_def by linarith

lemma js_round_mono: "x \<le> y \<Longrightarrow> js_round x \<le> js_round y"
  by (simp add: js_round_def floor_mono)

lemma js_round_nonneg: "0 \<le> x \<Longrightarrow> 0 \<le> js_round x"
  by (simp add: js_round_def)

lemma js_round_bounds: "x - 1 / 2 < of_int (js_round x) \<and> of_int (js_round x) \<le> x + 1 / 2"
  unfolding js_round_def by linarith

text \<open>\<open>??\<close>, the nullish default.\<close>

definition nvl :: "'a option \<Rightarrow> 'a \<Rightarrow> 'a" where
  "nvl o' d = (case o' of None \<Rightarrow> d | Some x \<Rightarrow> x)"

lemma nvl_simps [simp]: "nvl None d = d" "nvl (Some x) d = x"
  by (simp_all add: nvl_def)

section \<open>Sets and Maps\<close>

definition js_set :: "'a list \<Rightarrow> 'a list" where
  "js_set xs = rev (remdups (rev xs))"

lemma set_js_set [simp]: "set (js_set xs) = set xs"
  by (simp add: js_set_def)

lemma distinct_js_set [simp]: "distinct (js_set xs)"
  by (simp add: js_set_def)

lemma length_js_set: "length (js_set xs) = card (set xs)"
  using distinct_card [OF distinct_js_set [of xs]] by simp

definition get0 :: "('k \<times> 'v::zero) list \<Rightarrow> 'k \<Rightarrow> 'v" where
  "get0 m k = nvl (map_of m k) 0"

text \<open>\<open>m.set(k, (m.get(k) ?? 0) + q)\<close>.\<close>

definition bump :: "'k \<Rightarrow> 'v::monoid_add \<Rightarrow> ('k \<times> 'v) list \<Rightarrow> ('k \<times> 'v) list" where
  "bump k q m = AList.update k (get0 m k + q) m"

abbreviation alist_keys :: "('k \<times> 'v) list \<Rightarrow> 'k list" where
  "alist_keys m \<equiv> map fst m"

abbreviation alist_vals :: "('k \<times> 'v) list \<Rightarrow> 'v list" where
  "alist_vals m \<equiv> map snd m"

lemma distinct_bump [bucket_simps]: "distinct (alist_keys m) \<Longrightarrow> distinct (alist_keys (bump k q m))"
  by (simp add: bump_def distinct_update)

lemma keys_update: "set (alist_keys (AList.update k v m)) = insert k (set (alist_keys m))"
  by (simp add: dom_update)

lemma keys_bump [bucket_simps]: "set (alist_keys (bump k q m)) = insert k (set (alist_keys m))"
  unfolding bump_def by (rule keys_update)

lemma map_of_bump [bucket_simps]:
  "map_of (bump k q m) k' = (if k' = k then Some (get0 m k + q) else map_of m k')"
  by (simp add: bump_def update_conv' fun_upd_def)

lemma get0_bump [bucket_simps]:
  "get0 (bump k q m) k' = (if k' = k then get0 m k + q else get0 m k')"
  by (simp add: get0_def map_of_bump)

lemma get0_notin: "k \<notin> set (alist_keys m) \<Longrightarrow> get0 m k = 0"
  by (metis get0_def map_of_eq_None_iff nvl_simps(1) set_map)

text \<open>A distinct association list is its lookup function over its keys.\<close>

lemma vals_get0:
  "distinct (alist_keys m) \<Longrightarrow> alist_vals m = map (get0 m) (alist_keys m)"
proof (rule nth_equalityI)
  assume d: "distinct (alist_keys m)"
  fix i assume "i < length (alist_vals m)"
  then have i: "i < length m" by simp
  then have "map_of m (fst (m ! i)) = Some (snd (m ! i))"
    using d by (simp add: map_of_eq_Some_iff)
  with i show "alist_vals m ! i = map (get0 m) (alist_keys m) ! i"
    by (simp add: get0_def)
qed simp

lemma mset_vals_get0:
  "distinct (alist_keys m) \<Longrightarrow> mset (alist_vals m) = image_mset (get0 m) (mset_set (set (alist_keys m)))"
  by (simp only: vals_get0 mset_map mset_set_set)

lemma sum_vals_get0:
  "distinct (alist_keys m) \<Longrightarrow> sum_list (alist_vals m) = (\<Sum>k \<in> set (alist_keys m). get0 m k)"
  by (simp only: vals_get0 sum_list_distinct_conv_sum_set)

lemma sum_list_update:
  "distinct (alist_keys m) \<Longrightarrow>
   sum_list (alist_vals (AList.update k v m)) = sum_list (alist_vals m) + v - get0 m k"
  for v :: "'v::ab_group_add"
  by (induction m) (auto simp: get0_def split: option.splits
      dest!: map_of_SomeD intro: rev_image_eqI)

lemma sum_bump [bucket_simps]:
  "distinct (alist_keys m) \<Longrightarrow> sum_list (alist_vals (bump k q m)) = sum_list (alist_vals m) + q"
  for q :: "'v::ab_group_add"
  by (simp add: bump_def sum_list_update)

text \<open>A loop that buckets the accepted elements by key and sums their quantities.\<close>

definition bump_all ::
  "('a \<Rightarrow> bool) \<Rightarrow> ('a \<Rightarrow> 'k) \<Rightarrow> ('a \<Rightarrow> 'v::monoid_add) \<Rightarrow> 'a list \<Rightarrow> ('k \<times> 'v) list \<Rightarrow> ('k \<times> 'v) list" where
  "bump_all P key qty = fold (\<lambda>p m. if P p then bump (key p) (qty p) m else m)"

lemma bump_all_simps [simp]:
  "bump_all P key qty [] m = m"
  "bump_all P key qty (p # ps) m =
     bump_all P key qty ps (if P p then bump (key p) (qty p) m else m)"
  by (simp_all add: bump_all_def)

lemma bump_all_distinct [bucket_simps]:
  "distinct (alist_keys m) \<Longrightarrow> distinct (alist_keys (bump_all P key qty ps m))"
  by (induction ps arbitrary: m) (simp_all add: distinct_bump)

lemma bump_all_keys [bucket_simps]:
  "set (alist_keys (bump_all P key qty ps m)) = set (alist_keys m) \<union> key ` {p \<in> set ps. P p}"
  by (induction ps arbitrary: m) (auto simp: keys_bump simp del: set_map)

lemma bump_all_get0 [bucket_simps]:
  "get0 (bump_all P key qty ps m) k =
     get0 m k + sum_list (map qty (filter (\<lambda>p. P p \<and> key p = k) ps))"
  by (induction ps arbitrary: m) (auto simp: get0_bump add.assoc)

lemma bump_all_sum [bucket_simps]:
  "distinct (alist_keys m) \<Longrightarrow>
   sum_list (alist_vals (bump_all P key qty ps m)) =
     sum_list (alist_vals m) + sum_list (map qty (filter P ps))"
  for qty :: "'a \<Rightarrow> 'v::ab_group_add"
  by (induction ps arbitrary: m) (simp_all add: distinct_bump sum_bump add.assoc)

section \<open>Sorting by a comparator\<close>

fun insert_by :: "('a \<Rightarrow> 'a \<Rightarrow> bool) \<Rightarrow> 'a \<Rightarrow> 'a list \<Rightarrow> 'a list" where
  "insert_by le x [] = [x]"
| "insert_by le x (y # ys) = (if le x y then x # y # ys else y # insert_by le x ys)"

definition sort_by :: "('a \<Rightarrow> 'a \<Rightarrow> bool) \<Rightarrow> 'a list \<Rightarrow> 'a list" where
  "sort_by le xs = foldr (insert_by le) xs []"

lemma sort_by_simps [simp]:
  "sort_by le [] = []" "sort_by le (x # xs) = insert_by le x (sort_by le xs)"
  by (simp_all add: sort_by_def)

lemma mset_insert_by [simp]: "mset (insert_by le x xs) = add_mset x (mset xs)"
  by (induction xs) auto

lemma mset_sort_by [simp]: "mset (sort_by le xs) = mset xs"
  by (induction xs) auto

lemma set_sort_by [simp]: "set (sort_by le xs) = set xs"
  by (metis mset_sort_by set_mset_mset)

lemma length_sort_by [simp]: "length (sort_by le xs) = length xs"
  by (metis mset_sort_by size_mset)

lemma distinct_sort_by [simp]: "distinct (sort_by le xs) = distinct xs"
  by (metis mset_sort_by mset_eq_imp_distinct_iff)

text \<open>
  The contract of a comparator passed to \<open>sort\<close>: total and transitive. Clients get the
  sorted result, and, where the comparator also tells any two elements apart, a result that
  depends only on the elements and not on the order they came in.
\<close>

locale comparator =
  fixes le :: "'a \<Rightarrow> 'a \<Rightarrow> bool"
  assumes total: "le a b \<or> le b a"
    and trans: "le a b \<Longrightarrow> le b c \<Longrightarrow> le a c"
begin

lemma sorted_insert_by: "sorted_wrt le xs \<Longrightarrow> sorted_wrt le (insert_by le x xs)"
proof (induction xs)
  case (Cons y ys)
  have s: "set (insert_by le x ys) = insert x (set ys)"
    by (metis mset_insert_by set_mset_add_mset_insert set_mset_mset)
  show ?case
  proof (cases "le x y")
    case True
    with Cons.prems show ?thesis by (auto intro: trans)
  next
    case False
    with total have "le y x" by blast
    with False Cons s show ?thesis by auto
  qed
qed simp

lemma sorted_sort_by: "sorted_wrt le (sort_by le xs)"
  by (induction xs) (auto intro: sorted_insert_by)

text \<open>Where no two different elements tie, the order is determined by the elements alone.\<close>

lemma sorted_unique_on:
  assumes "\<And>a b. a \<in> set xs \<Longrightarrow> b \<in> set xs \<Longrightarrow> le a b \<Longrightarrow> le b a \<Longrightarrow> a = b"
  shows "sorted_wrt le xs \<Longrightarrow> sorted_wrt le ys \<Longrightarrow> mset xs = mset ys \<Longrightarrow> xs = ys"
  using assms
proof (induction xs arbitrary: ys)
  case (Cons x xs)
  then obtain y ys' where ys: "ys = y # ys'" by (cases ys) auto
  have s: "set (x # xs) = set ys" using Cons.prems(3) by (metis set_mset_mset)
  then have "x \<in> set ys" and yin: "y \<in> set (x # xs)" using ys by auto
  with Cons.prems(1,2) ys have "x = y \<or> le x y \<and> le y x" by auto
  then have "x = y" using Cons.prems(4) yin by auto
  with Cons ys show ?case by simp
qed simp

lemma sort_by_perm_on:
  assumes "mset xs = mset ys"
    and "\<And>a b. a \<in> set xs \<Longrightarrow> b \<in> set xs \<Longrightarrow> le a b \<Longrightarrow> le b a \<Longrightarrow> a = b"
  shows "sort_by le xs = sort_by le ys"
  by (rule sorted_unique_on) (use assms in \<open>auto simp: sorted_sort_by\<close>)

end

locale strict_comparator = comparator +
  assumes antisym: "le a b \<Longrightarrow> le b a \<Longrightarrow> a = b"
begin

lemma sort_by_perm: "mset xs = mset ys \<Longrightarrow> sort_by le xs = sort_by le ys"
  by (rule sort_by_perm_on) (auto intro: antisym)

end

text \<open>
  A chain \<open>b.x - a.x || next\<close> or \<open>a.x - b.x || next\<close> refines one comparator by another key; a
  chain ends in a key alone. \<open>localeCompare\<close> on identifiers is the order of their code points.
\<close>

definition by_desc :: "('a \<Rightarrow> 'n::linorder) \<Rightarrow> ('a \<Rightarrow> 'a \<Rightarrow> bool) \<Rightarrow> 'a \<Rightarrow> 'a \<Rightarrow> bool" where
  "by_desc f next' a b \<longleftrightarrow> f b < f a \<or> f a = f b \<and> next' a b"

definition by_asc :: "('a \<Rightarrow> 'n::linorder) \<Rightarrow> ('a \<Rightarrow> 'a \<Rightarrow> bool) \<Rightarrow> 'a \<Rightarrow> 'a \<Rightarrow> bool" where
  "by_asc f next' a b \<longleftrightarrow> f a < f b \<or> f a = f b \<and> next' a b"

definition by_key :: "('a \<Rightarrow> 'n::linorder) \<Rightarrow> 'a \<Rightarrow> 'a \<Rightarrow> bool" where
  "by_key f a b \<longleftrightarrow> f a \<le> f b"

lemma by_key_comparator: "comparator (by_key f)"
  by unfold_locales (auto simp: by_key_def)

lemma by_desc_comparator: "comparator le \<Longrightarrow> comparator (by_desc f le)"
  unfolding comparator_def by_desc_def by (metis less_trans not_less_iff_gr_or_eq)

lemma by_asc_comparator: "comparator le \<Longrightarrow> comparator (by_asc f le)"
  unfolding comparator_def by_asc_def by (metis less_trans not_less_iff_gr_or_eq)

lemmas chain_comparators = by_key_comparator by_desc_comparator by_asc_comparator

text \<open>Ascending numbers, the comparator \<open>(a, b) => a - b\<close>.\<close>

definition le_num :: "real \<Rightarrow> real \<Rightarrow> bool" where
  "le_num a b \<longleftrightarrow> a \<le> b"

interpretation num: strict_comparator le_num
  by unfold_locales (auto simp: le_num_def)

lemma sorted_le_num: "sorted_wrt le_num xs = sorted xs"
  by (simp add: le_num_def [abs_def])

section \<open>Lists\<close>

lemma find_SomeD: "find P xs = Some x \<Longrightarrow> P x \<and> x \<in> set xs"
  by (induction xs) (auto split: if_splits)

text \<open>\<open>arr.slice(-n)\<close> for \<open>n > 0\<close>.\<close>

definition slice_last :: "nat \<Rightarrow> 'a list \<Rightarrow> 'a list" where
  "slice_last n xs = drop (length xs - n) xs"

text \<open>\<open>arr.reduce((best, c) => better c best ? c : best)\<close> over a non-empty array.\<close>

definition reduce_best :: "('a \<Rightarrow> 'a \<Rightarrow> bool) \<Rightarrow> 'a \<Rightarrow> 'a list \<Rightarrow> 'a" where
  "reduce_best better = foldl (\<lambda>best c. if better c best then c else best)"

lemma reduce_best_in: "reduce_best better x xs \<in> set (x # xs)"
proof (induction xs arbitrary: x)
  case (Cons a xs)
  show ?case using Cons [of "if better a x then a else x"]
    by (auto simp: reduce_best_def split: if_splits)
qed (simp add: reduce_best_def)

text \<open>The contract of such a choice: with a strict order, nothing beats what it returns.\<close>

locale preference =
  fixes better :: "'a \<Rightarrow> 'a \<Rightarrow> bool"
  assumes irrefl: "\<not> better a a"
    and better_trans: "better a b \<Longrightarrow> better b c \<Longrightarrow> better a c"
begin

lemma reduce_best_improves: "reduce_best better x xs = x \<or> better (reduce_best better x xs) x"
proof (induction xs arbitrary: x)
  case (Cons a xs)
  show ?case using Cons [of "if better a x then a else x"]
    by (auto simp: reduce_best_def dest: better_trans split: if_splits)
qed (simp add: reduce_best_def)

lemma reduce_best_unbeaten: "y \<in> set (x # xs) \<Longrightarrow> \<not> better y (reduce_best better x xs)"
proof (induction xs arbitrary: x)
  case Nil then show ?case by (simp add: reduce_best_def irrefl)
next
  case (Cons a xs)
  define b where "b = (if better a x then a else x)"
  have step: "reduce_best better x (a # xs) = reduce_best better b xs" by (simp add: reduce_best_def b_def)
  have up: "reduce_best better b xs = b \<or> better (reduce_best better b xs) b" by (rule reduce_best_improves)
  have "\<not> better y b" if "y = x \<or> y = a" using that irrefl better_trans by (auto simp: b_def)
  then have "\<not> better y (reduce_best better b xs)" if "y = x \<or> y = a" using that up better_trans by metis
  moreover have "\<not> better y (reduce_best better b xs)" if "y \<in> set xs" using that by (intro Cons.IH) simp
  ultimately show ?case using Cons.prems unfolding step by auto
qed

end

lemma sum_list_nonneg_real: "(\<And>x. x \<in> set xs \<Longrightarrow> 0 \<le> f x) \<Longrightarrow> 0 \<le> sum_list (map f xs)" for f :: "'a \<Rightarrow> real"
  by (induction xs) auto

lemma sum_list_pos_iff:
  "(\<And>x. x \<in> set xs \<Longrightarrow> 0 \<le> f x) \<Longrightarrow> 0 < sum_list (map f xs) \<longleftrightarrow> (\<exists>x \<in> set xs. 0 < f x)"
  for f :: "'a \<Rightarrow> real"
proof (induction xs)
  case (Cons a xs)
  have "0 \<le> f a" "0 \<le> sum_list (map f xs)" using Cons.prems by (auto intro: sum_list_nonneg_real)
  with Cons show ?case by (auto intro: add_pos_nonneg add_nonneg_pos)
qed simp

lemma sum_list_mono_real:
  "(\<And>x. x \<in> set xs \<Longrightarrow> f x \<le> g x) \<Longrightarrow> sum_list (map f xs) \<le> sum_list (map g xs)"
  for f g :: "'a \<Rightarrow> real"
  by (induction xs) (auto intro: add_mono)

section \<open>Text\<close>

text \<open>Case folding and trimming act on the ASCII letters and blanks of a string.\<close>

definition char_code :: "char \<Rightarrow> nat" where
  "char_code c = of_char c"

definition js_upper :: "string \<Rightarrow> string" where
  "js_upper = map (\<lambda>c. if 97 \<le> char_code c \<and> char_code c \<le> 122 then char_of (char_code c - 32) else c)"

definition js_lower :: "string \<Rightarrow> string" where
  "js_lower = map (\<lambda>c. if 65 \<le> char_code c \<and> char_code c \<le> 90 then char_of (char_code c + 32) else c)"

definition is_blank :: "char \<Rightarrow> bool" where
  "is_blank c \<longleftrightarrow> char_code c = 32 \<or> (9 \<le> char_code c \<and> char_code c \<le> 13)"

definition js_trim :: "string \<Rightarrow> string" where
  "js_trim s = rev (dropWhile is_blank (rev (dropWhile is_blank s)))"

lemma js_lower_idem: "js_lower (js_lower s) = js_lower s"
  by (auto simp: js_lower_def char_code_def)

section \<open>Tables\<close>

text \<open>A table is the list of its rows. \<open>updateMany\<close> (or \<open>update\<close> by key) maps the rows that match, and the
  count it answers is their number.\<close>

definition update_where :: "('r \<Rightarrow> bool) \<Rightarrow> ('r \<Rightarrow> 'r) \<Rightarrow> 'r list \<Rightarrow> 'r list" where
  "update_where P f rows = map (\<lambda>r. if P r then f r else r) rows"

definition count_where :: "('r \<Rightarrow> bool) \<Rightarrow> 'r list \<Rightarrow> nat" where
  "count_where P rows = length (filter P rows)"

lemma update_where_nop: "(\<And>r. r \<in> set rows \<Longrightarrow> \<not> P r) \<Longrightarrow> update_where P f rows = rows"
  by (induction rows) (simp_all add: update_where_def)

lemma update_where_Nil [simp]: "update_where P f [] = []"
  by (simp add: update_where_def)

lemma update_where_Cons [simp]:
  "update_where P f (r # rs) = (if P r then f r else r) # update_where P f rs"
  by (simp add: update_where_def)

lemma set_update_where: "set (update_where P f rows) = (\<lambda>r. if P r then f r else r) ` set rows"
  by (simp add: update_where_def)

lemma length_update_where [simp]: "length (update_where P f rows) = length rows"
  by (simp add: update_where_def)

lemma map_update_where: "(\<And>r. g (f r) = g r) \<Longrightarrow> map g (update_where P f rows) = map g rows"
  by (simp add: update_where_def)

end
