(* ===== verification/Baseline.thy ===== *)
theory Baseline
  imports Prelude
begin

text \<open>
  \<^verbatim>\<open>packages/forecast/src/baseline.ts\<close>: demand rates and inventory primitives.

  A sales row is \<open>sales_point\<close>. The optional arguments \<open>stockoutDates\<close> and
  \<open>excludedDates\<close> are lists: the source only ever asks for their length and their
  elements, so an absent one is the empty list. Counts of days are \<open>int\<close>, units and
  rates are \<open>real\<close>. Then follow the lemmas: a window depends only on its per-day totals,
  it is bounded by what was sold, denominators stay positive, rates are non-negative.
\<close>

section \<open>Definitions\<close>

record sales_point =
  sp_date :: date
  sp_quantity :: real
  sp_revenue :: "real option"
  sp_channel :: "string option"

datatype baseline_method = Mean | Median

definition RATE_WINDOWS :: "(int \<times> real) list" where
  "RATE_WINDOWS = [(30, 0.5), (90, 0.3), (365, 0.2)]"

definition weightedDailyRate :: "sales_point list \<Rightarrow> date \<Rightarrow> real" where
  "weightedDailyRate history asOf =
    (if history = [] then 0
     else sum_list (map (\<lambda>(days, weight).
       let since = days_before asOf days;
           qty = sum_list (map sp_quantity (filter (\<lambda>p. since \<le> sp_date p) history))
       in qty / of_int days * weight) RATE_WINDOWS))"

definition median :: "real list \<Rightarrow> real" where
  "median values =
    (if values = [] then 0
     else let sorted = sort_by le_num values;
              mid = length sorted div 2
          in if odd (length sorted) then sorted ! mid
             else (sorted ! (mid - 1) + sorted ! mid) / 2)"

definition SPIKE_CAP_MULTIPLE :: real where "SPIKE_CAP_MULTIPLE = 2"
definition MIN_SALE_DAYS_FOR_CAP :: nat where "MIN_SALE_DAYS_FOR_CAP = 5"

text \<open>\<open>Math.min(qty, cap)\<close> where \<open>None\<close> is the cap \<open>Infinity\<close>.\<close>

definition cap_at :: "real option \<Rightarrow> real \<Rightarrow> real" where
  "cap_at cap q = (case cap of None \<Rightarrow> q | Some c \<Rightarrow> min q c)"

definition excludes :: "date list option \<Rightarrow> date \<Rightarrow> bool" where
  "excludes excluded k = (case excluded of None \<Rightarrow> False | Some ks \<Rightarrow> k \<in> set ks)"

definition counted :: "date \<Rightarrow> date \<Rightarrow> date list option \<Rightarrow> sales_point \<Rightarrow> bool" where
  "counted since asOf excluded p \<longleftrightarrow>
     \<not> (sp_date p < since \<or> asOf \<le> sp_date p) \<and> \<not> excludes excluded (dayKeyOf (sp_date p))"

definition window_buckets ::
  "sales_point list \<Rightarrow> date \<Rightarrow> date \<Rightarrow> date list option \<Rightarrow> (date \<times> real) list" where
  "window_buckets history since asOf excluded =
     bump_all (counted since asOf excluded) (\<lambda>p. dayKeyOf (sp_date p)) sp_quantity history []"

definition spike_cap :: "real list \<Rightarrow> real option" where
  "spike_cap sold =
     (if MIN_SALE_DAYS_FOR_CAP \<le> length sold then Some (SPIKE_CAP_MULTIPLE * median sold) else None)"

definition dampedWindow ::
  "sales_point list \<Rightarrow> date \<Rightarrow> date \<Rightarrow> date list option \<Rightarrow> real \<times> int" where
  "dampedWindow history since asOf excluded =
    (let totals = alist_vals (window_buckets history since asOf excluded);
         sold = filter (\<lambda>q. 0 < q) totals;
         cap = spike_cap sold
     in (sum_list (map (cap_at cap) totals), int (length sold)))"

definition in_span :: "date \<Rightarrow> date \<Rightarrow> date \<Rightarrow> bool" where
  "in_span since asOf k \<longleftrightarrow> since \<le> k \<and> k < asOf"

definition countDayKeysInWindow :: "date list \<Rightarrow> date \<Rightarrow> date \<Rightarrow> int" where
  "countDayKeysInWindow keys since asOf = int (length (filter (in_span since asOf) keys))"

definition censoredDaysInWindow :: "date list \<Rightarrow> date \<Rightarrow> date \<Rightarrow> int" where
  "censoredDaysInWindow stockoutDates since asOf =
     int (length (filter (in_span since asOf) stockoutDates))"

definition blockedDaysInWindow :: "date list \<Rightarrow> date list \<Rightarrow> date \<Rightarrow> date \<Rightarrow> int" where
  "blockedDaysInWindow stockoutDates excludedDates since asOf =
    (if excludedDates = [] then censoredDaysInWindow stockoutDates since asOf
     else int (length (js_set (filter (in_span since asOf) (map dayKeyOf stockoutDates) @
                               filter (in_span since asOf) (map dayKeyOf excludedDates)))))"

definition excluded_set :: "date list \<Rightarrow> date list option" where
  "excluded_set excludedDates =
     (if excludedDates = [] then None else Some (js_set (map dayKeyOf excludedDates)))"

text \<open>\<open>Math.round(ms / 86400000)\<close>.\<close>

definition ms_days :: "int \<Rightarrow> int" where
  "ms_days ms = js_round (of_int ms / of_int DAY_MS)"

fun gap_sum :: "int \<Rightarrow> date list option \<Rightarrow> date list \<Rightarrow> int" where
  "gap_sum minGap excluded (a # b # ds) =
    (let between = ms_days (b - a)
     in (if minGap < between
         then between - 1 -
           (case excluded of None \<Rightarrow> 0
            | Some ks \<Rightarrow> int (length (filter (\<lambda>k. a < k \<and> k < b) ks)))
         else 0) + gap_sum minGap excluded (b # ds))"
| "gap_sum minGap excluded ds = 0"

definition by_date :: "sales_point \<Rightarrow> sales_point \<Rightarrow> bool" where
  "by_date a b \<longleftrightarrow> sp_date a \<le> sp_date b"

text \<open>The test \<open>totalQty / windowDays < 0.5\<close>, with the IEEE quotient when the window
  rounds to no days at all: an infinity of the sign of \<open>totalQty\<close>, or \<open>NaN\<close>.\<close>

definition slow_seller :: "real \<Rightarrow> int \<Rightarrow> bool" where
  "slow_seller totalQty windowDays =
     (if windowDays = 0 then totalQty < 0 else totalQty / of_int windowDays < 0.5)"

definition gapDaysInWindow ::
  "sales_point list \<Rightarrow> date \<Rightarrow> date \<Rightarrow> int \<Rightarrow> date list \<Rightarrow> int" where
  "gapDaysInWindow history since asOf minGap excludedDates =
    (let inWindow = sort_by by_date (filter (\<lambda>p. in_span since asOf (sp_date p)) history);
         windowDays = ms_days (asOf - since);
         totalQty = sum_list (map sp_quantity inWindow)
     in if length inWindow < 2 then 0
        else if slow_seller totalQty windowDays then 0
        else min (gap_sum minGap (excluded_set excludedDates) (map sp_date inWindow)) (windowDays - 1))"

definition weightedDailyRateAdjusted :: "sales_point list \<Rightarrow> date \<Rightarrow> date list \<Rightarrow> real" where
  "weightedDailyRateAdjusted history asOf excludedDates =
    (if history = [] then 0
     else let excluded = excluded_set excludedDates in
       sum_list (map (\<lambda>(days, weight).
         let since = days_before asOf days;
             units = fst (dampedWindow history since asOf excluded);
             excludedDays = (case excluded of None \<Rightarrow> 0 | Some ks \<Rightarrow> countDayKeysInWindow ks since asOf);
             effectiveDays = max 1 (days - gapDaysInWindow history since asOf 7 excludedDates - excludedDays)
         in units / of_int effectiveDays * weight) RATE_WINDOWS))"

definition inferredStockoutGapDays :: "sales_point list \<Rightarrow> date \<Rightarrow> date \<Rightarrow> int" where
  "inferredStockoutGapDays history since asOf = gapDaysInWindow history since asOf 7 []"

definition uncoveredGapDays ::
  "sales_point list \<Rightarrow> date \<Rightarrow> date \<Rightarrow> date option \<Rightarrow> date list \<Rightarrow> int" where
  "uncoveredGapDays history since asOf snapshotsSince excludedDates =
    (case snapshotsSince of None \<Rightarrow> 0
     | Some s \<Rightarrow> if s \<le> since then 0
               else gapDaysInWindow history since (if s < asOf then s else asOf) 7 excludedDates)"

definition effectiveWindowDays :: "int \<Rightarrow> int \<Rightarrow> (int \<times> int) option \<Rightarrow> int" where
  "effectiveWindowDays windowDays stockoutDays signal =
    (let inStock = windowDays - stockoutDays;
         floor0 = min 7 windowDays;
         floor' = (case signal of None \<Rightarrow> floor0
           | Some (inStockDays, saleDays) \<Rightarrow>
               if 0 < inStockDays \<and> 2 \<le> saleDays \<and> 0.6 \<le> real_of_int saleDays / of_int inStockDays
               then min 3 windowDays else floor0)
     in max inStock floor')"

definition weightedDailyRateCensored ::
  "sales_point list \<Rightarrow> date list \<Rightarrow> date \<Rightarrow> date list \<Rightarrow> date option \<Rightarrow> real" where
  "weightedDailyRateCensored history stockoutDates asOf excludedDates snapshotsSince =
    (if history = [] then 0
     else if stockoutDates = [] \<and> snapshotsSince = None
     then weightedDailyRateAdjusted history asOf excludedDates
     else let excluded = excluded_set excludedDates in
       sum_list (map (\<lambda>(days, weight).
         let since = days_before asOf days;
             (units, saleDays) = dampedWindow history since asOf excluded;
             blocked = blockedDaysInWindow stockoutDates excludedDates since asOf +
                       uncoveredGapDays history since asOf snapshotsSince excludedDates;
             effectiveDays = effectiveWindowDays days blocked (Some (days - blocked, saleDays))
         in units / of_int effectiveDays * weight) RATE_WINDOWS))"

subsection \<open>The weekly-median baseline\<close>

definition MEDIAN_BUCKET_DAYS :: int where "MEDIAN_BUCKET_DAYS = 7"

definition MEDIAN_WINDOWS :: "(int \<times> real) list" where
  "MEDIAN_WINDOWS = [(56, 0.5), (182, 0.3), (364, 0.2)]"

text \<open>The day keys \<open>lo\<close>, \<open>lo + 1 day\<close>, ... below \<open>hi\<close>, as the \<open>for\<close> loops visit them.\<close>

function day_range :: "date \<Rightarrow> date \<Rightarrow> date list" where
  "day_range lo hi = (if lo < hi then lo # day_range (lo + DAY_MS) hi else [])"
  by pat_completeness auto
termination by (relation "measure (\<lambda>(lo, hi). nat (hi - lo))") auto

declare day_range.simps [simp del]

text \<open>The weekly buckets \<open>[bucketStart, bucketEnd)\<close>, newest first.\<close>

function week_buckets :: "date \<Rightarrow> date \<Rightarrow> (date \<times> date) list" where
  "week_buckets start bucketEnd =
    (if start < bucketEnd
     then (max start (bucketEnd - MEDIAN_BUCKET_DAYS * DAY_MS), bucketEnd)
            # week_buckets start (bucketEnd - MEDIAN_BUCKET_DAYS * DAY_MS)
     else [])"
  by pat_completeness auto
termination
  by (relation "measure (\<lambda>(s, e). nat (e - s))") (auto simp: MEDIAN_BUCKET_DAYS_def)

declare week_buckets.simps [simp del]

text \<open>The days inside gaps of more than a week between consecutive sale days.\<close>

fun inferred_gap_days :: "date list \<Rightarrow> date list" where
  "inferred_gap_days (left # right # ds) =
    (if real_of_int (right - left) / of_int DAY_MS \<le> 7 then [] else day_range (left + DAY_MS) right)
      @ inferred_gap_days (right # ds)"
| "inferred_gap_days ds = []"

definition day_buckets :: "sales_point list \<Rightarrow> (date \<times> real) list" where
  "day_buckets ps = bump_all (\<lambda>p. True) (\<lambda>p. dayKeyOf (sp_date p)) sp_quantity ps []"

definition median_blocked ::
  "sales_point list \<Rightarrow> date \<Rightarrow> date \<Rightarrow> date list \<Rightarrow> date list \<Rightarrow> date option \<Rightarrow> date list" where
  "median_blocked inWindow start end' excluded stockouts snapshotsSince =
    (let byDay = day_buckets inWindow;
         inferenceEnd = (case snapshotsSince of Some s \<Rightarrow> min end' (dayKeyOf s)
                         | None \<Rightarrow> if stockouts \<noteq> [] then start else end');
         unknown = sort_by by_date (filter (\<lambda>p. dayKeyOf (sp_date p) < inferenceEnd) inWindow);
         unknownDays = real_of_int (inferenceEnd - start) / of_int DAY_MS;
         inferred = (if 2 \<le> length unknown \<and> 0 < unknownDays \<and>
                        0.5 \<le> sum_list (map sp_quantity unknown) / unknownDays
                     then inferred_gap_days (map (dayKeyOf \<circ> sp_date) unknown) else []);
         sold = map fst (filter (\<lambda>(key, units). 0 < units \<and> key \<notin> set excluded) byDay)
     in filter (\<lambda>k. k \<notin> set sold) (js_set (excluded @ stockouts @ inferred)))"

definition bucket_exposure :: "(date \<times> real) list \<Rightarrow> date list \<Rightarrow> date \<times> date \<Rightarrow> int \<times> real" where
  "bucket_exposure byDay blocked b =
    (let keys = filter (\<lambda>k. k \<notin> set blocked) (day_range (fst b) (snd b))
     in (int (length keys), sum_list (map (get0 byDay) keys)))"

definition median_window_rate ::
  "sales_point list \<Rightarrow> date \<Rightarrow> date \<Rightarrow> date list \<Rightarrow> date list \<Rightarrow> date option \<Rightarrow> int \<Rightarrow> real" where
  "median_window_rate valid first end' excluded stockouts snapshotsSince days =
    (let start = max first (end' - days * DAY_MS);
         inWindow = filter (\<lambda>p. start \<le> dayKeyOf (sp_date p)) valid;
         byDay = day_buckets inWindow;
         blocked = median_blocked inWindow start end' excluded stockouts snapshotsSince;
         exposures = map (bucket_exposure byDay blocked) (week_buckets start end');
         exposure = sum_list (map fst exposures);
         weeks = map (\<lambda>(d, u). max 0 (u / of_int d)) (filter (\<lambda>(d, u). 3 \<le> d) exposures);
         (units, saleDays) = dampedWindow valid start end' (Some excluded);
         span = max 1 ((end' - start) div DAY_MS);
         mean = max 0 units /
           of_int (effectiveWindowDays span (span - exposure) (Some (exposure, saleDays)));
         typical = median weeks
     in if 4 \<le> length weeks \<and> (0 < typical \<or> units \<le> 0) then typical else mean)"

definition weightedDailyRateMedianCensored ::
  "sales_point list \<Rightarrow> date list \<Rightarrow> date \<Rightarrow> date list \<Rightarrow> date option \<Rightarrow> real" where
  "weightedDailyRateMedianCensored history stockoutDates asOf excludedDates snapshotsSince =
    (let end' = dayKeyOf asOf;
         valid = filter (\<lambda>p. sp_date p < asOf \<and> dayKeyOf (sp_date p) < end') history
     in if valid = [] then 0
        else let first = fold (\<lambda>p f. min f (dayKeyOf (sp_date p))) valid end';
                 excluded = js_set (map dayKeyOf excludedDates);
                 stockouts = js_set (map dayKeyOf stockoutDates)
             in sum_list (map (\<lambda>(days, weight).
                  median_window_rate valid first end' excluded stockouts snapshotsSince days * weight)
                  MEDIAN_WINDOWS))"

definition weightedDailyRateMedian :: "sales_point list \<Rightarrow> date \<Rightarrow> date list \<Rightarrow> real" where
  "weightedDailyRateMedian history asOf excludedDates =
     weightedDailyRateMedianCensored history [] asOf excludedDates None"

definition hasStockoutGap :: "sales_point list \<Rightarrow> date \<Rightarrow> bool" where
  "hasStockoutGap history asOf =
     (if length history < 2 then False
      else 0 < gapDaysInWindow history (year_before asOf) asOf 7 [])"

subsection \<open>Inventory primitives\<close>

definition NO_STOCKOUT_DAYS :: int where "NO_STOCKOUT_DAYS = 999"

definition daysOfStockRemaining :: "real \<Rightarrow> real \<Rightarrow> int" where
  "daysOfStockRemaining currentStock dailyRate =
     (if dailyRate \<le> 0.0001 then NO_STOCKOUT_DAYS else \<lfloor>currentStock / dailyRate\<rfloor>)"

definition kingsSafetyStock :: "real \<Rightarrow> real \<Rightarrow> real \<Rightarrow> real \<Rightarrow> real \<Rightarrow> real" where
  "kingsSafetyStock z leadTimeAvg leadTimeStd demandAvg demandStd =
    (let variance = max 0 leadTimeAvg * demandStd\<^sup>2 + demandAvg\<^sup>2 * leadTimeStd\<^sup>2
     in max 0 (z * sqrt variance))"

definition reorderPoint :: "real \<Rightarrow> real \<Rightarrow> real \<Rightarrow> real" where
  "reorderPoint demandAvg leadTimeAvg safetyStock = demandAvg * leadTimeAvg + safetyStock"

definition standardDeviation :: "real list \<Rightarrow> real" where
  "standardDeviation values =
    (if values = [] then 0
     else let n = real (length values);
              mean = sum_list values / n;
              variance = sum_list (map (\<lambda>v. (v - mean)\<^sup>2) values) / n
          in sqrt variance)"

datatype urgency = Critical | High | Medium | Low

definition CRITICAL_MIN_RATE :: real where "CRITICAL_MIN_RATE = 1 / 14"

definition urgencyFromDays :: "real \<Rightarrow> real option \<Rightarrow> urgency" where
  "urgencyFromDays days dailyRate =
    (if days < 7
     then (case dailyRate of None \<Rightarrow> Critical
           | Some r \<Rightarrow> if CRITICAL_MIN_RATE \<le> r then Critical else High)
     else if days < 14 then High
     else if days < 30 then Medium
     else Low)"

datatype abc = ClassA | ClassB | ClassC

definition SERVICE_Z_DEFAULTS :: "abc \<Rightarrow> real" where
  "SERVICE_Z_DEFAULTS c = (case c of ClassA \<Rightarrow> 2.33 | ClassB \<Rightarrow> 1.65 | ClassC \<Rightarrow> 1.28)"

definition zForServiceLevel :: "string option \<Rightarrow> (abc \<Rightarrow> real option) \<Rightarrow> real" where
  "zForServiceLevel abc overrides =
    (if abc = Some ''A'' then nvl (overrides ClassA) (SERVICE_Z_DEFAULTS ClassA)
     else if abc = Some ''B'' then nvl (overrides ClassB) (SERVICE_Z_DEFAULTS ClassB)
     else nvl (overrides ClassC) (SERVICE_Z_DEFAULTS ClassC))"

section \<open>A window depends only on its per-day totals\<close>

text \<open>The abstract view of a window: which days it counts, and what each sold in total.\<close>

definition counted_days :: "date \<Rightarrow> date \<Rightarrow> date list option \<Rightarrow> sales_point list \<Rightarrow> date set" where
  "counted_days since asOf excluded h =
     (\<lambda>p. dayKeyOf (sp_date p)) ` {p \<in> set h. counted since asOf excluded p}"

definition day_total :: "date \<Rightarrow> date \<Rightarrow> date list option \<Rightarrow> sales_point list \<Rightarrow> date \<Rightarrow> real" where
  "day_total since asOf excluded h k =
     sum_list (map sp_quantity (filter (\<lambda>p. counted since asOf excluded p \<and> dayKeyOf (sp_date p) = k) h))"

lemma window_buckets_abs:
  "distinct (alist_keys (window_buckets h since asOf ex))"
  "set (alist_keys (window_buckets h since asOf ex)) = counted_days since asOf ex h"
  "get0 (window_buckets h since asOf ex) = day_total since asOf ex h"
  by (auto simp: window_buckets_def bucket_simps counted_days_def day_total_def get0_def [of "[]"]
      fun_eq_iff simp del: set_map)

lemma window_vals:
  "mset (alist_vals (window_buckets h since asOf ex)) =
     image_mset (day_total since asOf ex h) (mset_set (counted_days since asOf ex h))"
  using mset_vals_get0 [OF window_buckets_abs(1)] by (simp only: window_buckets_abs(2,3))

lemma median_mset: "mset xs = mset ys \<Longrightarrow> median xs = median ys"
proof -
  assume eq: "mset xs = mset ys"
  then have "sort_by le_num xs = sort_by le_num ys" by (rule num.sort_by_perm)
  moreover have "xs = [] \<longleftrightarrow> ys = []" using eq by (metis mset_zero_iff)
  ultimately show ?thesis by (simp add: median_def)
qed

lemma dampedWindow_by_vals:
  assumes "mset (alist_vals (window_buckets h1 s a e)) = mset (alist_vals (window_buckets h2 s' a' e'))"
  shows "dampedWindow h1 s a e = dampedWindow h2 s' a' e'"
proof -
  let ?v1 = "alist_vals (window_buckets h1 s a e)" and ?v2 = "alist_vals (window_buckets h2 s' a' e')"
  have f: "mset (filter (\<lambda>q. 0 < q) ?v1) = mset (filter (\<lambda>q. 0 < q) ?v2)"
    using assms by (simp only: mset_filter)
  then have l: "length (filter (\<lambda>q. 0 < q) ?v1) = length (filter (\<lambda>q. 0 < q) ?v2)"
    by (rule mset_eq_length)
  have m: "median (filter (\<lambda>q. 0 < q) ?v1) = median (filter (\<lambda>q. 0 < q) ?v2)"
    using f by (rule median_mset)
  have "sum_list (map (cap_at c) ?v1) = sum_list (map (cap_at c) ?v2)" for c
    using assms by (metis mset_map sum_mset_sum_list)
  with l m show ?thesis by (simp add: dampedWindow_def spike_cap_def Let_def)
qed

lemma dampedWindow_totals:
  assumes "counted_days s a e h1 = counted_days s a e h2"
    and "\<And>k. day_total s a e h1 k = day_total s a e h2 k"
  shows "dampedWindow h1 s a e = dampedWindow h2 s a e"
proof -
  have "day_total s a e h1 = day_total s a e h2" using assms(2) by (simp add: fun_eq_iff)
  with assms(1) show ?thesis by (intro dampedWindow_by_vals) (simp only: window_vals)
qed

section \<open>Bounds on a window\<close>

lemma cap_at_le: "cap_at c q \<le> q"
  by (simp add: cap_at_def split: option.split)

lemma median_of_positive: "xs \<noteq> [] \<Longrightarrow> (\<And>x. x \<in> set xs \<Longrightarrow> 0 < x) \<Longrightarrow> 0 < median xs"
proof -
  assume ne: "xs \<noteq> []" and pos: "\<And>x. x \<in> set xs \<Longrightarrow> 0 < x"
  let ?s = "sort_by le_num xs"
  have len: "0 < length ?s" using ne by simp
  then have "?s ! i \<in> set xs" if "i < length ?s" for i
    using that by (metis nth_mem set_sort_by)
  then have "0 < ?s ! i" if "i < length ?s" for i using pos that by blast
  moreover have "length ?s div 2 < length ?s" using len by simp
  moreover have "length ?s div 2 - 1 < length ?s" using len by linarith
  ultimately have "0 < ?s ! (length ?s div 2)" "0 < ?s ! (length ?s div 2 - 1)" by blast+
  then show ?thesis using ne by (simp add: median_def Let_def)
qed

lemma median_bounds:
  assumes "xs \<noteq> []" and "\<And>x. x \<in> set xs \<Longrightarrow> lo \<le> x \<and> x \<le> hi"
  shows "lo \<le> median xs \<and> median xs \<le> hi"
proof -
  let ?s = "sort_by le_num xs"
  have len: "0 < length ?s" using assms by simp
  have b: "lo \<le> ?s ! i \<and> ?s ! i \<le> hi" if "i < length ?s" for i
    using that assms(2) by (metis nth_mem set_sort_by)
  have "length ?s div 2 < length ?s" "length ?s div 2 - 1 < length ?s" using len by linarith+
  from b [OF this(1)] b [OF this(2)] show ?thesis
    using assms(1) by (auto simp: median_def Let_def field_simps)
qed

lemma spike_cap_pos:
  "spike_cap (filter (\<lambda>q. 0 < q) vs) = Some c \<Longrightarrow> 0 < c"
proof -
  assume c: "spike_cap (filter (\<lambda>q. 0 < q) vs) = Some c"
  then have "5 \<le> length (filter (\<lambda>q. 0 < q) vs)"
    by (auto simp: spike_cap_def MIN_SALE_DAYS_FOR_CAP_def split: if_splits)
  then have "filter (\<lambda>q. 0 < q) vs \<noteq> []" by fastforce
  then have "0 < median (filter (\<lambda>q. 0 < q) vs)" by (rule median_of_positive) auto
  with c show ?thesis by (auto simp: spike_cap_def SPIKE_CAP_MULTIPLE_def split: if_splits)
qed

lemma dampedWindow_units_le:
  "fst (dampedWindow h s a e) \<le> sum_list (map sp_quantity (filter (counted s a e) h))"
proof -
  let ?m = "window_buckets h s a e"
  have "fst (dampedWindow h s a e) \<le> sum_list (map (\<lambda>q. q) (alist_vals ?m))"
    unfolding dampedWindow_def Let_def fst_conv by (rule sum_list_mono_real) (rule cap_at_le)
  also have "\<dots> = sum_list (map sp_quantity (filter (counted s a e) h))"
    by (simp add: window_buckets_def bump_all_sum)
  finally show ?thesis .
qed

lemma dampedWindow_nonneg:
  assumes "\<And>p. p \<in> set h \<Longrightarrow> 0 \<le> sp_quantity p"
  shows "0 \<le> fst (dampedWindow h s a e)"
proof -
  have "0 \<le> day_total s a e h k" for k
    unfolding day_total_def by (rule sum_list_nonneg_real) (use assms in auto)
  then have "0 \<le> v" if "v \<in> set (alist_vals (window_buckets h s a e))" for v
    using that vals_get0 [OF window_buckets_abs(1), of h s a e] window_buckets_abs(3)
    by (metis (no_types, lifting) image_iff list.set_map)
  then show ?thesis unfolding dampedWindow_def Let_def fst_conv
    by (intro sum_list_nonneg_real)
      (auto simp: cap_at_def min_def dest: spike_cap_pos split: option.splits)
qed

lemma dampedWindow_saleDays_nonneg: "0 \<le> snd (dampedWindow h s a e)"
  by (simp add: dampedWindow_def Let_def)

section \<open>Gaps, denominators and rates\<close>

lemma ms_days_aligned: "ms_days (n * DAY_MS) = n"
  by (simp add: ms_days_def js_round_of_int)

lemma ms_days_aligned_diff: "DAY_MS dvd a \<Longrightarrow> DAY_MS dvd b \<Longrightarrow> ms_days (b - a) = b div DAY_MS - a div DAY_MS"
  using ms_days_aligned [of "b div DAY_MS - a div DAY_MS"]
  by (simp add: left_diff_distrib)

lemma ms_days_nonneg: "0 \<le> x \<Longrightarrow> 0 \<le> ms_days x"
  by (simp add: ms_days_def js_round_nonneg)

text \<open>Distinct aligned keys strictly between two aligned days are fewer than the days between.\<close>

lemma aligned_between:
  assumes "distinct ks" and "\<And>k. k \<in> set ks \<Longrightarrow> DAY_MS dvd k"
    and "DAY_MS dvd a" "DAY_MS dvd b" "a < b"
  shows "int (length (filter (\<lambda>k. a < k \<and> k < b) ks)) \<le> ms_days (b - a) - 1"
proof -
  let ?in = "filter (\<lambda>k. a < k \<and> k < b) ks"
  have al: "k = (k div DAY_MS) * DAY_MS" if "DAY_MS dvd k" for k using that by simp
  have inj: "inj_on (\<lambda>k. k div DAY_MS) (set ?in)"
  proof (rule inj_onI)
    fix k k' assume "k \<in> set ?in" "k' \<in> set ?in" and eq: "k div DAY_MS = k' div DAY_MS"
    then have "DAY_MS dvd k" "DAY_MS dvd k'" using assms(2) by auto
    with al eq show "k = k'" by metis
  qed
  have sub: "(\<lambda>k. k div DAY_MS) ` set ?in \<subseteq> {a div DAY_MS <..< b div DAY_MS}"
  proof
    fix x assume "x \<in> (\<lambda>k. k div DAY_MS) ` set ?in"
    then obtain k where k: "k \<in> set ks" "a < k" "k < b" "x = k div DAY_MS" by auto
    with assms(2-4) al [of k] al [of a] al [of b]
    have "a div DAY_MS * DAY_MS < x * DAY_MS" "x * DAY_MS < b div DAY_MS * DAY_MS" by auto
    then show "x \<in> {a div DAY_MS <..< b div DAY_MS}" by simp
  qed
  have "length ?in = card (set ?in)" using assms(1) by (metis distinct_card distinct_filter)
  also have "\<dots> = card ((\<lambda>k. k div DAY_MS) ` set ?in)" using inj by (simp add: card_image)
  also have "\<dots> \<le> card {a div DAY_MS <..< b div DAY_MS}" using sub by (intro card_mono) simp_all
  finally have "length ?in \<le> nat (b div DAY_MS - (a div DAY_MS + 1))" by simp
  moreover have "a div DAY_MS * DAY_MS < b div DAY_MS * DAY_MS" using assms(3-5) by simp
  then have "a div DAY_MS < b div DAY_MS" by simp
  ultimately show ?thesis using assms(3,4) by (simp add: ms_days_aligned_diff le_nat_iff)
qed

lemma excluded_set_aligned:
  "excluded_set ex = Some ks \<Longrightarrow> distinct ks \<and> (\<forall>k \<in> set ks. DAY_MS dvd k)"
  by (auto simp: excluded_set_def split: if_splits)

lemma gap_sum_nonneg:
  "sorted ds \<Longrightarrow> (\<And>d. d \<in> set ds \<Longrightarrow> DAY_MS dvd d) \<Longrightarrow> 0 \<le> mg \<Longrightarrow> 0 \<le> gap_sum mg (excluded_set ex) ds"
proof (induction mg "excluded_set ex" ds rule: gap_sum.induct)
  case (1 mg a b ds)
  have IH: "0 \<le> gap_sum mg (excluded_set ex) (b # ds)" using 1 by simp
  show ?case
  proof (cases "mg < ms_days (b - a)")
    case True
    then have "a < b" using 1 by (cases "a = b") (auto simp: ms_days_def js_round_def)
    have "(case excluded_set ex of None \<Rightarrow> 0
            | Some ks \<Rightarrow> int (length (filter (\<lambda>k. a < k \<and> k < b) ks))) \<le> ms_days (b - a) - 1"
    proof (cases "excluded_set ex")
      case None with True 1 show ?thesis by simp
    next
      case (Some ks)
      with excluded_set_aligned [OF Some] aligned_between [of ks a b] 1 \<open>a < b\<close> show ?thesis by simp
    qed
    with IH True show ?thesis by (simp add: Let_def)
  next
    case False with IH show ?thesis by (simp add: Let_def)
  qed
qed simp_all

interpretation dated: comparator by_date
  by unfold_locales (auto simp: by_date_def)

lemma sorted_dates: "sorted (map sp_date (sort_by by_date h))"
  using dated.sorted_sort_by [of h] by (simp add: by_date_def [abs_def] sorted_map)

lemma gapDaysInWindow_le: "gapDaysInWindow h s a mg ex \<le> max 0 (ms_days (a - s) - 1)"
  by (auto simp: gapDaysInWindow_def Let_def le_max_iff_disj min_le_iff_disj)

lemma gapDaysInWindow_nonneg:
  assumes "\<And>p. p \<in> set h \<Longrightarrow> DAY_MS dvd sp_date p" and "1 \<le> ms_days (a - s)" and "0 \<le> mg"
  shows "0 \<le> gapDaysInWindow h s a mg ex"
proof -
  let ?w = "sort_by by_date (filter (\<lambda>p. in_span s a (sp_date p)) h)"
  have "0 \<le> gap_sum mg (excluded_set ex) (map sp_date ?w)"
    by (rule gap_sum_nonneg) (use assms sorted_dates in auto)
  with assms(2) show ?thesis by (simp add: gapDaysInWindow_def Let_def)
qed

lemma window_span [simp]: "ms_days (asOf - days_before asOf n) = n"
  using ms_days_aligned [of n] by (simp add: days_before_def)

lemma effectiveWindowDays_ge: "min 3 w \<le> effectiveWindowDays w b sig"
  by (auto simp: effectiveWindowDays_def Let_def split: option.splits prod.splits)

lemma effectiveWindowDays_pos: "1 \<le> w \<Longrightarrow> 1 \<le> effectiveWindowDays w b sig"
  using effectiveWindowDays_ge [of w b sig] by linarith

lemma effectiveWindowDays_le: "1 \<le> w \<Longrightarrow> 0 \<le> b \<Longrightarrow> effectiveWindowDays w b sig \<le> w"
  by (auto simp: effectiveWindowDays_def Let_def split: option.splits prod.splits)

text \<open>A blend over the windows is bounded when every window is.\<close>

lemma rate_windows_mono:
  assumes "\<And>d. d \<in> {30, 90, 365} \<Longrightarrow> f d \<le> g d"
  shows "sum_list (map (\<lambda>(d, w). f d * w) RATE_WINDOWS) \<le> sum_list (map (\<lambda>(d, w). g d * w) RATE_WINDOWS)"
  using assms [of 30] assms [of 90] assms [of 365] by (simp add: RATE_WINDOWS_def)

lemma rate_windows_const: "sum_list (map (\<lambda>(d, w). c * w) RATE_WINDOWS) = c"
  by (simp add: RATE_WINDOWS_def)

lemma quotient_bounds:
  assumes "0 \<le> u" "u \<le> U" "1 \<le> n"
  shows "0 \<le> u / real_of_int n \<and> u / real_of_int n \<le> U"
proof -
  have "u / real_of_int n \<le> u / 1" using assms by (intro divide_left_mono) auto
  with assms show ?thesis by simp
qed

definition positive_sales :: "sales_point list \<Rightarrow> bool" where
  "positive_sales h \<longleftrightarrow> (\<forall>p \<in> set h. 0 \<le> sp_quantity p)"

lemma dampedWindow_bounds:
  assumes "positive_sales h"
  shows "0 \<le> fst (dampedWindow h s a e)" "fst (dampedWindow h s a e) \<le> sum_list (map sp_quantity h)"
proof -
  show "0 \<le> fst (dampedWindow h s a e)"
    using assms by (intro dampedWindow_nonneg) (simp add: positive_sales_def)
  have "sum_list (map sp_quantity (filter P h)) \<le> sum_list (map sp_quantity h)" for P
    using assms by (induction h) (auto simp: positive_sales_def intro: order_trans)
  then show "fst (dampedWindow h s a e) \<le> sum_list (map sp_quantity h)"
    using dampedWindow_units_le order_trans by blast
qed

text \<open>Both blended rates divide the units of each window by a count of days that is at least one, and at
  least three once stock-outs or snapshots are known.\<close>

definition windowed_rate :: "sales_point list \<Rightarrow> date \<Rightarrow> date list option \<Rightarrow> (int \<Rightarrow> int) \<Rightarrow> real" where
  "windowed_rate h t ex days =
     sum_list (map (\<lambda>(d, w). fst (dampedWindow h (days_before t d) t ex) / of_int (days d) * w) RATE_WINDOWS)"

lemma weightedDailyRateAdjusted_windows:
  obtains days where "\<And>d. 1 \<le> days d"
    and "weightedDailyRateAdjusted h t ex = windowed_rate h t (excluded_set ex) days"
proof
  show "1 \<le> max 1 (d - gapDaysInWindow h (days_before t d) t 7 ex -
      (case excluded_set ex of None \<Rightarrow> 0 | Some ks \<Rightarrow> countDayKeysInWindow ks (days_before t d) t))" for d by simp
  show "weightedDailyRateAdjusted h t ex = windowed_rate h t (excluded_set ex) (\<lambda>d. max 1 (d - gapDaysInWindow h (days_before t d) t 7 ex -
      (case excluded_set ex of None \<Rightarrow> 0 | Some ks \<Rightarrow> countDayKeysInWindow ks (days_before t d) t)))"
    by (cases "h = []")
      (simp_all add: windowed_rate_def weightedDailyRateAdjusted_def Let_def dampedWindow_def window_buckets_def RATE_WINDOWS_def)
qed

lemma weightedDailyRateCensored_windows:
  assumes "\<not> (so = [] \<and> ss = None)"
  obtains days where "\<And>d. d \<in> {30, 90, 365} \<Longrightarrow> 3 \<le> days d"
    and "weightedDailyRateCensored h so t ex ss = windowed_rate h t (excluded_set ex) days"
proof
  define days where "days d =
    (let blocked = blockedDaysInWindow so ex (days_before t d) t + uncoveredGapDays h (days_before t d) t ss ex
     in effectiveWindowDays d blocked (Some (d - blocked, snd (dampedWindow h (days_before t d) t (excluded_set ex)))))" for d
  show "3 \<le> days d" if "d \<in> {30, 90, 365}" for d
    unfolding days_def Let_def by (rule order_trans [OF _ effectiveWindowDays_ge]) (use that in auto)
  show "weightedDailyRateCensored h so t ex ss = windowed_rate h t (excluded_set ex) days"
    using assms by (cases "h = []")
      (auto simp: windowed_rate_def days_def weightedDailyRateCensored_def Let_def case_prod_beta dampedWindow_def
        window_buckets_def RATE_WINDOWS_def)
qed

lemma windowed_rate_bounds:
  assumes "positive_sales h" and "\<And>d. d \<in> {30, 90, 365} \<Longrightarrow> 1 \<le> days d"
  shows "0 \<le> windowed_rate h t ex days \<and> windowed_rate h t ex days \<le> sum_list (map sp_quantity h)"
proof -
  let ?r = "\<lambda>d. fst (dampedWindow h (days_before t d) t ex) / of_int (days d)"
  have "0 \<le> ?r d \<and> ?r d \<le> sum_list (map sp_quantity h)" if "d \<in> {30, 90, 365}" for d
    by (intro quotient_bounds dampedWindow_bounds assms that)
  then show ?thesis unfolding windowed_rate_def
    using rate_windows_mono [of "\<lambda>_. 0" ?r] rate_windows_mono [of ?r "\<lambda>_. sum_list (map sp_quantity h)"]
    by (simp only: rate_windows_const)
qed

lemma weightedDailyRateAdjusted_bounds:
  assumes "positive_sales h"
  shows "0 \<le> weightedDailyRateAdjusted h t ex \<and> weightedDailyRateAdjusted h t ex \<le> sum_list (map sp_quantity h)"
  using weightedDailyRateAdjusted_windows [of h t ex] windowed_rate_bounds [OF assms] by metis

lemma weightedDailyRateCensored_unmasked: "weightedDailyRateCensored h [] t ex None = weightedDailyRateAdjusted h t ex"
  by (simp add: weightedDailyRateCensored_def weightedDailyRateAdjusted_def)

lemma weightedDailyRateCensored_bounds:
  assumes "positive_sales h"
  shows "0 \<le> weightedDailyRateCensored h so t ex ss \<and>
         weightedDailyRateCensored h so t ex ss \<le> sum_list (map sp_quantity h)"
proof (cases "so = [] \<and> ss = None")
  case True
  with weightedDailyRateAdjusted_bounds [OF assms] show ?thesis by (simp add: weightedDailyRateCensored_unmasked)
next
  case False
  then obtain days where d: "\<And>d. d \<in> {30, 90, 365} \<Longrightarrow> 3 \<le> days d"
    and e: "weightedDailyRateCensored h so t ex ss = windowed_rate h t (excluded_set ex) days"
    by (rule weightedDailyRateCensored_windows [where h = h and t = t and ex = ex]) blast
  show ?thesis unfolding e by (rule windowed_rate_bounds [OF assms]) (use d in fastforce)
qed

text \<open>Taking inferred gap days out of the denominators never lowers the rate.\<close>

lemma adjusted_ge_damped:
  assumes "positive_sales h" and al: "\<And>p. p \<in> set h \<Longrightarrow> DAY_MS dvd sp_date p"
  shows "sum_list (map (\<lambda>(d, w). fst (dampedWindow h (days_before t d) t None) / real_of_int d * w) RATE_WINDOWS)
         \<le> weightedDailyRateAdjusted h t []"
proof (cases "h = []")
  case True
  then show ?thesis
    by (simp add: weightedDailyRateAdjusted_def RATE_WINDOWS_def dampedWindow_def window_buckets_def)
next
  case False
  define rate where "rate d = fst (dampedWindow h (days_before t d) t None) /
    real_of_int (max 1 (d - gapDaysInWindow h (days_before t d) t 7 []))" for d
  have eq: "weightedDailyRateAdjusted h t [] = sum_list (map (\<lambda>(d, w). rate d * w) RATE_WINDOWS)"
    using False by (simp add: weightedDailyRateAdjusted_def rate_def excluded_set_def Let_def)
  have "fst (dampedWindow h (days_before t d) t None) / real_of_int d \<le> rate d" if "d \<in> {30, 90, 365}" for d
  proof -
    have "0 \<le> gapDaysInWindow h (days_before t d) t 7 []"
      by (rule gapDaysInWindow_nonneg) (use al that in auto)
    then have "real_of_int (max 1 (d - gapDaysInWindow h (days_before t d) t 7 [])) \<le> real_of_int d"
      using that by auto
    then show ?thesis unfolding rate_def
      by (intro divide_left_mono dampedWindow_bounds assms(1)) (use that in auto)
  qed
  then show ?thesis unfolding eq by (rule rate_windows_mono)
qed

lemma median_nonneg: "(\<And>x. x \<in> set xs \<Longrightarrow> 0 \<le> x) \<Longrightarrow> 0 \<le> median xs"
proof (cases "xs = []")
  case False
  assume "\<And>x. x \<in> set xs \<Longrightarrow> 0 \<le> x"
  then have "\<And>x. x \<in> set xs \<Longrightarrow> 0 \<le> x \<and> x \<le> Max (set xs)" by simp
  with False show ?thesis using median_bounds by blast
qed (simp add: median_def)

lemma median_window_rate_nonneg: "0 \<le> median_window_rate v f e ex so ss d"
proof -
  have "1 \<le> effectiveWindowDays (max 1 x) b sig" for x b sig by (simp add: effectiveWindowDays_pos)
  then have "0 \<le> real_of_int (effectiveWindowDays (max 1 x) b sig)" for x b sig
    by (metis of_int_0_le_iff order_trans zero_le_one)
  then show ?thesis unfolding median_window_rate_def Let_def case_prod_beta
    by (auto intro!: median_nonneg divide_nonneg_nonneg)
qed

lemma weightedDailyRateMedianCensored_nonneg: "0 \<le> weightedDailyRateMedianCensored h so t ex ss"
  by (auto simp: weightedDailyRateMedianCensored_def Let_def MEDIAN_WINDOWS_def median_window_rate_nonneg
      intro!: add_nonneg_nonneg mult_nonneg_nonneg)

lemma set_day_range:
  "DAY_MS dvd lo \<Longrightarrow> DAY_MS dvd hi \<Longrightarrow> set (day_range lo hi) = {k. lo \<le> k \<and> k < hi \<and> DAY_MS dvd k}"
proof (induction lo hi rule: day_range.induct)
  case (1 lo hi)
  show ?case
  proof (cases "lo < hi")
    case True
    have step: "k = lo \<or> lo + DAY_MS \<le> k" if "lo \<le> k" "DAY_MS dvd k" for k
    proof (rule ccontr)
      assume "\<not> ?thesis"
      with that have "0 < k - lo" "k - lo < DAY_MS" by auto
      moreover have "DAY_MS dvd k - lo" using that 1 by (simp add: dvd_diff)
      ultimately show False by (meson zdvd_not_zless)
    qed
    have "set (day_range lo hi) = insert lo (set (day_range (lo + DAY_MS) hi))"
      using True by (simp add: day_range.simps [of lo hi])
    also have "\<dots> = insert lo {k. lo + DAY_MS \<le> k \<and> k < hi \<and> DAY_MS dvd k}"
      using 1 True by (simp add: dvd_add)
    also have "\<dots> = {k. lo \<le> k \<and> k < hi \<and> DAY_MS dvd k}"
      using step 1 True by auto
    finally show ?thesis .
  next
    case False then show ?thesis by (auto simp: day_range.simps [of lo hi])
  qed
qed

section \<open>Inventory primitives\<close>

lemma kingsSafetyStock_nonneg: "0 \<le> kingsSafetyStock z la ls da ds"
  by (simp add: kingsSafetyStock_def Let_def)

lemma kingsSafetyStock_mono_z:
  "z \<le> z' \<Longrightarrow> kingsSafetyStock z la ls da ds \<le> kingsSafetyStock z' la ls da ds"
  unfolding kingsSafetyStock_def Let_def by (intro max.mono mult_right_mono) simp_all

lemma standardDeviation_nonneg: "0 \<le> standardDeviation xs"
  by (auto simp: standardDeviation_def Let_def intro!: divide_nonneg_nonneg sum_list_nonneg_real)

end
