(* ===== verification/BigBuyer.thy ===== *)
theory BigBuyer
  imports Baseline
begin

text \<open>
  \<^verbatim>\<open>packages/forecast/src/big-buyer.ts\<close>: the optional bulk-day cleaner. Days whose net
  total is far above the median positive day are held to a target by scaling their positive
  rows; the lemmas say what every day's total is afterwards.
\<close>

definition BULK_MULT :: real where "BULK_MULT = 5"
definition BULK_ABS_FLOOR :: real where "BULK_ABS_FLOOR = 6"
definition BULK_CAP_MULT :: real where "BULK_CAP_MULT = 3"

record bulk_cap =
  bc_date :: date
  bc_original :: real
  bc_capped :: real
  bc_baseline :: real
  bc_threshold :: real
  bc_multiple :: real

record bulk_day =
  bd_total :: real
  bd_positive :: real
  bd_negative :: real

definition no_day :: bulk_day where
  "no_day = \<lparr>bd_total = 0, bd_positive = 0, bd_negative = 0\<rparr>"

definition add_sale :: "real \<Rightarrow> bulk_day \<Rightarrow> bulk_day" where
  "add_sale q d =
     (if 0 < q then d\<lparr>bd_total := bd_total d + q, bd_positive := bd_positive d + q\<rparr>
      else d\<lparr>bd_total := bd_total d + q, bd_negative := bd_negative d + q\<rparr>)"

text \<open>\<open>end\<close> is \<open>None\<close> for \<open>Infinity\<close>.\<close>

definition bulk_eligible :: "date option \<Rightarrow> date list \<Rightarrow> date \<Rightarrow> bool" where
  "bulk_eligible end' excluded key \<longleftrightarrow>
     \<not> ((case end' of None \<Rightarrow> False | Some e \<Rightarrow> e \<le> key) \<or> key \<in> set excluded)"

definition bulk_days :: "date option \<Rightarrow> date list \<Rightarrow> sales_point list \<Rightarrow> (date \<times> bulk_day) list" where
  "bulk_days end' excluded history =
     fold (\<lambda>p m. let key = dayKeyOf (sp_date p)
                  in if bulk_eligible end' excluded key
                     then AList.update key (add_sale (sp_quantity p) (nvl (map_of m key) no_day)) m
                     else m) history []"

definition bulk_baseline :: "(date \<times> bulk_day) list \<Rightarrow> real" where
  "bulk_baseline days = median (filter (\<lambda>q. 0 < q) (map bd_total (alist_vals days)))"

definition bulk_threshold :: "real \<Rightarrow> real" where
  "bulk_threshold baseline = max BULK_ABS_FLOOR (BULK_MULT * baseline)"

definition bulk_target :: "real \<Rightarrow> real" where
  "bulk_target baseline = max (BULK_ABS_FLOOR - 1) (of_int (js_round (BULK_CAP_MULT * baseline)))"

definition flagged_days :: "(date \<times> bulk_day) list \<Rightarrow> (date \<times> bulk_day) list" where
  "flagged_days days =
    (let baseline = bulk_baseline days
     in if 0 < baseline
        then filter (\<lambda>(key, day). \<not> bd_total day \<le> bulk_threshold baseline) days
        else [])"

definition cap_of_day :: "real \<Rightarrow> date \<times> bulk_day \<Rightarrow> bulk_cap" where
  "cap_of_day baseline kd =
    \<lparr>bc_date = fst kd, bc_original = bd_total (snd kd),
     bc_capped = min (bd_total (snd kd)) (bulk_target baseline),
     bc_baseline = baseline, bc_threshold = bulk_threshold baseline,
     bc_multiple = round1 (bd_total (snd kd) / baseline)\<rparr>"

definition bulk_factor :: "real \<Rightarrow> bulk_day \<Rightarrow> real" where
  "bulk_factor baseline day =
     (min (bd_total day) (bulk_target baseline) - bd_negative day) / bd_positive day"

definition scale_point :: "(date \<times> real) list \<Rightarrow> sales_point \<Rightarrow> sales_point" where
  "scale_point factors p =
    (case map_of factors (dayKeyOf (sp_date p)) of
       Some factor \<Rightarrow> if 0 < sp_quantity p then p\<lparr>sp_quantity := sp_quantity p * factor\<rparr> else p
     | None \<Rightarrow> p)"

definition by_cap_date :: "bulk_cap \<Rightarrow> bulk_cap \<Rightarrow> bool" where
  "by_cap_date a b \<longleftrightarrow> bc_date a \<le> bc_date b"

definition debulkSeries ::
  "sales_point list \<Rightarrow> date option \<Rightarrow> date list \<Rightarrow> sales_point list \<times> bulk_cap list" where
  "debulkSeries history asOf excludedDates =
    (let excluded = js_set (map dayKeyOf excludedDates);
         days = bulk_days (map_option dayKeyOf asOf) excluded history;
         baseline = bulk_baseline days;
         flagged = flagged_days days;
         factors = map (\<lambda>(k, d). (k, bulk_factor baseline d)) flagged
     in (map (scale_point factors) history,
         sort_by by_cap_date (map (cap_of_day baseline) flagged)))"

definition hasBulkBuy :: "sales_point list \<Rightarrow> date option \<Rightarrow> date list \<Rightarrow> bool" where
  "hasBulkBuy history asOf excludedDates = (snd (debulkSeries history asOf excludedDates) \<noteq> [])"

section \<open>What a day totals\<close>

definition units_on :: "sales_point list \<Rightarrow> date \<Rightarrow> real" where
  "units_on h k = sum_list (map sp_quantity (filter (\<lambda>p. dayKeyOf (sp_date p) = k) h))"

definition positive_on :: "sales_point list \<Rightarrow> date \<Rightarrow> real" where
  "positive_on h k = sum_list (map sp_quantity
     (filter (\<lambda>p. dayKeyOf (sp_date p) = k \<and> 0 < sp_quantity p) h))"

definition negative_on :: "sales_point list \<Rightarrow> date \<Rightarrow> real" where
  "negative_on h k = sum_list (map sp_quantity
     (filter (\<lambda>p. dayKeyOf (sp_date p) = k \<and> \<not> 0 < sp_quantity p) h))"

lemma units_on_split: "units_on h k = positive_on h k + negative_on h k"
  by (induction h) (auto simp: units_on_def positive_on_def negative_on_def)

lemma negative_on_le: "negative_on h k \<le> 0"
  by (induction h) (auto simp: negative_on_def)

definition day_of :: "sales_point list \<Rightarrow> date \<Rightarrow> bulk_day" where
  "day_of h k = \<lparr>bd_total = units_on h k, bd_positive = positive_on h k, bd_negative = negative_on h k\<rparr>"

lemma day_of_snoc:
  "day_of (h @ [p]) k =
     (if dayKeyOf (sp_date p) = k then add_sale (sp_quantity p) (day_of h k) else day_of h k)"
  by (simp add: day_of_def units_on_def positive_on_def negative_on_def add_sale_def)

lemma day_of_none: "k \<notin> (\<lambda>p. dayKeyOf (sp_date p)) ` set h \<Longrightarrow> day_of h k = no_day"
proof -
  assume "k \<notin> (\<lambda>p. dayKeyOf (sp_date p)) ` set h"
  then have "filter (\<lambda>p. dayKeyOf (sp_date p) = k \<and> P p) h = []" for P
    by (auto simp: filter_empty_conv)
  from this [of "\<lambda>_. True"] this show ?thesis
    by (simp add: day_of_def units_on_def positive_on_def negative_on_def no_day_def)
qed

lemma bulk_days_inv:
  "distinct (alist_keys (bulk_days e ex h)) \<and>
   map_of (bulk_days e ex h) k =
     (if bulk_eligible e ex k \<and> k \<in> (\<lambda>p. dayKeyOf (sp_date p)) ` set h then Some (day_of h k) else None)"
proof (induction h arbitrary: k rule: rev_induct)
  case Nil show ?case by (simp add: bulk_days_def)
next
  case (snoc p h)
  let ?key = "dayKeyOf (sp_date p)" and ?m = "bulk_days e ex h"
  have step: "bulk_days e ex (h @ [p]) =
    (if bulk_eligible e ex ?key
     then AList.update ?key (add_sale (sp_quantity p) (nvl (map_of ?m ?key) no_day)) ?m else ?m)"
    by (simp add: bulk_days_def Let_def)
  show ?case
  proof (cases "bulk_eligible e ex ?key")
    case False
    with snoc [of k] show ?thesis unfolding step by (auto simp: day_of_snoc)
  next
    case True
    have "nvl (map_of ?m ?key) no_day = day_of h ?key"
      using True snoc [of ?key] day_of_none [of ?key h] by (auto split: if_splits)
    then show ?thesis using True snoc [of k] unfolding step
      by (auto simp: distinct_update update_conv' day_of_snoc)
  qed
qed

lemma map_of_filter_distinct:
  "distinct (alist_keys m) \<Longrightarrow>
   map_of (filter P m) k = (case map_of m k of None \<Rightarrow> None | Some v \<Rightarrow> if P (k, v) then Some v else None)"
  by (induction m) (auto simp: map_of_eq_None_iff split: option.splits intro: rev_image_eqI)

lemma map_of_map_vals: "map_of (map (\<lambda>(k, v). (k, g v)) m) k = map_option g (map_of m k)"
  by (induction m) auto

section \<open>What the cleaner does to a day\<close>

definition debulk_days :: "sales_point list \<Rightarrow> date option \<Rightarrow> date list \<Rightarrow> (date \<times> bulk_day) list" where
  "debulk_days h asOf ex = bulk_days (map_option dayKeyOf asOf) (js_set (map dayKeyOf ex)) h"

text \<open>The specification of a bulk day: a completed, unexplained day above the threshold.\<close>

definition is_bulk_day :: "sales_point list \<Rightarrow> date option \<Rightarrow> date list \<Rightarrow> date \<Rightarrow> bool" where
  "is_bulk_day h asOf ex k \<longleftrightarrow>
     k \<notin> set (map dayKeyOf ex) \<and> (\<forall>e. asOf = Some e \<longrightarrow> k < dayKeyOf e) \<and>
     (let baseline = bulk_baseline (debulk_days h asOf ex)
      in 0 < baseline \<and> bulk_threshold baseline < units_on h k)"

lemma bulk_threshold_pos: "0 < bulk_threshold b"
  by (simp add: bulk_threshold_def BULK_ABS_FLOOR_def)

lemma bulk_target_less: "0 < b \<Longrightarrow> bulk_target b < bulk_threshold b"
  using js_round_bounds [of "3 * b"]
  by (auto simp: bulk_target_def bulk_threshold_def BULK_ABS_FLOOR_def BULK_MULT_def BULK_CAP_MULT_def
      less_max_iff_disj)

lemma units_on_nil: "k \<notin> (\<lambda>p. dayKeyOf (sp_date p)) ` set h \<Longrightarrow> units_on h k = 0"
  using day_of_none [of k h] by (simp add: day_of_def no_day_def)

lemma map_of_factors:
  assumes "baseline = bulk_baseline (debulk_days h asOf ex)"
  shows "map_of (map (\<lambda>(k, d). (k, bulk_factor baseline d)) (flagged_days (debulk_days h asOf ex))) k =
    (if is_bulk_day h asOf ex k then Some (bulk_factor baseline (day_of h k)) else None)"
proof -
  let ?d = "debulk_days h asOf ex"
  have inv: "distinct (alist_keys ?d)"
    "map_of ?d k = (if bulk_eligible (map_option dayKeyOf asOf) (js_set (map dayKeyOf ex)) k \<and>
       k \<in> (\<lambda>p. dayKeyOf (sp_date p)) ` set h then Some (day_of h k) else None)"
    unfolding debulk_days_def using bulk_days_inv by blast+
  have el: "bulk_eligible (map_option dayKeyOf asOf) (js_set (map dayKeyOf ex)) k \<longleftrightarrow>
      k \<notin> set (map dayKeyOf ex) \<and> (\<forall>e. asOf = Some e \<longrightarrow> k < dayKeyOf e)"
    by (auto simp: bulk_eligible_def split: option.splits)
  have "k \<in> (\<lambda>p. dayKeyOf (sp_date p)) ` set h" if "is_bulk_day h asOf ex k"
    using that bulk_threshold_pos [of "bulk_baseline ?d"] units_on_nil [of k h]
    by (force simp: is_bulk_day_def Let_def)
  then show ?thesis
    unfolding map_of_map_vals flagged_days_def assms Let_def
    by (auto simp: map_of_filter_distinct [OF inv(1)] inv(2) el is_bulk_day_def Let_def day_of_def)
qed

lemma scale_point_date [simp]: "sp_date (scale_point fs p) = sp_date p"
  by (simp add: scale_point_def split: option.splits)

lemma units_on_scaled:
  "units_on (map (scale_point fs) h) k =
    (case map_of fs k of None \<Rightarrow> units_on h k | Some f \<Rightarrow> positive_on h k * f + negative_on h k)"
  by (induction h)
    (auto simp: units_on_def positive_on_def negative_on_def scale_point_def algebra_simps
      split: option.splits)

lemma debulk_total:
  assumes "baseline = bulk_baseline (debulk_days h asOf ex)"
  shows "units_on (fst (debulkSeries h asOf ex)) k =
    (if is_bulk_day h asOf ex k then bulk_target baseline else units_on h k)"
proof -
  let ?b = "bulk_baseline (debulk_days h asOf ex)"
  let ?fs = "map (\<lambda>(k, d). (k, bulk_factor ?b d)) (flagged_days (debulk_days h asOf ex))"
  have ser: "fst (debulkSeries h asOf ex) = map (scale_point ?fs) h"
    by (simp add: debulkSeries_def debulk_days_def Let_def)
  show ?thesis
  proof (cases "is_bulk_day h asOf ex k")
    case False
    then show ?thesis by (simp add: ser units_on_scaled map_of_factors [OF refl])
  next
    case True
    then have b: "0 < ?b" and big: "bulk_threshold ?b < units_on h k"
      by (auto simp: is_bulk_day_def Let_def)
    have "0 < positive_on h k"
      using big bulk_threshold_pos [of ?b] units_on_split [of h k] negative_on_le [of h k] by linarith
    moreover have "min (units_on h k) (bulk_target ?b) = bulk_target ?b"
      using bulk_target_less [OF b] big by linarith
    moreover have "map_of ?fs k = Some (bulk_factor ?b (day_of h k))"
      using True map_of_factors [OF refl, of h asOf ex k] by simp
    ultimately show ?thesis using True unfolding ser units_on_scaled
      by (simp add: bulk_factor_def day_of_def assms)
  qed
qed

lemma debulk_dates: "map sp_date (fst (debulkSeries h asOf ex)) = map sp_date h"
  by (simp add: debulkSeries_def Let_def)

lemma debulk_length: "length (fst (debulkSeries h asOf ex)) = length h"
  by (simp add: debulkSeries_def Let_def)

text \<open>Scaling a flagged day keeps quantities nonnegative.\<close>

lemma bulk_factor_nonneg: "0 \<le> bulk_factor b (day_of h k) \<or> units_on h k < 0"
proof -
  have "0 \<le> positive_on h k" unfolding positive_on_def by (rule sum_list_nonneg_real) simp
  moreover have "0 \<le> bulk_target b" by (simp add: bulk_target_def BULK_ABS_FLOOR_def le_max_iff_disj)
  ultimately show ?thesis using negative_on_le [of h k]
    by (auto simp: bulk_factor_def day_of_def intro!: divide_nonneg_nonneg)
qed

lemma debulk_positive:
  assumes "positive_sales h"
  shows "positive_sales (fst (debulkSeries h asOf ex))"
proof -
  have u: "0 \<le> units_on h k" for k
    unfolding units_on_def using assms by (intro sum_list_nonneg_real) (simp add: positive_sales_def)
  define b where "b = bulk_baseline (debulk_days h asOf ex)"
  let ?fs = "map (\<lambda>(k, d). (k, bulk_factor b d)) (flagged_days (debulk_days h asOf ex))"
  have "map_of ?fs k = Some f \<Longrightarrow> 0 \<le> f" for k f
    using map_of_factors [OF b_def, of k] bulk_factor_nonneg [of b h k] u [of k] by (auto split: if_splits)
  then have "0 \<le> sp_quantity (scale_point ?fs p)" if "p \<in> set h" for p
    using assms that by (auto simp: scale_point_def positive_sales_def split: option.splits)
  moreover have "fst (debulkSeries h asOf ex) = map (scale_point ?fs) h"
    by (simp add: debulkSeries_def Let_def b_def debulk_days_def)
  ultimately show ?thesis by (auto simp: positive_sales_def)
qed

end
