(* ===== verification/Abc.thy ===== *)
theory Abc
  imports Baseline
begin

text \<open>
  \<^verbatim>\<open>packages/forecast/src/abc.ts\<close> and \<^verbatim>\<open>rate-floor.ts\<close>: the ABC classification by trailing
  revenue with its velocity floor, and the minimum serving rate of a class. The lemmas give
  the class of every product as a function of the revenue share ranked above it.
\<close>

section \<open>ABC classification\<close>

definition MIN_RUN_RATE_FOR_A :: real where "MIN_RUN_RATE_FOR_A = 0.4"
definition MIN_RUN_RATE_FOR_B :: real where "MIN_RUN_RATE_FOR_B = 0.1"
definition ABC_WINDOW_DAYS :: int where "ABC_WINDOW_DAYS = 90"
definition MIN_SALE_SPAN_DAYS_FOR_A :: real where "MIN_SALE_SPAN_DAYS_FOR_A = 14"

definition resolveAbcWindowDays :: "real option \<Rightarrow> int" where
  "resolveAbcWindowDays value =
     (if value = Some 30 then 30 else if value = Some 60 then 60 else ABC_WINDOW_DAYS)"

record abc_input =
  ai_id :: string
  ai_revenue :: real
  ai_runRate :: "real option"
  ai_saleSpanDays :: "real option"

definition below :: "real option \<Rightarrow> real \<Rightarrow> bool" where
  "below x bound = (case x of None \<Rightarrow> False | Some v \<Rightarrow> v < bound)"

definition share_class :: "real \<Rightarrow> abc" where
  "share_class abv = (if abv < 0.7 then ClassA else if abv < 0.9 then ClassB else ClassC)"

definition abc_class :: "real \<Rightarrow> abc_input \<Rightarrow> abc" where
  "abc_class abv p =
    (let cls0 = share_class abv;
         cls1 = (if cls0 = ClassA \<and> below (ai_runRate p) MIN_RUN_RATE_FOR_A then ClassB else cls0);
         cls2 = (if cls1 = ClassB \<and> below (ai_runRate p) MIN_RUN_RATE_FOR_B then ClassC else cls1)
     in if cls2 = ClassA \<and> below (ai_saleSpanDays p) MIN_SALE_SPAN_DAYS_FOR_A then ClassB else cls2)"

fun abc_loop :: "real \<Rightarrow> real \<Rightarrow> abc_input list \<Rightarrow> (string \<times> abc) list \<Rightarrow> (string \<times> abc) list" where
  "abc_loop tot cumulative [] m = m"
| "abc_loop tot cumulative (p # ps) m =
    (let abv = (if 0 < tot then cumulative / tot else 1)
     in abc_loop tot (cumulative + ai_revenue p) ps (AList.update (ai_id p) (abc_class abv p) m))"

definition by_revenue :: "abc_input \<Rightarrow> abc_input \<Rightarrow> bool" where
  "by_revenue a b \<longleftrightarrow> ai_revenue b \<le> ai_revenue a"

definition assignAbc :: "abc_input list \<Rightarrow> (string \<times> abc) list" where
  "assignAbc products =
    (let sorted = sort_by by_revenue products;
         tot = sum_list (map ai_revenue sorted)
     in abc_loop tot 0 sorted [])"

definition trailingRevenue :: "sales_point list \<Rightarrow> date \<Rightarrow> int \<Rightarrow> real" where
  "trailingRevenue history asOf windowDays =
    (let since = days_before asOf windowDays
     in sum_list (map (\<lambda>p. nvl (sp_revenue p) 0)
          (filter (\<lambda>p. since \<le> sp_date p \<and> sp_date p < asOf) history)))"

definition dailySalesValue :: "sales_point list \<Rightarrow> real \<Rightarrow> date \<Rightarrow> real" where
  "dailySalesValue history priceKes asOf = weightedDailyRateAdjusted history asOf [] * priceKes"

definition saleSpanDays :: "sales_point list \<Rightarrow> date \<Rightarrow> int \<Rightarrow> real" where
  "saleSpanDays history asOf windowDays =
    (let since = asOf - windowDays * DAY_MS;
         dates = map sp_date (filter (\<lambda>p. 0 < sp_quantity p \<and> since \<le> sp_date p \<and> sp_date p < asOf) history)
     in if length dates < 2 then 0
        else of_int (fold max dates (hd dates) - fold min dates (hd dates)) / of_int DAY_MS)"

interpretation revenue: comparator by_revenue
  by unfold_locales (auto simp: by_revenue_def)

text \<open>The share of the total revenue that is ranked above position \<open>i\<close>.\<close>

definition share_above :: "abc_input list \<Rightarrow> nat \<Rightarrow> real" where
  "share_above ranked i =
    (let tot = sum_list (map ai_revenue ranked)
     in if 0 < tot then sum_list (map ai_revenue (take i ranked)) / tot else 1)"

lemma abc_loop_notin:
  "x \<notin> set (map ai_id ps) \<Longrightarrow> map_of (abc_loop t c ps m) x = map_of m x"
  by (induction ps arbitrary: c m) (auto simp: Let_def update_conv')

lemma abc_loop_nth:
  "distinct (map ai_id ps) \<Longrightarrow> i < length ps \<Longrightarrow>
   map_of (abc_loop t c ps m) (ai_id (ps ! i)) =
     Some (abc_class (if 0 < t then (c + sum_list (map ai_revenue (take i ps))) / t else 1) (ps ! i))"
proof (induction ps arbitrary: c m i)
  case (Cons p ps)
  show ?case
  proof (cases i)
    case 0
    with Cons.prems show ?thesis by (simp add: Let_def abc_loop_notin update_conv')
  next
    case (Suc j)
    with Cons show ?thesis by (simp add: Let_def add.assoc)
  qed
qed simp

lemma distinct_ids_sort: "distinct (map ai_id (sort_by by_revenue ps)) = distinct (map ai_id ps)"
  by (metis mset_map mset_sort_by mset_eq_imp_distinct_iff)

lemma assignAbc_nth:
  assumes "distinct (map ai_id ps)" and "i < length ps"
  shows "map_of (assignAbc ps) (ai_id (sort_by by_revenue ps ! i)) =
    Some (abc_class (share_above (sort_by by_revenue ps) i) (sort_by by_revenue ps ! i))"
  using assms by (simp add: assignAbc_def share_above_def Let_def abc_loop_nth distinct_ids_sort)

fun abc_rank :: "abc \<Rightarrow> nat" where
  "abc_rank ClassA = 0" | "abc_rank ClassB = 1" | "abc_rank ClassC = 2"

lemma share_class_mono: "a \<le> b \<Longrightarrow> abc_rank (share_class a) \<le> abc_rank (share_class b)"
  by (simp add: share_class_def)

text \<open>The velocity gates only ever demote, and a product they do not touch keeps its share class.\<close>

definition velocity_ok :: "abc_input \<Rightarrow> bool" where
  "velocity_ok p \<longleftrightarrow> \<not> below (ai_runRate p) MIN_RUN_RATE_FOR_A \<and>
     \<not> below (ai_runRate p) MIN_RUN_RATE_FOR_B \<and> \<not> below (ai_saleSpanDays p) MIN_SALE_SPAN_DAYS_FOR_A"

lemma abc_class_ok: "velocity_ok p \<Longrightarrow> abc_class a p = share_class a"
  by (simp add: abc_class_def velocity_ok_def Let_def)

lemma velocity_okI:
  "\<not> below (ai_runRate p) 0.4 \<Longrightarrow> \<not> below (ai_saleSpanDays p) 14 \<Longrightarrow> velocity_ok p"
  by (auto simp: velocity_ok_def below_def MIN_RUN_RATE_FOR_A_def MIN_RUN_RATE_FOR_B_def MIN_SALE_SPAN_DAYS_FOR_A_def
      split: option.splits)

lemma abc_class_cases:
  "abc_class a p = ClassA \<longleftrightarrow> a < 0.7 \<and> \<not> below (ai_runRate p) 0.4 \<and> \<not> below (ai_saleSpanDays p) 14"
  "abc_class a p = ClassC \<longleftrightarrow> 0.9 \<le> a \<or> below (ai_runRate p) 0.1"
  by (auto simp: abc_class_def share_class_def below_def Let_def MIN_RUN_RATE_FOR_A_def MIN_RUN_RATE_FOR_B_def
      MIN_SALE_SPAN_DAYS_FOR_A_def split: option.splits)

lemma abc_class_demotes: "abc_rank (share_class a) \<le> abc_rank (abc_class a p)"
  by (auto simp: abc_class_def share_class_def Let_def)

lemma share_above_mono:
  assumes "\<And>p. p \<in> set ps \<Longrightarrow> 0 \<le> ai_revenue p" and "i \<le> j"
  shows "share_above ps i \<le> share_above ps j"
proof -
  have "take j ps = take i ps @ take (j - i) (drop i ps)"
    using assms(2) by (metis le_add_diff_inverse take_add)
  moreover have "0 \<le> sum_list (map ai_revenue (take (j - i) (drop i ps)))"
    by (rule sum_list_nonneg_real) (meson assms(1) in_set_dropD in_set_takeD)
  ultimately show ?thesis by (auto simp: share_above_def Let_def divide_right_mono)
qed

section \<open>The minimum serving rate of a class\<close>

definition ABC_RATE_FLOORS :: "abc \<Rightarrow> real" where
  "ABC_RATE_FLOORS c = (case c of ClassA \<Rightarrow> 0.4 | ClassB \<Rightarrow> 0.1 | ClassC \<Rightarrow> 0)"

definition shelfWasMostlyEmpty :: "date list \<Rightarrow> date option \<Rightarrow> date \<Rightarrow> date \<Rightarrow> bool" where
  "shelfWasMostlyEmpty stockoutDates snapshotsSince windowStart today =
    (case snapshotsSince of None \<Rightarrow> False
     | Some s \<Rightarrow>
        let from' = max (dayKeyOf windowStart) (dayKeyOf s);
            to' = dayKeyOf today;
            provenDays = ms_days (to' - from')
        in if provenDays \<le> 0 then False
           else let empty = js_set (filter (\<lambda>k. from' \<le> k \<and> k < to') (map dayKeyOf stockoutDates))
                in provenDays < int (length empty) * 2)"

definition abcFloorFor :: "abc option \<Rightarrow> bool \<Rightarrow> bool \<Rightarrow> real" where
  "abcFloorFor abc hadRecentSales shelfMostlyEmpty =
    (if \<not> hadRecentSales then 0
     else if \<not> shelfMostlyEmpty then 0
     else case abc of Some ClassA \<Rightarrow> ABC_RATE_FLOORS ClassA
                    | Some ClassB \<Rightarrow> ABC_RATE_FLOORS ClassB
                    | _ \<Rightarrow> 0)"

definition applyAbcRateFloor :: "real \<Rightarrow> abc option \<Rightarrow> bool \<Rightarrow> bool \<Rightarrow> real option \<Rightarrow> real" where
  "applyAbcRateFloor rate abc hadRecentSales shelfMostlyEmpty demonstratedRate =
    (let floor' = abcFloorFor abc hadRecentSales shelfMostlyEmpty
     in if floor' \<le> rate then rate
        else let ceiling' = (case demonstratedRate of None \<Rightarrow> floor' | Some r \<Rightarrow> r)
             in max rate (min floor' ceiling'))"

definition demonstratedDailyRate :: "sales_point list \<Rightarrow> real option" where
  "demonstratedDailyRate history =
    (let sold = filter (\<lambda>p. \<not> sp_quantity p \<le> 0) history;
         units = sum_list (map sp_quantity sold);
         dates = map sp_date sold;
         first = fold min dates (hd dates);
         last' = fold max dates (hd dates)
     in if units \<le> 0 then None
        else Some (units / of_int (max 1 (ms_days (last' - first)))))"

lemma applyAbcRateFloor_ge: "rate \<le> applyAbcRateFloor rate abc hs se dem"
  by (simp add: applyAbcRateFloor_def Let_def)

lemma abcFloorFor_nonneg: "0 \<le> abcFloorFor abc hs se"
  by (auto simp: abcFloorFor_def ABC_RATE_FLOORS_def split: option.split abc.split)

lemma abcFloorFor_le: "abcFloorFor abc hs se \<le> 0.4"
  by (auto simp: abcFloorFor_def ABC_RATE_FLOORS_def split: option.split abc.split)

lemma applyAbcRateFloor_le:
  "applyAbcRateFloor rate abc hs se dem \<le> max rate (abcFloorFor abc hs se)"
  "applyAbcRateFloor rate abc hs se (Some d) \<le> max rate d"
  by (auto simp: applyAbcRateFloor_def Let_def)

lemma applyAbcRateFloor_quiet:
  "0 \<le> rate \<Longrightarrow> \<not> hs \<or> \<not> se \<Longrightarrow> applyAbcRateFloor rate abc hs se dem = rate"
  by (auto simp: applyAbcRateFloor_def abcFloorFor_def)

lemma demonstratedDailyRate_nonneg: "demonstratedDailyRate h = Some r \<Longrightarrow> 0 < r"
  by (auto simp: demonstratedDailyRate_def Let_def split: if_splits)

end
