(* ===== verification/Policy.thy ===== *)
theory Policy
  imports Baseline
begin

text \<open>
  The small decision modules of the engine: \<^verbatim>\<open>config.ts\<close> (tenant knobs and ordering
  policies), \<^verbatim>\<open>lead-time.ts\<close>, \<^verbatim>\<open>confidence-word.ts\<close>, \<^verbatim>\<open>seasonality.ts\<close>,
  \<^verbatim>\<open>order-quantity.ts\<close>, \<^verbatim>\<open>overstock.ts\<close>, \<^verbatim>\<open>plannable.ts\<close> and \<^verbatim>\<open>dead-stock.ts\<close> of
  \<^verbatim>\<open>packages/forecast/src\<close>. Where a module sanitises a stored number it takes a
  \<open>jsnum option\<close> (\<open>None\<close> is null or undefined), so that \<open>NaN\<close> and the infinities are
  cases of the model.
\<close>

section \<open>Tenant configuration\<close>

datatype demand_method = RunRate | RecentHeavy
definition CHAMPION_DEFAULT :: demand_method where "CHAMPION_DEFAULT = RunRate"
definition DEFAULT_CAP_MULTIPLE :: real where "DEFAULT_CAP_MULTIPLE = 3"
definition NEW_PRODUCT_DAYS :: int where "NEW_PRODUCT_DAYS = 60"

datatype order_method = StayInStock | Balanced | LeanCash
datatype rule = Calibrated | MinMax

record order_policy =
  op_serviceLevel :: "real option"
  op_rule :: rule

definition METHOD_DEFAULTS :: "abc \<Rightarrow> order_method" where
  "METHOD_DEFAULTS c = (case c of ClassA \<Rightarrow> StayInStock | ClassB \<Rightarrow> Balanced | ClassC \<Rightarrow> LeanCash)"

fun methodToPolicy :: "order_method \<Rightarrow> order_policy" where
  "methodToPolicy StayInStock = \<lparr>op_serviceLevel = Some 0.95, op_rule = Calibrated\<rparr>"
| "methodToPolicy Balanced = \<lparr>op_serviceLevel = Some 0.90, op_rule = Calibrated\<rparr>"
| "methodToPolicy LeanCash = \<lparr>op_serviceLevel = None, op_rule = MinMax\<rparr>"

definition parseOrderMethod :: "string option \<Rightarrow> order_method option" where
  "parseOrderMethod v =
    (case v of None \<Rightarrow> None
     | Some s \<Rightarrow> if s = ''stay_in_stock'' then Some StayInStock
               else if s = ''balanced'' then Some Balanced
               else if s = ''lean_cash'' then Some LeanCash else None)"

record forecast_overrides =
  fo_serviceLevelZ :: "abc \<Rightarrow> jsnum option"
  fo_orderCapMultiple :: "jsnum option"
  fo_method :: "abc \<Rightarrow> string option"

record forecast_knobs =
  fk_serviceZ :: "abc \<Rightarrow> real"
  fk_capMultiple :: real
  fk_methods :: "abc \<Rightarrow> order_method"

definition Z_MIN :: real where "Z_MIN = 0.5"
definition Z_MAX :: real where "Z_MAX = 4"
definition CAP_MIN :: real where "CAP_MIN = 1"
definition CAP_MAX :: real where "CAP_MAX = 20"

definition bounded :: "jsnum option \<Rightarrow> real \<Rightarrow> real \<Rightarrow> real \<Rightarrow> real" where
  "bounded value lo hi fallback =
    (case value of Some (Num v) \<Rightarrow> min hi (max lo v) | _ \<Rightarrow> fallback)"

definition no_overrides :: forecast_overrides where
  "no_overrides = \<lparr>fo_serviceLevelZ = (\<lambda>_. None), fo_orderCapMultiple = None, fo_method = (\<lambda>_. None)\<rparr>"

definition resolveForecastKnobs :: "forecast_overrides option \<Rightarrow> forecast_knobs" where
  "resolveForecastKnobs cfg0 =
    (let cfg = nvl cfg0 no_overrides
     in \<lparr>fk_serviceZ = (\<lambda>c. bounded (fo_serviceLevelZ cfg c) Z_MIN Z_MAX (SERVICE_Z_DEFAULTS c)),
         fk_capMultiple = bounded (fo_orderCapMultiple cfg) CAP_MIN CAP_MAX DEFAULT_CAP_MULTIPLE,
         fk_methods = (\<lambda>c. nvl (parseOrderMethod (fo_method cfg c)) (METHOD_DEFAULTS c))\<rparr>)"

definition class_or_C :: "string option \<Rightarrow> abc" where
  "class_or_C abc = (if abc = Some ''A'' then ClassA else if abc = Some ''B'' then ClassB else ClassC)"

definition policyForClass :: "(abc \<Rightarrow> order_method) \<Rightarrow> string option \<Rightarrow> order_policy" where
  "policyForClass methods abc = methodToPolicy (methods (class_or_C abc))"

text \<open>The stored JSON is the string found under each key, when it is an object with one.\<close>

definition resolveChampions :: "(abc \<Rightarrow> string option) \<Rightarrow> abc \<Rightarrow> demand_method" where
  "resolveChampions raw cls =
    (if raw cls = Some ''run_rate'' then RunRate
     else if raw cls = Some ''recent_heavy'' then RecentHeavy else CHAMPION_DEFAULT)"

definition championForClass :: "(abc \<Rightarrow> demand_method) \<Rightarrow> string option \<Rightarrow> demand_method" where
  "championForClass champions abc = champions (class_or_C abc)"

lemma bounded_range: "lo \<le> hi \<Longrightarrow> lo \<le> fb \<Longrightarrow> fb \<le> hi \<Longrightarrow> lo \<le> bounded v lo hi fb \<and> bounded v lo hi fb \<le> hi"
  by (auto simp: bounded_def split: option.splits jsnum.splits)

lemma knobs_bounds:
  "Z_MIN \<le> fk_serviceZ (resolveForecastKnobs cfg) c \<and> fk_serviceZ (resolveForecastKnobs cfg) c \<le> Z_MAX"
  "CAP_MIN \<le> fk_capMultiple (resolveForecastKnobs cfg) \<and> fk_capMultiple (resolveForecastKnobs cfg) \<le> CAP_MAX"
proof -
  have "Z_MIN \<le> SERVICE_Z_DEFAULTS c \<and> SERVICE_Z_DEFAULTS c \<le> Z_MAX"
    by (cases c) (simp_all add: Z_MIN_def Z_MAX_def SERVICE_Z_DEFAULTS_def)
  moreover have "Z_MIN \<le> Z_MAX" by (simp add: Z_MIN_def Z_MAX_def)
  ultimately show "Z_MIN \<le> fk_serviceZ (resolveForecastKnobs cfg) c \<and> fk_serviceZ (resolveForecastKnobs cfg) c \<le> Z_MAX"
    unfolding resolveForecastKnobs_def Let_def by (simp add: bounded_range)
  have "CAP_MIN \<le> DEFAULT_CAP_MULTIPLE" "DEFAULT_CAP_MULTIPLE \<le> CAP_MAX"
    by (simp_all add: CAP_MIN_def CAP_MAX_def DEFAULT_CAP_MULTIPLE_def)
  then show "CAP_MIN \<le> fk_capMultiple (resolveForecastKnobs cfg) \<and> fk_capMultiple (resolveForecastKnobs cfg) \<le> CAP_MAX"
    unfolding resolveForecastKnobs_def Let_def by (simp add: bounded_range)
qed

section \<open>Lead times\<close>

definition FALLBACK_LEAD_STD_DAYS :: real where "FALLBACK_LEAD_STD_DAYS = 7"
definition ORDER_REVIEW_DAYS :: real where "ORDER_REVIEW_DAYS = 7"
definition ASSUMED_LEAD_DAYS :: real where "ASSUMED_LEAD_DAYS = 30"

record supplier_lead =
  sl_leadTimeAvgDays :: "real option"
  sl_leadTimeStdDays :: "real option"

text \<open>The first argument is the product's own \<open>leadTimeDays\<close>.\<close>

definition leadDaysFor :: "real option \<Rightarrow> supplier_lead option \<Rightarrow> real option" where
  "leadDaysFor leadTimeDays supplier =
    (case leadTimeDays of Some d \<Rightarrow> Some d
     | None \<Rightarrow> case supplier of None \<Rightarrow> None | Some s \<Rightarrow> sl_leadTimeAvgDays s)"

definition leadStdFor :: "supplier_lead option \<Rightarrow> real" where
  "leadStdFor supplier =
    (case supplier of None \<Rightarrow> FALLBACK_LEAD_STD_DAYS
     | Some s \<Rightarrow> nvl (sl_leadTimeStdDays s) FALLBACK_LEAD_STD_DAYS)"

definition coverDaysFor :: "real option \<Rightarrow> supplier_lead option \<Rightarrow> real" where
  "coverDaysFor leadTimeDays supplier = nvl (leadDaysFor leadTimeDays supplier) 0 + ORDER_REVIEW_DAYS"

section \<open>The confidence word\<close>

datatype confidence_word = Guessing | FairlySure | Sure

record confidence_signals =
  cs_historyDays :: real
  cs_cv :: real
  cs_stockoutGapShare :: real
  cs_promoContaminated :: bool
  cs_coldStart :: bool

definition SURE_MIN_HISTORY_DAYS :: real where "SURE_MIN_HISTORY_DAYS = 90"
definition SURE_MAX_CV :: real where "SURE_MAX_CV = 0.5"
definition SURE_MAX_STOCKOUT_SHARE :: real where "SURE_MAX_STOCKOUT_SHARE = 0.1"
definition GUESS_MAX_HISTORY_DAYS :: real where "GUESS_MAX_HISTORY_DAYS = 21"
definition GUESS_MIN_CV :: real where "GUESS_MIN_CV = 1"
definition GUESS_MIN_STOCKOUT_SHARE :: real where "GUESS_MIN_STOCKOUT_SHARE = 0.4"

fun RANK :: "confidence_word \<Rightarrow> nat" where
  "RANK Guessing = 0" | "RANK FairlySure = 1" | "RANK Sure = 2"

definition leastConfident :: "confidence_word \<Rightarrow> confidence_word \<Rightarrow> confidence_word" where
  "leastConfident a b = (if RANK a \<le> RANK b then a else b)"

definition confidenceWord :: "confidence_signals \<Rightarrow> confidence_word" where
  "confidenceWord s =
    (if cs_coldStart s \<or> cs_historyDays s < GUESS_MAX_HISTORY_DAYS then Guessing
     else if GUESS_MIN_CV \<le> cs_cv s \<or> GUESS_MIN_STOCKOUT_SHARE \<le> cs_stockoutGapShare s then Guessing
     else if SURE_MIN_HISTORY_DAYS \<le> cs_historyDays s \<and> cs_cv s \<le> SURE_MAX_CV \<and>
             cs_stockoutGapShare s \<le> SURE_MAX_STOCKOUT_SHARE \<and> \<not> cs_promoContaminated s
     then Sure else FairlySure)"

lemmas confidence_consts =
  SURE_MIN_HISTORY_DAYS_def SURE_MAX_CV_def SURE_MAX_STOCKOUT_SHARE_def
  GUESS_MAX_HISTORY_DAYS_def GUESS_MIN_CV_def GUESS_MIN_STOCKOUT_SHARE_def

text \<open>One set of signals is at least as good as another.\<close>

definition signals_le :: "confidence_signals \<Rightarrow> confidence_signals \<Rightarrow> bool" where
  "signals_le s t \<longleftrightarrow> cs_historyDays s \<le> cs_historyDays t \<and> cs_cv t \<le> cs_cv s \<and>
     cs_stockoutGapShare t \<le> cs_stockoutGapShare s \<and>
     (cs_promoContaminated t \<longrightarrow> cs_promoContaminated s) \<and> (cs_coldStart t \<longrightarrow> cs_coldStart s)"

lemma confidenceWord_mono: "signals_le s t \<Longrightarrow> RANK (confidenceWord s) \<le> RANK (confidenceWord t)"
  by (auto simp: signals_le_def confidenceWord_def confidence_consts)

lemma confidenceWord_Sure:
  "confidenceWord s = Sure \<longleftrightarrow> \<not> cs_coldStart s \<and> 90 \<le> cs_historyDays s \<and> cs_cv s \<le> 0.5 \<and>
     cs_stockoutGapShare s \<le> 0.1 \<and> \<not> cs_promoContaminated s"
  by (auto simp: confidenceWord_def confidence_consts)

section \<open>Stated seasonality\<close>

definition SEASONAL_HORIZON_DAYS :: int where "SEASONAL_HORIZON_DAYS = 30"
definition SEASONAL_MIN :: real where "SEASONAL_MIN = 0.25"
definition SEASONAL_MAX :: real where "SEASONAL_MAX = 4"

definition boundedMultiplier :: "jsnum option \<Rightarrow> real option" where
  "boundedMultiplier value =
    (case value of Some (Num v) \<Rightarrow> if v \<le> 0 then None else Some (min SEASONAL_MAX (max SEASONAL_MIN v))
     | _ \<Rightarrow> None)"

record monthly_expectation =
  me_month :: "int \<times> int"
  me_multiplier :: jsnum

definition stated_months :: "monthly_expectation list \<Rightarrow> ((int \<times> int) \<times> real) list" where
  "stated_months expectations =
     fold (\<lambda>e m. case boundedMultiplier (Some (me_multiplier e)) of
             Some b \<Rightarrow> AList.update (me_month e) b m | None \<Rightarrow> m) expectations []"

definition blendedSeasonalMultiplier :: "monthly_expectation list \<Rightarrow> date \<Rightarrow> int \<Rightarrow> real" where
  "blendedSeasonalMultiplier expectations today horizonDays =
    (let days = max 0 horizonDays
     in if days = 0 \<or> expectations = [] then 1
        else let stated = stated_months expectations
             in if stated = [] then 1
                else let tot = sum_list (map (\<lambda>i. nvl (map_of stated (monthKeyOf (today + int i * DAY_MS))) 1)
                                  [0..<nat days])
                     in min SEASONAL_MAX (max SEASONAL_MIN (tot / of_int days)))"

datatype season_label = Busier int | Quieter int

definition seasonalLabel :: "real \<Rightarrow> season_label option" where
  "seasonalLabel multiplier =
    (if \<bar>multiplier - 1\<bar> < 0.005 then None
     else let pct = js_round ((multiplier - 1) * 100)
          in Some (if 0 < pct then Busier pct else Quieter pct))"

lemma boundedMultiplier_range: "boundedMultiplier v = Some b \<Longrightarrow> 0.25 \<le> b \<and> b \<le> 4"
  by (auto simp: boundedMultiplier_def SEASONAL_MIN_def SEASONAL_MAX_def
      split: option.splits jsnum.splits if_splits)

lemma blendedSeasonalMultiplier_range:
  "SEASONAL_MIN \<le> blendedSeasonalMultiplier es t h \<and> blendedSeasonalMultiplier es t h \<le> SEASONAL_MAX"
proof -
  have "SEASONAL_MIN \<le> 1" "1 \<le> SEASONAL_MAX" by (simp_all add: SEASONAL_MIN_def SEASONAL_MAX_def)
  then show ?thesis by (simp add: blendedSeasonalMultiplier_def Let_def)
qed

lemma stated_months_range:
  "map_of (stated_months es) k = Some b \<Longrightarrow> 0.25 \<le> b \<and> b \<le> 4"
proof (induction es arbitrary: k b rule: rev_induct)
  case (snoc e es)
  show ?case
  proof (cases "boundedMultiplier (Some (me_multiplier e))")
    case None with snoc show ?thesis by (simp add: stated_months_def)
  next
    case (Some c)
    with snoc boundedMultiplier_range [OF Some] show ?thesis
      by (auto simp: stated_months_def update_conv' split: if_splits)
  qed
qed (simp add: stated_months_def)

text \<open>The clamp of the blend never bites: an average of bounded values is already bounded.\<close>

lemma blend_unclamped:
  assumes "0 < h" and "stated_months es \<noteq> []"
  shows "blendedSeasonalMultiplier es t h =
    sum_list (map (\<lambda>i. nvl (map_of (stated_months es) (monthKeyOf (t + int i * DAY_MS))) 1) [0..<nat h]) / of_int h"
proof -
  let ?f = "\<lambda>i. nvl (map_of (stated_months es) (monthKeyOf (t + int i * DAY_MS))) 1"
  let ?n = "nat h"
  have b: "0.25 \<le> ?f i \<and> ?f i \<le> 4" for i
    by (cases "map_of (stated_months es) (monthKeyOf (t + int i * DAY_MS))")
      (auto dest: stated_months_range)
  have "sum_list (map (\<lambda>_. 0.25) [0..<?n]) \<le> sum_list (map ?f [0..<?n])"
    "sum_list (map ?f [0..<?n]) \<le> sum_list (map (\<lambda>_. 4) [0..<?n])"
    using b by (auto intro!: sum_list_mono_real)
  then have "0.25 * real_of_int h \<le> sum_list (map ?f [0..<?n])" "sum_list (map ?f [0..<?n]) \<le> 4 * real_of_int h"
    using assms(1) by (simp_all add: sum_list_triv mult.commute)
  then have r: "0.25 \<le> sum_list (map ?f [0..<?n]) / real_of_int h \<and> sum_list (map ?f [0..<?n]) / real_of_int h \<le> 4"
    using assms(1) by (simp add: pos_le_divide_eq pos_divide_le_eq)
  have "es \<noteq> []" using assms(2) by (auto simp: stated_months_def)
  moreover have "min SEASONAL_MAX (max SEASONAL_MIN (sum_list (map ?f [0..<?n]) / real_of_int h)) =
    sum_list (map ?f [0..<?n]) / real_of_int h"
    using r unfolding SEASONAL_MIN_def SEASONAL_MAX_def by linarith
  ultimately show ?thesis using assms by (simp add: blendedSeasonalMultiplier_def Let_def)
qed

section \<open>Order quantity, overstock, plannability\<close>

text \<open>\<open>Math.floor(moq) || 1\<close> replaces a zero minimum by one.\<close>

definition applyMoq :: "real \<Rightarrow> real \<Rightarrow> int" where
  "applyMoq qty moq =
    (let wanted = max 1 \<lceil>qty\<rceil>
     in max wanted (max 1 (if \<lfloor>moq\<rfloor> = 0 then 1 else \<lfloor>moq\<rfloor>)))"

record overstock_result =
  os_isOverstock :: bool
  os_coverDays :: "real option"
  os_excessUnits :: real
  os_excessValueKes :: real

definition overstockExcess :: "real \<Rightarrow> real \<Rightarrow> real \<Rightarrow> real \<Rightarrow> overstock_result" where
  "overstockExcess currentStock dailyRate costKes thresholdDays =
    (if dailyRate \<le> 0
     then \<lparr>os_isOverstock = False, os_coverDays = None, os_excessUnits = 0, os_excessValueKes = 0\<rparr>
     else let coverDays = currentStock / dailyRate
          in if coverDays \<le> thresholdDays
             then \<lparr>os_isOverstock = False, os_coverDays = Some coverDays, os_excessUnits = 0, os_excessValueKes = 0\<rparr>
             else let excessUnits = currentStock - thresholdDays * dailyRate
                  in \<lparr>os_isOverstock = True, os_coverDays = Some coverDays, os_excessUnits = excessUnits,
                      os_excessValueKes = excessUnits * costKes\<rparr>)"

datatype plannable_reason = PlanOk | MissingCost | MissingPrice | CostExceedsPrice

definition plannableReason :: "real \<Rightarrow> real \<Rightarrow> plannable_reason" where
  "plannableReason costKes priceKes =
    (if \<not> 0 < costKes then MissingCost
     else if \<not> 0 < priceKes then MissingPrice
     else if priceKes < costKes then CostExceedsPrice
     else PlanOk)"

definition isPlannable :: "real \<Rightarrow> real \<Rightarrow> bool" where
  "isPlannable costKes priceKes = (plannableReason costKes priceKes = PlanOk)"

lemma applyMoq_max: "applyMoq q m = max (max 1 \<lceil>q\<rceil>) \<lfloor>m\<rfloor>"
proof -
  have "max (max 1 w) (max 1 (if k = 0 then 1 else k)) = max (max 1 w) k" for w k :: int by auto
  then show ?thesis by (simp only: applyMoq_def Let_def)
qed

lemma applyMoq_ge: "1 \<le> applyMoq q m" "q \<le> of_int (applyMoq q m)" "0 < m \<Longrightarrow> \<lfloor>m\<rfloor> \<le> applyMoq q m"
proof -
  show "1 \<le> applyMoq q m" by (simp add: applyMoq_def Let_def)
  have "\<lceil>q\<rceil> \<le> applyMoq q m" by (simp add: applyMoq_def Let_def)
  then show "q \<le> of_int (applyMoq q m)" by (simp add: ceiling_le_iff)
  show "0 < m \<Longrightarrow> \<lfloor>m\<rfloor> \<le> applyMoq q m" by (auto simp: applyMoq_def Let_def)
qed

lemma overstock_pos: "os_isOverstock (overstockExcess s r c t) \<Longrightarrow> 0 < os_excessUnits (overstockExcess s r c t)"
  by (auto simp: overstockExcess_def Let_def field_simps split: if_splits)

lemma isPlannable_iff: "isPlannable c p \<longleftrightarrow> 0 < c \<and> c \<le> p"
  by (auto simp: isPlannable_def plannableReason_def)

section \<open>Dead stock\<close>

record dead_stock_input =
  ds_currentStock :: real
  ds_lastSaleAt :: "date option"
  ds_firstSeenAt :: "date option"
  ds_shelfDays :: "int option"
  ds_cutoff :: date
  ds_asOf :: date

definition isDeadStock :: "dead_stock_input \<Rightarrow> bool" where
  "isDeadStock i =
    (if ds_currentStock i \<le> 0 \<or> (case ds_lastSaleAt i of None \<Rightarrow> False | Some l \<Rightarrow> ds_cutoff i \<le> l)
     then False
     else let windowDays = ms_days (ds_asOf i - ds_cutoff i)
          in if (case ds_shelfDays i of None \<Rightarrow> False | Some s \<Rightarrow> s < windowDays) then False
             else if ds_lastSaleAt i \<noteq> None then True
             else (case ds_firstSeenAt i of None \<Rightarrow> False
                   | Some f \<Rightarrow> NEW_PRODUCT_DAYS * DAY_MS \<le> ds_asOf i - f))"

definition shelfDaysSince :: "date option \<Rightarrow> int \<Rightarrow> date \<Rightarrow> int" where
  "shelfDaysSince lastEmptyDay windowDays asOf =
    (case lastEmptyDay of None \<Rightarrow> windowDays
     | Some l \<Rightarrow> min windowDays (max 0 (ms_days (dayKeyOf asOf - dayKeyOf l))))"

text \<open>A product seen empty inside the window is not dead, whatever it did not sell.\<close>

lemma empty_in_window_not_dead:
  assumes "ds_shelfDays i = Some (shelfDaysSince (Some l) (ms_days (ds_asOf i - ds_cutoff i)) (ds_asOf i))"
    and "ms_days (dayKeyOf (ds_asOf i) - dayKeyOf l) < ms_days (ds_asOf i - ds_cutoff i)"
    and "0 < ms_days (ds_asOf i - ds_cutoff i)"
  shows "\<not> isDeadStock i"
  using assms by (auto simp: isDeadStock_def shelfDaysSince_def Let_def)

end
