(* ===== verification/Quantile.thy ===== *)
theory Quantile
  imports Prelude
begin

text \<open>
  \<^verbatim>\<open>packages/forecast/src/calibrated-quantile.ts\<close>: the quantile of a moment-matched count
  distribution. Both branches are one loop, \<open>quantile_loop\<close>, over the ratio of consecutive
  probabilities; the lemmas relate its result to the distribution's closed form.
\<close>

definition QEPS :: real where "QEPS = 1 / 10 ^ 9"

text \<open>\<open>for (k = 1; k <= cap; k++)\<close>, returning \<open>cap\<close> when the loop runs out.\<close>

function quantile_loop :: "(nat \<Rightarrow> real) \<Rightarrow> real \<Rightarrow> nat \<Rightarrow> nat \<Rightarrow> real \<Rightarrow> real \<Rightarrow> nat" where
  "quantile_loop ratio tau cap k pmf cum =
    (if k \<le> cap
     then let pmf' = pmf * ratio k; cum' = cum + pmf'
          in if tau \<le> cum' then k else quantile_loop ratio tau cap (k + 1) pmf' cum'
     else cap)"
  by pat_completeness auto
termination
  by (relation "measure (\<lambda>(ratio, tau, cap, k, pmf, cum). cap + 1 - k)") auto

declare quantile_loop.simps [simp del]

definition quantile_from :: "(nat \<Rightarrow> real) \<Rightarrow> real \<Rightarrow> real \<Rightarrow> nat \<Rightarrow> nat" where
  "quantile_from ratio pmf tau cap =
     (if tau \<le> pmf then 0 else quantile_loop ratio tau cap 1 pmf pmf)"

definition count_cap :: "real \<Rightarrow> real \<Rightarrow> nat" where
  "count_cap mean v = nat \<lceil>mean + 50 * sqrt v + 100\<rceil>"

definition poisson_ratio :: "real \<Rightarrow> nat \<Rightarrow> real" where
  "poisson_ratio mean k = mean / real k"

definition negbin_size :: "real \<Rightarrow> real \<Rightarrow> real" where
  "negbin_size mean v = mean * mean / (v - mean)"

definition negbin_prob :: "real \<Rightarrow> real \<Rightarrow> real" where
  "negbin_prob mean v = negbin_size mean v / (negbin_size mean v + mean)"

definition negbin_ratio :: "real \<Rightarrow> real \<Rightarrow> nat \<Rightarrow> real" where
  "negbin_ratio mean v k = (real k - 1 + negbin_size mean v) / real k * (1 - negbin_prob mean v)"

definition countQuantile :: "real \<Rightarrow> real \<Rightarrow> real \<Rightarrow> nat" where
  "countQuantile mean variance tau0 =
    (if mean \<le> QEPS \<or> tau0 \<le> 0 then 0
     else let tau = (if 1 \<le> tau0 then 0.999999 else tau0);
              v = max variance mean;
              cap = count_cap mean v
          in if v \<le> mean * (1 + 1 / 10 ^ 6)
             then quantile_from (poisson_ratio mean) (exp (- mean)) tau cap
             else quantile_from (negbin_ratio mean v)
                    (negbin_prob mean v powr negbin_size mean v) tau cap)"

definition calibratedCover ::
  "real \<Rightarrow> real \<Rightarrow> real \<Rightarrow> real \<Rightarrow> real option \<Rightarrow> real option \<Rightarrow> nat" where
  "calibratedCover dailyMean0 dailyVar0 horizonDays tau dispersionFloor biasFactor =
    (let bias = nvl biasFactor 1;
         h = max 1 horizonDays;
         dailyMean = max 0 (dailyMean0 * bias)
     in if dailyMean \<le> QEPS then 0
        else let idFloor = nvl dispersionFloor 1.5;
                 dailyVar = max dailyVar0 (dailyMean * idFloor)
             in countQuantile (dailyMean * h) (dailyVar * h) tau)"

section \<open>The loop against the distribution\<close>

text \<open>The probabilities a ratio defines, and their partial sums.\<close>

definition pmf_of :: "(nat \<Rightarrow> real) \<Rightarrow> real \<Rightarrow> nat \<Rightarrow> real" where
  "pmf_of ratio p0 k = p0 * (\<Prod>i = 1..k. ratio i)"

definition cdf_of :: "(nat \<Rightarrow> real) \<Rightarrow> real \<Rightarrow> nat \<Rightarrow> real" where
  "cdf_of ratio p0 k = (\<Sum>j \<le> k. pmf_of ratio p0 j)"

lemma pmf_of_Suc: "pmf_of ratio p0 (Suc k) = pmf_of ratio p0 k * ratio (Suc k)"
  by (simp add: pmf_of_def)

lemma cdf_of_Suc: "cdf_of ratio p0 (Suc k) = cdf_of ratio p0 k + pmf_of ratio p0 (Suc k)"
  by (simp add: cdf_of_def)

lemma cdf_of_0: "cdf_of ratio p0 0 = p0"
  by (simp add: cdf_of_def pmf_of_def)

lemma poisson_pmf: "pmf_of (poisson_ratio m) (exp (- m)) k = exp (- m) * m ^ k / fact k"
proof (induction k)
  case 0 then show ?case by (simp add: pmf_of_def)
next
  case (Suc k)
  then show ?case by (simp add: pmf_of_Suc poisson_ratio_def divide_simps)
qed

text \<open>What a quantile search promises about its result.\<close>

definition is_quantile :: "(nat \<Rightarrow> real) \<Rightarrow> real \<Rightarrow> nat \<Rightarrow> nat \<Rightarrow> bool" where
  "is_quantile cdf tau cap q \<longleftrightarrow>
     q \<le> cap \<and> (\<forall>j < q. cdf j < tau) \<and> (tau \<le> cdf q \<or> q = cap)"

lemma quantile_loop_step:
  "quantile_loop ratio tau cap (Suc k) (pmf_of ratio p0 k) (cdf_of ratio p0 k) =
    (if Suc k \<le> cap
     then if tau \<le> cdf_of ratio p0 (Suc k) then Suc k
          else quantile_loop ratio tau cap (Suc (Suc k)) (pmf_of ratio p0 (Suc k)) (cdf_of ratio p0 (Suc k))
     else cap)"
  by (subst quantile_loop.simps) (simp add: Let_def pmf_of_Suc cdf_of_Suc)

lemma quantile_loop_spec:
  assumes "k \<le> cap" and "\<forall>j < Suc k. cdf_of ratio p0 j < tau"
  shows "is_quantile (cdf_of ratio p0) tau cap
    (quantile_loop ratio tau cap (Suc k) (pmf_of ratio p0 k) (cdf_of ratio p0 k))"
  using assms
proof (induction "cap - k" arbitrary: k)
  case 0
  then have "cap = k" by simp
  with 0 show ?case by (simp add: quantile_loop_step is_quantile_def)
next
  case (Suc n)
  let ?c = "cdf_of ratio p0"
  from Suc.hyps(2) have cap: "Suc k \<le> cap" by simp
  show ?case
  proof (cases "tau \<le> ?c (Suc k)")
    case True
    with Suc.prems cap show ?thesis
      by (subst quantile_loop_step) (simp add: is_quantile_def)
  next
    case False
    with Suc.prems have "\<forall>j < Suc (Suc k). ?c j < tau" by (auto simp: less_Suc_eq)
    with cap False Suc.hyps(1) [of "Suc k"] Suc.hyps(2) show ?thesis
      by (subst quantile_loop_step) simp
  qed
qed

lemma quantile_from_spec:
  shows "is_quantile (cdf_of ratio p0) tau cap (quantile_from ratio p0 tau cap)"
proof (cases "tau \<le> p0")
  case True
  then show ?thesis by (simp add: quantile_from_def is_quantile_def cdf_of_0)
next
  case False
  with quantile_loop_spec [of 0 cap ratio p0 tau] show ?thesis
    by (simp add: quantile_from_def cdf_of_0 pmf_of_def)
qed

lemma is_quantile_mono:
  "is_quantile cdf t cap q \<Longrightarrow> is_quantile cdf t' cap q' \<Longrightarrow> t \<le> t' \<Longrightarrow> q \<le> q'"
  unfolding is_quantile_def by (metis leI le_antisym less_le_not_le order_trans not_le)

lemma count_cap_ge: "0 \<le> mean \<Longrightarrow> 0 \<le> v \<Longrightarrow> 100 \<le> count_cap mean v"
proof -
  assume "0 \<le> mean" "0 \<le> v"
  then have "100 \<le> mean + 50 * sqrt v + 100" by simp
  then have "(100::int) \<le> \<lceil>mean + 50 * sqrt v + 100\<rceil>" by linarith
  then show ?thesis by (simp only: count_cap_def)
qed

section \<open>The quantile of the count distribution\<close>

definition count_cdf :: "real \<Rightarrow> real \<Rightarrow> nat \<Rightarrow> real" where
  "count_cdf mean variance =
    (let v = max variance mean
     in if v \<le> mean * (1 + 1 / 10 ^ 6)
        then cdf_of (poisson_ratio mean) (exp (- mean))
        else cdf_of (negbin_ratio mean v) (negbin_prob mean v powr negbin_size mean v))"

definition target_tau :: "real \<Rightarrow> real" where
  "target_tau tau = (if 1 \<le> tau then 0.999999 else tau)"

lemma countQuantile_spec:
  assumes "QEPS < mean" and "0 < tau"
  shows "is_quantile (count_cdf mean variance) (target_tau tau)
    (count_cap mean (max variance mean)) (countQuantile mean variance tau)"
proof -
  note q = quantile_from_spec
  show ?thesis using assms q by (simp add: countQuantile_def count_cdf_def target_tau_def Let_def)
qed

lemma countQuantile_small: "mean \<le> QEPS \<or> tau \<le> 0 \<Longrightarrow> countQuantile mean variance tau = 0"
  by (auto simp: countQuantile_def)

lemma target_tau_mono: "t \<le> t' \<Longrightarrow> t' < 1 \<or> 1 \<le> t \<or> t \<le> 0.999999 \<Longrightarrow> target_tau t \<le> target_tau t'"
  by (auto simp: target_tau_def)

end
