(* ===== verification/Reorder.thy ===== *)
theory Reorder
  imports Policy Quantile
begin

text \<open>
  \<^verbatim>\<open>packages/forecast/src/reorder.ts\<close> and \<^verbatim>\<open>explain.ts\<close>: order sizing by one of three
  rules, and the breakdown shown for it. The prose of a breakdown is a datatype with one
  constructor per template, holding the numbers the template interpolates.
\<close>

record reorder_input =
  ri_finalForecast30d :: real
  ri_safetyStock :: real
  ri_currentStock :: real
  ri_onOrder :: real
  ri_coverDays :: "real option"
  ri_abcCategory :: "string option"
  ri_dailyDemandStd :: "real option"
  ri_leadTimeAvg :: "real option"
  ri_serviceLevel :: "real option"
  ri_policy :: "order_policy option"

definition tauForClass :: "string option \<Rightarrow> real" where
  "tauForClass abc = (if abc = Some ''B'' then 0.9 else 0.95)"

definition REVIEW_DAYS :: real where "REVIEW_DAYS = ORDER_REVIEW_DAYS"
definition MIN_PAR_DAYS :: real where "MIN_PAR_DAYS = 14"

datatype reorder_method = MeanCoverRule | CalibratedRule | MinMaxRule

record reorder_breakdown =
  rb_method :: reorder_method
  rb_targetUnits :: int
  rb_qty :: real
  rb_dailyForecast :: real
  rb_safetyStock :: real
  rb_currentStock :: real
  rb_onOrder :: real
  rb_windowDays :: real
  rb_serviceLevel :: "real option"
  rb_demandOverCover :: real

definition reorderBreakdown :: "reorder_input \<Rightarrow> reorder_breakdown" where
  "reorderBreakdown input =
    (let f = ri_finalForecast30d input;
         dailyForecast = f / 30;
         net = (\<lambda>target. max 0 (of_int target - ri_currentStock input - ri_onOrder input));
         useMinMax = (case ri_policy input of Some pol \<Rightarrow> op_rule pol = MinMax
                      | None \<Rightarrow> ri_abcCategory input = Some ''C'');
         useCalibrated = (\<not> useMinMax \<and>
           (case ri_policy input of Some pol \<Rightarrow> op_rule pol = Calibrated | None \<Rightarrow> False) \<and>
           ri_dailyDemandStd input \<noteq> None \<and> 0 < f)
     in if useCalibrated then
          let protectionDays = nvl (ri_leadTimeAvg input) 0 + REVIEW_DAYS;
              tau = (case ri_policy input of
                       Some pol \<Rightarrow> nvl (op_serviceLevel pol)
                         (nvl (ri_serviceLevel input) (tauForClass (ri_abcCategory input)))
                     | None \<Rightarrow> nvl (ri_serviceLevel input) (tauForClass (ri_abcCategory input)));
              std = nvl (ri_dailyDemandStd input) 0;
              orderUpTo = calibratedCover (f / 30) (std * std) protectionDays tau None None;
              targetUnits = int orderUpTo
          in \<lparr>rb_method = CalibratedRule, rb_targetUnits = targetUnits, rb_qty = net targetUnits,
              rb_dailyForecast = dailyForecast, rb_safetyStock = ri_safetyStock input,
              rb_currentStock = ri_currentStock input, rb_onOrder = ri_onOrder input,
              rb_windowDays = protectionDays, rb_serviceLevel = Some tau, rb_demandOverCover = 0\<rparr>
        else if useMinMax then
          let parDays = max MIN_PAR_DAYS (nvl (ri_leadTimeAvg input) 0 + REVIEW_DAYS);
              parLevel = max 1 \<lceil>dailyForecast * parDays + ri_safetyStock input\<rceil>
          in \<lparr>rb_method = MinMaxRule, rb_targetUnits = parLevel, rb_qty = net parLevel,
              rb_dailyForecast = dailyForecast, rb_safetyStock = ri_safetyStock input,
              rb_currentStock = ri_currentStock input, rb_onOrder = ri_onOrder input,
              rb_windowDays = parDays, rb_serviceLevel = None,
              rb_demandOverCover = dailyForecast * parDays\<rparr>
        else
          let coverDays = nvl (ri_coverDays input) 30;
              demandOverCover = dailyForecast * coverDays;
              targetUnits = \<lceil>demandOverCover + ri_safetyStock input\<rceil>
          in \<lparr>rb_method = MeanCoverRule, rb_targetUnits = targetUnits, rb_qty = net targetUnits,
              rb_dailyForecast = dailyForecast, rb_safetyStock = ri_safetyStock input,
              rb_currentStock = ri_currentStock input, rb_onOrder = ri_onOrder input,
              rb_windowDays = coverDays, rb_serviceLevel = None,
              rb_demandOverCover = demandOverCover\<rparr>)"

definition recommendedQty :: "reorder_input \<Rightarrow> real" where
  "recommendedQty input = rb_qty (reorderBreakdown input)"

datatype regime = RegimeMinMax | RegimeForecast

definition reorderMethod :: "string option \<Rightarrow> rule option \<Rightarrow> regime" where
  "reorderMethod abcCategory policyRule =
    (case policyRule of Some r \<Rightarrow> if r = MinMax then RegimeMinMax else RegimeForecast
     | None \<Rightarrow> if abcCategory = Some ''C'' then RegimeMinMax else RegimeForecast)"

section \<open>The explanation\<close>

datatype qualifier_text =
    CoversService real int      \<comment> \<open>covers {windowDays}d of demand at {pct}% service\<close>
  | TwoWeekPar real             \<comment> \<open>2-week par + {buffer} buffer\<close>
  | RateTimesDays real real real \<comment> \<open>{rate}/day x {windowDays}d + {buffer} buffer\<close>

datatype summary_text =
    HeldOff real                \<comment> \<open>held off the buy list = {qty}\<close>
  | AlreadyCovered int real real \<comment> \<open>already covered: {target} target, {stock} on hand + {onOrder} incoming\<close>
  | StockUpTo int qualifier_text real real real \<comment> \<open>stock up to {target} ({qualifier}) - ... = {qty}\<close>

record qty_explanation =
  qe_method :: reorder_method
  qe_dailyForecast :: real
  qe_windowDays :: real
  qe_coverDays :: real
  qe_demandOverCover :: real
  qe_safetyStock :: real
  qe_currentStock :: real
  qe_onOrder :: real
  qe_targetUnits :: int
  qe_recommendedQty :: real
  qe_summary :: summary_text

definition qualifier :: "reorder_breakdown \<Rightarrow> qualifier_text" where
  "qualifier b =
    (case rb_method b of
       CalibratedRule \<Rightarrow> CoversService (rb_windowDays b) (js_round (nvl (rb_serviceLevel b) 0 * 100))
     | MinMaxRule \<Rightarrow> TwoWeekPar (round1 (rb_safetyStock b))
     | MeanCoverRule \<Rightarrow> RateTimesDays (round1 (rb_dailyForecast b)) (rb_windowDays b) (round1 (rb_safetyStock b)))"

definition explainQty :: "reorder_input \<Rightarrow> real option \<Rightarrow> qty_explanation" where
  "explainQty input finalQty =
    (let b = reorderBreakdown input;
         qty = nvl finalQty (rb_qty b);
         summary =
           (if finalQty \<noteq> None \<and> finalQty \<noteq> Some (rb_qty b) then HeldOff qty
            else if qty = 0
            then AlreadyCovered (rb_targetUnits b) (round1 (rb_currentStock b)) (round1 (rb_onOrder b))
            else StockUpTo (rb_targetUnits b) (qualifier b) (round1 (rb_currentStock b))
                   (round1 (rb_onOrder b)) qty)
     in \<lparr>qe_method = rb_method b, qe_dailyForecast = rb_dailyForecast b,
         qe_windowDays = rb_windowDays b, qe_coverDays = rb_windowDays b,
         qe_demandOverCover = rb_demandOverCover b, qe_safetyStock = rb_safetyStock b,
         qe_currentStock = rb_currentStock b, qe_onOrder = rb_onOrder b,
         qe_targetUnits = rb_targetUnits b, qe_recommendedQty = qty, qe_summary = summary\<rparr>)"

section \<open>Every rule reconciles\<close>

lemmas reorder_defs = reorderBreakdown_def Let_def REVIEW_DAYS_def ORDER_REVIEW_DAYS_def MIN_PAR_DAYS_def

lemma breakdown_qty:
  "rb_qty (reorderBreakdown i) =
     max 0 (of_int (rb_targetUnits (reorderBreakdown i)) - ri_currentStock i - ri_onOrder i)"
  by (simp add: reorderBreakdown_def Let_def)

lemma breakdown_frame:
  "rb_currentStock (reorderBreakdown i) = ri_currentStock i"
  "rb_onOrder (reorderBreakdown i) = ri_onOrder i"
  "rb_safetyStock (reorderBreakdown i) = ri_safetyStock i"
  "rb_dailyForecast (reorderBreakdown i) = ri_finalForecast30d i / 30"
  by (simp_all add: reorderBreakdown_def Let_def)

text \<open>The shelf level the rule wants depends on demand only, not on what is on the shelf.\<close>

lemma breakdown_target_stock:
  "rb_targetUnits (reorderBreakdown (i\<lparr>ri_currentStock := s, ri_onOrder := o'\<rparr>)) =
   rb_targetUnits (reorderBreakdown i)"
  by (auto simp: reorderBreakdown_def Let_def split: option.splits)

text \<open>Which rule sizes an order, and the level each of them wants on the shelf.\<close>

lemma calibratedCover_quantile:
  assumes "QEPS < m" and "0 < tau"
  shows "is_quantile (count_cdf (m * max 1 h) (max v (m * 1.5) * max 1 h)) (target_tau tau)
    (count_cap (m * max 1 h) (max (max v (m * 1.5) * max 1 h) (m * max 1 h)))
    (calibratedCover m v h tau None None)"
proof -
  have "0 < m" using assms(1) by (simp add: QEPS_def order_less_trans [of 0 "1 / 1000000000"])
  then have "m * 1 \<le> m * max 1 h" by (intro mult_left_mono) auto
  with assms(1) have "QEPS < m * max 1 h" by simp
  from countQuantile_spec [OF this assms(2)] show ?thesis
    using assms(1) \<open>0 < m\<close> by (simp add: calibratedCover_def Let_def)
qed

lemma calibratedCover_nothing: "m \<le> QEPS \<or> tau \<le> 0 \<Longrightarrow> calibratedCover m v h tau None None = 0"
  by (auto simp: calibratedCover_def Let_def countQuantile_def QEPS_def)

lemma breakdown_method:
  "rb_method (reorderBreakdown i) =
    (if reorderMethod (ri_abcCategory i) (map_option op_rule (ri_policy i)) = RegimeMinMax then MinMaxRule
     else if map_option op_rule (ri_policy i) = Some Calibrated \<and> ri_dailyDemandStd i \<noteq> None \<and> 0 < ri_finalForecast30d i
     then CalibratedRule else MeanCoverRule)"
  by (auto simp: reorderBreakdown_def Let_def reorderMethod_def split: option.splits)

lemma breakdown_calibrated:
  assumes "rb_method (reorderBreakdown i) = CalibratedRule"
  shows "\<exists>tau. rb_serviceLevel (reorderBreakdown i) = Some tau \<and>
    rb_windowDays (reorderBreakdown i) = nvl (ri_leadTimeAvg i) 0 + 7 \<and>
    rb_targetUnits (reorderBreakdown i) = int (calibratedCover (ri_finalForecast30d i / 30)
      (nvl (ri_dailyDemandStd i) 0 * nvl (ri_dailyDemandStd i) 0) (rb_windowDays (reorderBreakdown i)) tau None None)"
  using assms by (auto simp: reorder_defs split: if_splits)

lemma breakdown_target_least:
  "rb_method (reorderBreakdown i) = MinMaxRule \<Longrightarrow>
     rb_windowDays (reorderBreakdown i) = max 14 (nvl (ri_leadTimeAvg i) 0 + 7) \<and>
     rb_targetUnits (reorderBreakdown i) = max 1 \<lceil>ri_finalForecast30d i / 30 * rb_windowDays (reorderBreakdown i) + ri_safetyStock i\<rceil>"
  "rb_method (reorderBreakdown i) = MeanCoverRule \<Longrightarrow>
     rb_windowDays (reorderBreakdown i) = nvl (ri_coverDays i) 30 \<and>
     rb_targetUnits (reorderBreakdown i) = \<lceil>ri_finalForecast30d i / 30 * rb_windowDays (reorderBreakdown i) + ri_safetyStock i\<rceil>"
  by (auto simp: reorder_defs split: if_splits)

lemma recommendedQty_nonneg: "0 \<le> recommendedQty i"
  by (simp add: recommendedQty_def breakdown_qty)

lemma explainQty_qty: "qe_recommendedQty (explainQty i (Some q)) = q"
  by (simp add: explainQty_def Let_def)

end
