(* ===== verification/Layered.thy ===== *)
theory Layered
  imports Abc BigBuyer Policy
begin

text \<open>
  \<^verbatim>\<open>packages/forecast/src/layered.ts\<close>: the two-layer forecast of one product. The body of
  \<open>layeredForecast\<close> is cut where its comments cut it: layer 1 (the rate), confidence, layer 2
  (promo, season, cap), inventory, and the result. A signal label and the reasoning prose are
  datatypes with one constructor per template, holding what the template interpolates.
\<close>

section \<open>Inputs\<close>

record active_promo =
  ap_discountPct :: real
  ap_promoType :: string
  ap_channel :: string
  ap_scope :: string
  ap_scopeValue :: "string option"

datatype override_source = Borrowed | OwnerPrior

record demand_override =
  do_forecast30d :: real
  do_source :: override_source
  do_label :: string

text \<open>\<open>runDateKey\<close> is the UTC midnight it names; \<open>fi_now\<close> is the wall clock.\<close>

record forecast_input =
  fi_productType :: "string option"
  fi_vendor :: "string option"
  fi_sku :: string
  fi_currentStock :: real
  fi_abcCategory :: "string option"
  fi_history :: "sales_point list"
  fi_leadTimeAvg :: real
  fi_leadTimeStd :: real
  fi_activePromos :: "active_promo list"
  fi_runDateKey :: "date option"
  fi_now :: date
  fi_stockoutDates :: "date list"
  fi_snapshotsSince :: "date option"
  fi_excludedDates :: "date list"
  fi_monthlyExpectations :: "monthly_expectation list"
  fi_serviceZ :: "abc \<Rightarrow> real option"
  fi_capMultiple :: "real option"
  fi_demandOverride :: "demand_override option"
  fi_demandMethod :: "demand_method option"
  fi_baselineMethod :: "baseline_method option"
  fi_bigBuyerDamping :: bool

definition anchorToday :: "date option \<Rightarrow> date \<Rightarrow> date" where
  "anchorToday runDateKey now = (case runDateKey of Some d \<Rightarrow> d | None \<Rightarrow> dayKeyOf now)"

section \<open>The demand rate\<close>

definition NEW_PRODUCT_MAX_CONFIDENCE :: real where "NEW_PRODUCT_MAX_CONFIDENCE = 0.5"
definition NO_HISTORY_CONFIDENCE :: real where "NO_HISTORY_CONFIDENCE = 0.3"
definition RECENT_HEAVY_WINDOW_DAYS :: int where "RECENT_HEAVY_WINDOW_DAYS = 30"

definition historySpanDays :: "sales_point list \<Rightarrow> date \<Rightarrow> real" where
  "historySpanDays history today =
    (if history = [] then 0
     else let earliest = fold (\<lambda>p e. if sp_date p < e then sp_date p else e) history (sp_date (hd history))
          in of_int (today - earliest) / of_int DAY_MS)"

definition rateOverWindow ::
  "sales_point list \<Rightarrow> date \<Rightarrow> int \<Rightarrow> date list \<Rightarrow> date list \<Rightarrow> real" where
  "rateOverWindow history today windowDays stockoutDates excludedDates =
    (let since = days_before today windowDays;
         (units, saleDays) = dampedWindow history since today (excluded_set excludedDates);
         hasMask = (stockoutDates \<noteq> [] \<or> excludedDates \<noteq> []);
         blocked = (if hasMask then blockedDaysInWindow stockoutDates excludedDates since today else 0);
         signal = (if hasMask then Some (windowDays - blocked, saleDays) else None)
     in units / of_int (effectiveWindowDays windowDays blocked signal))"

definition past :: "date \<Rightarrow> sales_point list \<Rightarrow> sales_point list" where
  "past today = filter (\<lambda>p. sp_date p < today)"

definition runRateDaily ::
  "sales_point list \<Rightarrow> date \<Rightarrow> date list \<Rightarrow> date list \<Rightarrow> date option \<Rightarrow> baseline_method \<Rightarrow> bool \<Rightarrow> real" where
  "runRateDaily history0 today0 stockoutDates excludedDates snapshotsSince baselineMethod bigBuyerDamping =
    (let today = dayKeyOf today0;
         history1 = past today history0;
         history = (if bigBuyerDamping then fst (debulkSeries history1 (Some today) excludedDates) else history1);
         span = historySpanDays history today
     in if span < of_int NEW_PRODUCT_DAYS
        then rateOverWindow history today (min 30 (max 7 \<lceil>span\<rceil>)) stockoutDates excludedDates
        else if baselineMethod = Median
        then weightedDailyRateMedianCensored history stockoutDates today excludedDates snapshotsSince
        else if stockoutDates \<noteq> [] \<or> snapshotsSince \<noteq> None
        then weightedDailyRateCensored history stockoutDates today excludedDates snapshotsSince
        else weightedDailyRateAdjusted history today excludedDates)"

definition demandRateFor ::
  "demand_method \<Rightarrow> sales_point list \<Rightarrow> date \<Rightarrow> date list \<Rightarrow> date list \<Rightarrow> date option \<Rightarrow>
   baseline_method option \<Rightarrow> bool \<Rightarrow> real" where
  "demandRateFor meth history0 today0 stockoutDates excludedDates snapshotsSince baselineMethod bigBuyerDamping =
    (let today = dayKeyOf today0;
         history1 = past today history0;
         history = (if bigBuyerDamping then fst (debulkSeries history1 (Some today) excludedDates) else history1)
     in if baselineMethod = Some Median
        then runRateDaily history today stockoutDates excludedDates snapshotsSince Median False
        else if meth = RecentHeavy
        then rateOverWindow history today RECENT_HEAVY_WINDOW_DAYS stockoutDates excludedDates
        else runRateDaily history today stockoutDates excludedDates snapshotsSince Mean False)"

definition month_totals :: "sales_point list \<Rightarrow> date \<Rightarrow> ((int \<times> int) \<times> real) list" where
  "month_totals history today =
     bump_all (\<lambda>p. \<not> today \<le> sp_date p) (\<lambda>p. monthKeyOf (sp_date p)) sp_quantity history []"

definition bestTrailingMonth :: "sales_point list \<Rightarrow> date \<Rightarrow> real" where
  "bestTrailingMonth history today =
    (let byMonth = month_totals history today
     in if byMonth = [] then 0 else fold max (alist_vals byMonth) (snd (hd byMonth)))"

definition promo_matches ::
  "string option \<Rightarrow> string option \<Rightarrow> string \<Rightarrow> active_promo \<Rightarrow> bool" where
  "promo_matches productType vendor sku p \<longleftrightarrow>
     ap_scope p = ''all'' \<or>
     (ap_scope p = ''sku'' \<and> ap_scopeValue p = Some sku) \<or>
     (ap_scope p = ''category'' \<and> nvl (ap_scopeValue p) [] \<noteq> [] \<and>
        js_upper (nvl (ap_scopeValue p) []) = js_upper (nvl productType [])) \<or>
     (ap_scope p = ''brand'' \<and> nvl (ap_scopeValue p) [] \<noteq> [] \<and>
        js_upper (nvl (ap_scopeValue p) []) = js_upper (nvl vendor []))"

definition promo_lift :: "active_promo \<Rightarrow> real" where
  "promo_lift p = 1 + (ap_discountPct p / 100) * 1.5"

definition activePromoLift ::
  "active_promo list \<Rightarrow> string option \<Rightarrow> string option \<Rightarrow> string \<Rightarrow> real \<times> string option" where
  "activePromoLift promos productType vendor sku =
     fold (\<lambda>p (bestLift, channel).
        if \<not> promo_matches productType vendor sku p then (bestLift, channel)
        else if bestLift < promo_lift p then (promo_lift p, Some (ap_channel p))
        else (bestLift, channel)) promos (1, None)"

section \<open>The forecast\<close>

datatype signal_label =
    BulkDays nat bool             \<comment> \<open>{n} possible bulk-sale day(s) [; baseline damping enabled]\<close>
  | ActivePromoLabel "string option" real
  | SeasonLabel season_label
  | CappedAt real                 \<comment> \<open>Capped at {capMultiple}x best month\<close>
  | OverrideLabel override_source string
  | NewNoHistory
  | NewFromDays int               \<comment> \<open>forecast from {n} days of history\<close>
  | RealityThin int int           \<comment> \<open>held to {forecast} on thin data (sold {sold})\<close>
  | RealityCapped int             \<comment> \<open>capped to 3x recent sales (sold {sold})\<close>

record signal =
  sg_label :: signal_label
  sg_deltaPct :: real

datatype rate_clause =
    HeldAtDemonstrated real real       \<comment> \<open>Forecast {f} at {rate}/day, the fastest it sold in stock\<close>
  | HeldAtFloor real "abc option" real \<comment> \<open>Forecast {f} at the {class}-class minimum of {floor}/day\<close>
  | FromShortWindow real int           \<comment> \<open>Forecast {f} from the last-{n}-day rate (new product)\<close>
  | FromWeeklyMedian real
  | FromRunRate real

datatype reasoning =
    TooNewReason real                  \<comment> \<open>stock\<close>
  | BorrowedReason string real real int
  | OwnerReason string real real real int
  | RateReason rate_clause "(real \<times> real) option" real real int

record forecast_result =
  fr_layer1Forecast30d :: real
  fr_layer1Confidence :: real
  fr_layer2Adjustment :: real
  fr_finalForecast30d :: real
  fr_daysUntilStockout :: int
  fr_recommendedQty :: int
  fr_safetyStock :: real
  fr_reorderPoint :: real
  fr_confidence :: real
  fr_reasoning :: reasoning
  fr_urgency :: urgency
  fr_signals :: "signal list"
  fr_demandStd :: "real option"
  fr_confidenceWord :: confidence_word
  fr_confidenceSignals :: confidence_signals

definition today_of :: "forecast_input \<Rightarrow> date" where
  "today_of input = anchorToday (fi_runDateKey input) (fi_now input)"

definition demand_history :: "forecast_input \<Rightarrow> sales_point list" where
  "demand_history input =
    past (today_of input)
      (if fi_bigBuyerDamping input
       then fst (debulkSeries (fi_history input) (Some (today_of input)) (fi_excludedDates input))
       else fi_history input)"

definition raw_rate :: "forecast_input \<Rightarrow> real" where
  "raw_rate input =
     demandRateFor (nvl (fi_demandMethod input) CHAMPION_DEFAULT) (demand_history input) (today_of input)
       (fi_stockoutDates input) (fi_excludedDates input) (fi_snapshotsSince input)
       (fi_baselineMethod input) False"

definition abc_of :: "string option \<Rightarrow> abc option" where
  "abc_of c = (if c = Some ''A'' then Some ClassA else if c = Some ''B'' then Some ClassB
               else if c = Some ''C'' then Some ClassC else None)"

definition had_recent_sales :: "forecast_input \<Rightarrow> bool" where
  "had_recent_sales input =
     (\<exists>p \<in> set (demand_history input). 0 < sp_quantity p \<and> days_before (today_of input) 30 \<le> sp_date p)"

definition shelf_mostly_empty :: "forecast_input \<Rightarrow> bool" where
  "shelf_mostly_empty input =
     shelfWasMostlyEmpty (fi_stockoutDates input) (fi_snapshotsSince input)
       (days_before (today_of input) 30) (today_of input)"

definition abc_floor :: "forecast_input \<Rightarrow> real" where
  "abc_floor input = abcFloorFor (abc_of (fi_abcCategory input)) (had_recent_sales input) (shelf_mostly_empty input)"

definition history_rate :: "forecast_input \<Rightarrow> real" where
  "history_rate input =
     applyAbcRateFloor (raw_rate input) (abc_of (fi_abcCategory input)) (had_recent_sales input)
       (shelf_mostly_empty input) (demonstratedDailyRate (demand_history input))"

definition daily_rate :: "forecast_input \<Rightarrow> real" where
  "daily_rate input =
     (case fi_demandOverride input of Some ov \<Rightarrow> do_forecast30d ov / 30 | None \<Rightarrow> history_rate input)"

definition layer1 :: "forecast_input \<Rightarrow> real" where
  "layer1 input =
     (case fi_demandOverride input of Some ov \<Rightarrow> do_forecast30d ov | None \<Rightarrow> history_rate input * 30)"

definition is_new :: "forecast_input \<Rightarrow> bool" where
  "is_new input = (historySpanDays (demand_history input) (today_of input) < of_int NEW_PRODUCT_DAYS)"

definition since_days :: "forecast_input \<Rightarrow> int \<Rightarrow> sales_point list" where
  "since_days input n = filter (\<lambda>p. days_before (today_of input) n \<le> sp_date p) (demand_history input)"

definition demand_std :: "forecast_input \<Rightarrow> real" where
  "demand_std input = standardDeviation (map sp_quantity (since_days input 90))"

definition demand_cv :: "forecast_input \<Rightarrow> real" where
  "demand_cv input =
    (let recent = since_days input 30;
         meanRecent = (if recent \<noteq> [] then sum_list (map sp_quantity recent) / real (length recent) else 0)
     in if 0 < meanRecent then demand_std input / meanRecent else 1)"

definition layer1_confidence :: "forecast_input \<Rightarrow> real" where
  "layer1_confidence input =
    (let c = max 0.3 (min 0.95 (0.9 - demand_cv input * 0.3))
     in if demand_history input = [] then NO_HISTORY_CONFIDENCE
        else if is_new input then min c NEW_PRODUCT_MAX_CONFIDENCE else c)"

section \<open>Layer 2\<close>

definition bulk_signals :: "forecast_input \<Rightarrow> signal list" where
  "bulk_signals input =
    (let bulkDays = snd (debulkSeries (fi_history input) (Some (today_of input)) (fi_excludedDates input))
     in if bulkDays \<noteq> []
        then [\<lparr>sg_label = BulkDays (length bulkDays)
                 (fi_bigBuyerDamping input \<and> fi_demandOverride input = None), sg_deltaPct = 0\<rparr>]
        else [])"

definition promo_of :: "forecast_input \<Rightarrow> real \<times> string option" where
  "promo_of input =
     activePromoLift (fi_activePromos input) (fi_productType input) (fi_vendor input) (fi_sku input)"

definition promo_applies :: "forecast_input \<Rightarrow> bool" where
  "promo_applies input \<longleftrightarrow> fi_demandOverride input = None \<and> 1.01 < fst (promo_of input)"

definition seasonal_of :: "forecast_input \<Rightarrow> real" where
  "seasonal_of input =
     blendedSeasonalMultiplier (fi_monthlyExpectations input) (today_of input) SEASONAL_HORIZON_DAYS"

definition season_label_of :: "forecast_input \<Rightarrow> season_label option" where
  "season_label_of input =
     (case fi_demandOverride input of Some _ \<Rightarrow> None | None \<Rightarrow> seasonalLabel (seasonal_of input))"

definition seasonal_applied :: "forecast_input \<Rightarrow> real" where
  "seasonal_applied input = (if season_label_of input \<noteq> None then seasonal_of input else 1)"

definition boosted :: "forecast_input \<Rightarrow> real" where
  "boosted input =
    (let b1 = (if promo_applies input then layer1 input * fst (promo_of input) else layer1 input)
     in if season_label_of input \<noteq> None then b1 * seasonal_of input else b1)"

definition best_month :: "forecast_input \<Rightarrow> real" where
  "best_month input = bestTrailingMonth (demand_history input) (today_of input)"

definition cap_multiple :: "forecast_input \<Rightarrow> real" where
  "cap_multiple input = nvl (fi_capMultiple input) DEFAULT_CAP_MULTIPLE"

text \<open>\<open>None\<close> is \<open>Infinity\<close>.\<close>

definition forecast_cap :: "forecast_input \<Rightarrow> real option" where
  "forecast_cap input =
    (if 0 < best_month input \<and> fi_demandOverride input = None
     then Some (cap_multiple input * best_month input) else None)"

definition capped :: "forecast_input \<Rightarrow> real" where
  "capped input = cap_at (forecast_cap input) (boosted input)"

definition was_capped :: "forecast_input \<Rightarrow> bool" where
  "was_capped input \<longleftrightarrow> capped input < boosted input - 1 / 10 ^ 9"

definition layer2_signals :: "forecast_input \<Rightarrow> signal list" where
  "layer2_signals input =
     bulk_signals input @
     (if promo_applies input
      then [\<lparr>sg_label = ActivePromoLabel (snd (promo_of input)) ((fst (promo_of input) - 1) * 100),
             sg_deltaPct = (fst (promo_of input) - 1) * 100\<rparr>] else []) @
     (case season_label_of input of None \<Rightarrow> []
      | Some l \<Rightarrow> [\<lparr>sg_label = SeasonLabel l, sg_deltaPct = (seasonal_of input - 1) * 100\<rparr>]) @
     (if was_capped input
      then [\<lparr>sg_label = CappedAt (cap_multiple input),
             sg_deltaPct = ((capped input - boosted input) / boosted input) * 100\<rparr>] else [])"

definition final_forecast :: "forecast_input \<Rightarrow> real" where
  "final_forecast input = max 0 (capped input)"

section \<open>Inventory\<close>

definition effective_seasonal :: "forecast_input \<Rightarrow> real" where
  "effective_seasonal input =
    (let clipRatio = (if 0 < boosted input then capped input / boosted input else 1)
     in if 1 \<le> seasonal_applied input then max 1 (seasonal_applied input * clipRatio)
        else seasonal_applied input)"

definition sizing_rate :: "forecast_input \<Rightarrow> real" where
  "sizing_rate input = daily_rate input * effective_seasonal input"

definition service_z :: "forecast_input \<Rightarrow> real" where
  "service_z input = zForServiceLevel (fi_abcCategory input) (fi_serviceZ input)"

definition safety_of :: "forecast_input \<Rightarrow> real" where
  "safety_of input =
     kingsSafetyStock (service_z input) (fi_leadTimeAvg input) (fi_leadTimeStd input)
       (sizing_rate input) (demand_std input)"

definition rop_of :: "forecast_input \<Rightarrow> real" where
  "rop_of input = reorderPoint (sizing_rate input) (fi_leadTimeAvg input) (safety_of input)"

definition days_left :: "forecast_input \<Rightarrow> int" where
  "days_left input = daysOfStockRemaining (fi_currentStock input) (sizing_rate input)"

definition is_dead :: "forecast_input \<Rightarrow> bool" where
  "is_dead input \<longleftrightarrow> demand_history input \<noteq> [] \<and> history_rate input \<le> 0 \<and> fi_demandOverride input = None"

definition too_new :: "forecast_input \<Rightarrow> bool" where
  "too_new input \<longleftrightarrow> demand_history input = [] \<and> fi_demandOverride input = None"

definition span_of :: "forecast_input \<Rightarrow> real" where
  "span_of input = historySpanDays (demand_history input) (today_of input)"

definition state_signals :: "forecast_input \<Rightarrow> signal list" where
  "state_signals input =
     (case fi_demandOverride input of
        Some ov \<Rightarrow> [\<lparr>sg_label = OverrideLabel (do_source ov) (do_label ov), sg_deltaPct = 0\<rparr>]
      | None \<Rightarrow> []) @
     (if too_new input then [\<lparr>sg_label = NewNoHistory, sg_deltaPct = 0\<rparr>]
      else if is_new input \<and> demand_history input \<noteq> [] \<and> fi_demandOverride input = None
      then [\<lparr>sg_label = NewFromDays (max 1 (js_round (span_of input))), sg_deltaPct = 0\<rparr>]
      else [])"

definition urgency_of :: "forecast_input \<Rightarrow> urgency" where
  "urgency_of input =
     (if is_dead input \<or> too_new input then Low
      else urgencyFromDays (of_int (days_left input)) (Some (sizing_rate input)))"

definition engine_qty :: "forecast_input \<Rightarrow> int" where
  "engine_qty input =
     (if is_dead input \<or> too_new input then 0
      else max 0 \<lceil>final_forecast input + safety_of input - fi_currentStock input\<rceil>)"

definition confidence_signals_of :: "forecast_input \<Rightarrow> confidence_signals" where
  "confidence_signals_of input =
    (let today = today_of input; last30 = days_before today 30;
         stockoutGapDays = (if fi_stockoutDates input \<noteq> []
           then censoredDaysInWindow (fi_stockoutDates input) last30 today
           else inferredStockoutGapDays (demand_history input) last30 today)
     in \<lparr>cs_historyDays = span_of input, cs_cv = demand_cv input,
         cs_stockoutGapShare = max 0 (min 1 (of_int stockoutGapDays / 30)),
         cs_promoContaminated = promo_applies input,
         cs_coldStart = (too_new input \<or> map_option do_source (fi_demandOverride input) = Some Borrowed)\<rparr>)"

definition word_of :: "forecast_input \<Rightarrow> confidence_word" where
  "word_of input =
    (let word = confidenceWord (confidence_signals_of input)
     in if map_option do_source (fi_demandOverride input) = Some OwnerPrior
        then leastConfident word FairlySure else word)"

definition rate_clause_of :: "forecast_input \<Rightarrow> rate_clause" where
  "rate_clause_of input =
    (let rateHeldAtFloor = (raw_rate input < history_rate input);
         heldAtDemonstrated = (rateHeldAtFloor \<and> history_rate input < abc_floor input - 1 / 10 ^ 9)
     in if rateHeldAtFloor
        then if heldAtDemonstrated then HeldAtDemonstrated (final_forecast input) (history_rate input)
             else HeldAtFloor (final_forecast input) (abc_of (fi_abcCategory input)) (abc_floor input)
        else if is_new input
        then FromShortWindow (final_forecast input) (max 1 (js_round (span_of input)))
        else if fi_baselineMethod input = Some Median then FromWeeklyMedian (final_forecast input)
        else FromRunRate (final_forecast input))"

definition reasoning_of :: "forecast_input \<Rightarrow> reasoning" where
  "reasoning_of input =
    (if too_new input then TooNewReason (fi_currentStock input)
     else case fi_demandOverride input of
       Some ov \<Rightarrow> (case do_source ov of
           Borrowed \<Rightarrow> BorrowedReason (do_label ov) (final_forecast input) (safety_of input) (days_left input)
         | OwnerPrior \<Rightarrow> OwnerReason (do_label ov) (final_forecast input) (safety_of input) (rop_of input)
             (days_left input))
     | None \<Rightarrow> RateReason (rate_clause_of input)
         (if was_capped input then Some (cap_multiple input, best_month input) else None)
         (safety_of input) (rop_of input) (days_left input))"

definition layeredForecast :: "forecast_input \<Rightarrow> forecast_result" where
  "layeredForecast input =
    \<lparr>fr_layer1Forecast30d = layer1 input,
     fr_layer1Confidence = layer1_confidence input,
     fr_layer2Adjustment = final_forecast input - layer1 input,
     fr_finalForecast30d = final_forecast input,
     fr_daysUntilStockout = days_left input,
     fr_recommendedQty = engine_qty input,
     fr_safetyStock = safety_of input,
     fr_reorderPoint = rop_of input,
     fr_confidence = layer1_confidence input,
     fr_reasoning = reasoning_of input,
     fr_urgency = urgency_of input,
     fr_signals = layer2_signals input @ state_signals input,
     fr_demandStd = Some (demand_std input),
     fr_confidenceWord = word_of input,
     fr_confidenceSignals = confidence_signals_of input\<rparr>"

section \<open>Rates\<close>

lemma past_set: "p \<in> set (past t h) \<longleftrightarrow> p \<in> set h \<and> sp_date p < t"
  by (auto simp: past_def)

lemma past_positive: "positive_sales h \<Longrightarrow> positive_sales (past t h)"
  by (simp add: positive_sales_def past_set)

lemma rateOverWindow_nonneg:
  assumes "positive_sales h" and "1 \<le> w"
  shows "0 \<le> rateOverWindow h t w so ex"
proof -
  have "0 \<le> real_of_int (effectiveWindowDays w b sig)" for b sig
    using effectiveWindowDays_pos [OF assms(2)] by (metis of_int_0_le_iff order_trans zero_le_one)
  with dampedWindow_bounds(1) [OF assms(1)] show ?thesis
    unfolding rateOverWindow_def Let_def case_prod_beta by (rule divide_nonneg_nonneg)
qed

lemma runRateDaily_nonneg:
  assumes "positive_sales h"
  shows "0 \<le> runRateDaily h t so ex ss m damp"
proof -
  have "positive_sales (if damp then fst (debulkSeries (past d h) (Some d) ex) else past d h)" for d
    using assms by (simp add: past_positive debulk_positive)
  then show ?thesis unfolding runRateDaily_def Let_def
    using rateOverWindow_nonneg weightedDailyRateMedianCensored_nonneg
      weightedDailyRateCensored_bounds weightedDailyRateAdjusted_bounds by simp
qed

lemma demandRateFor_nonneg:
  assumes "positive_sales h"
  shows "0 \<le> demandRateFor me h t so ex ss bm damp"
proof -
  have "positive_sales (if damp then fst (debulkSeries (past d h) (Some d) ex) else past d h)" for d
    using assms by (simp add: past_positive debulk_positive)
  then show ?thesis unfolding demandRateFor_def Let_def
    by (simp add: rateOverWindow_nonneg runRateDaily_nonneg RECENT_HEAVY_WINDOW_DAYS_def)
qed

lemma demand_history_positive: "positive_sales (fi_history i) \<Longrightarrow> positive_sales (demand_history i)"
  by (simp add: demand_history_def past_positive debulk_positive)

lemma raw_rate_nonneg: "positive_sales (fi_history i) \<Longrightarrow> 0 \<le> raw_rate i"
  by (simp add: raw_rate_def demandRateFor_nonneg demand_history_positive)

lemma history_rate_bounds:
  "raw_rate i \<le> history_rate i" "history_rate i \<le> max (raw_rate i) 0.4"
proof -
  show "raw_rate i \<le> history_rate i" by (simp add: history_rate_def applyAbcRateFloor_ge)
  have "history_rate i \<le> max (raw_rate i)
      (abcFloorFor (abc_of (fi_abcCategory i)) (had_recent_sales i) (shelf_mostly_empty i))"
    unfolding history_rate_def by (rule applyAbcRateFloor_le(1))
  also have "\<dots> \<le> max (raw_rate i) 0.4" by (rule max.mono [OF order_refl abcFloorFor_le])
  finally show "history_rate i \<le> max (raw_rate i) 0.4" .
qed

section \<open>The cap\<close>

text \<open>The best month is the largest month total, and 0 with no past sale.\<close>

definition month_units :: "sales_point list \<Rightarrow> date \<Rightarrow> int \<times> int \<Rightarrow> real" where
  "month_units h t ym = sum_list (map sp_quantity (filter (\<lambda>p. \<not> t \<le> sp_date p \<and> monthKeyOf (sp_date p) = ym) h))"

lemma fold_max_Max: "fold max xs x = Max (set (x # xs))" for x :: real
  by (simp only: Max.set_eq_fold)

lemma month_totals_abs:
  "alist_vals (month_totals h t) = map (month_units h t) (alist_keys (month_totals h t))"
  "set (alist_keys (month_totals h t)) = (\<lambda>p. monthKeyOf (sp_date p)) ` set (past t h)"
proof -
  have d: "distinct (alist_keys (month_totals h t))"
    unfolding month_totals_def by (rule bump_all_distinct) simp
  have "get0 (month_totals h t) = month_units h t"
    by (simp add: fun_eq_iff month_totals_def bump_all_get0 month_units_def get0_def [of "[]"])
  with vals_get0 [OF d] show "alist_vals (month_totals h t) = map (month_units h t) (alist_keys (month_totals h t))"
    by simp
  show "set (alist_keys (month_totals h t)) = (\<lambda>p. monthKeyOf (sp_date p)) ` set (past t h)"
    by (auto simp: month_totals_def bump_all_keys past_set simp del: set_map)
qed

lemma bestTrailingMonth_Max:
  assumes "past t h \<noteq> []"
  shows "bestTrailingMonth h t = Max ((\<lambda>p. month_units h t (monthKeyOf (sp_date p))) ` set (past t h))"
proof -
  let ?m = "month_totals h t"
  have ne: "?m \<noteq> []" using assms month_totals_abs(2) [of h t] by auto
  then have "bestTrailingMonth h t = Max (set (snd (hd ?m) # alist_vals ?m))"
    by (simp add: bestTrailingMonth_def Let_def fold_max_Max del: set_map list.set)
  also have "set (snd (hd ?m) # alist_vals ?m) = set (alist_vals ?m)" using ne by auto
  also have "\<dots> = month_units h t ` set (alist_keys ?m)" by (subst month_totals_abs(1)) (rule set_map)
  finally show ?thesis by (simp only: month_totals_abs(2) image_image)
qed

lemma bestTrailingMonth_none: "past t h = [] \<Longrightarrow> bestTrailingMonth h t = 0"
  using month_totals_abs(2) [of h t] by (simp add: bestTrailingMonth_def)

lemma final_forecast_nonneg: "0 \<le> final_forecast i"
  by (simp add: final_forecast_def)

text \<open>The months the demand history touches and what each sold. The best month is the largest of those
  totals, and zero where there is no history.\<close>

definition trading_months :: "forecast_input \<Rightarrow> (int \<times> int) set" where
  "trading_months i = (\<lambda>p. monthKeyOf (sp_date p)) ` set (demand_history i)"

definition units_of_month :: "forecast_input \<Rightarrow> int \<times> int \<Rightarrow> real" where
  "units_of_month i m = sum_list (map sp_quantity (filter (\<lambda>p. monthKeyOf (sp_date p) = m) (demand_history i)))"

lemma past_demand [simp]: "past (today_of i) (demand_history i) = demand_history i"
  by (simp add: demand_history_def past_def)

lemma month_units_demand: "month_units (demand_history i) (today_of i) m = units_of_month i m"
proof -
  have "\<not> today_of i \<le> sp_date p" if "p \<in> set (demand_history i)" for p
    using that past_set [of p "today_of i" "demand_history i"] by simp
  then have "filter (\<lambda>p. \<not> today_of i \<le> sp_date p \<and> monthKeyOf (sp_date p) = m) (demand_history i) =
      filter (\<lambda>p. monthKeyOf (sp_date p) = m) (demand_history i)"
    by (intro filter_cong) auto
  then show ?thesis by (simp add: month_units_def units_of_month_def)
qed

lemma best_month_Max:
  "best_month i = (if trading_months i = {} then 0 else Max (units_of_month i ` trading_months i))"
proof (cases "demand_history i = []")
  case True
  then show ?thesis by (simp add: best_month_def trading_months_def bestTrailingMonth_none past_def)
next
  case False
  then have "best_month i = Max ((\<lambda>p. units_of_month i (monthKeyOf (sp_date p))) ` set (demand_history i))"
    using bestTrailingMonth_Max [of "today_of i" "demand_history i"] by (simp add: best_month_def month_units_demand)
  also have "(\<lambda>p. units_of_month i (monthKeyOf (sp_date p))) ` set (demand_history i) = units_of_month i ` trading_months i"
    by (simp only: trading_months_def image_image)
  finally show ?thesis using False by (simp add: trading_months_def)
qed

lemma best_month_cases:
  "(\<exists>m \<in> trading_months i. 0 < units_of_month i m \<and> best_month i = units_of_month i m \<and>
     (\<forall>m' \<in> trading_months i. units_of_month i m' \<le> units_of_month i m)) \<or>
   ((\<forall>m \<in> trading_months i. units_of_month i m \<le> 0) \<and> best_month i \<le> 0)"
proof (cases "trading_months i = {}")
  case True then show ?thesis by (simp add: best_month_Max)
next
  case False
  have fin: "finite (units_of_month i ` trading_months i)" by (simp add: trading_months_def)
  with False have "best_month i \<in> units_of_month i ` trading_months i" by (simp add: best_month_Max)
  then obtain m where m: "m \<in> trading_months i" "best_month i = units_of_month i m" by blast
  have le: "units_of_month i m' \<le> units_of_month i m" if "m' \<in> trading_months i" for m'
    using that fin False unfolding m(2) [symmetric] by (simp add: best_month_Max)
  show ?thesis
  proof (cases "0 < units_of_month i m")
    case True with m le show ?thesis by blast
  next
    case neg: False
    with le have "\<forall>m' \<in> trading_months i. units_of_month i m' \<le> 0" by (meson not_le order_trans)
    with neg m show ?thesis by simp
  qed
qed

lemma final_forecast_by_month:
  assumes "fi_demandOverride i = None"
  shows "final_forecast i = max 0 (if 0 < best_month i then min (boosted i) (cap_multiple i * best_month i) else boosted i)"
  using assms by (simp add: final_forecast_def capped_def forecast_cap_def cap_at_def)

lemma capped_le: "capped i \<le> boosted i"
  by (simp add: capped_def cap_at_le)

lemma override_final:
  "fi_demandOverride i = Some ov \<Longrightarrow> final_forecast i = max 0 (do_forecast30d ov)"
  by (simp add: final_forecast_def capped_def forecast_cap_def cap_at_def boosted_def promo_applies_def
      season_label_of_def layer1_def)

text \<open>The promo lift is the best of the matching promos, and never below 1.\<close>

lemma promo_fold:
  "fst (fold (\<lambda>p (b, c). if \<not> promo_matches pt v sku p then (b, c)
        else if b < promo_lift p then (promo_lift p, Some (ap_channel p)) else (b, c)) ps (b0, c0)) =
   Max (insert b0 (promo_lift ` {p \<in> set ps. promo_matches pt v sku p}))"
proof (induction ps arbitrary: b0 c0)
  case (Cons p ps)
  have ins: "{q \<in> set (p # ps). promo_matches pt v sku q} =
    (if promo_matches pt v sku p then insert p {q \<in> set ps. promo_matches pt v sku q}
     else {q \<in> set ps. promo_matches pt v sku q})" by auto
  have "Max (insert (max b x) S) = Max (insert b (insert x S))" if "finite S" for b x :: real and S
    using that by (cases "S = {}") (auto simp: max.assoc)
  note step = this [of "promo_lift ` {q \<in> set ps. promo_matches pt v sku q}"]
  show ?case unfolding ins using Cons step [of b0 "promo_lift p"] by (auto simp: max_def)
qed simp

lemma activePromoLift_Max:
  "fst (activePromoLift ps pt v sku) = Max (insert 1 (promo_lift ` {p \<in> set ps. promo_matches pt v sku p}))"
  unfolding activePromoLift_def by (rule promo_fold)

lemma activePromoLift_ge: "1 \<le> fst (activePromoLift ps pt v sku)"
  unfolding activePromoLift_Max by (rule Max_ge) auto

section \<open>Inventory follows the season, net of the cap\<close>

lemma effective_seasonal_bounds:
  assumes "1 \<le> seasonal_applied i"
  shows "1 \<le> effective_seasonal i \<and> effective_seasonal i \<le> seasonal_applied i"
proof (cases "0 < boosted i")
  case True
  with capped_le [of i] have "capped i / boosted i \<le> 1" by simp
  with assms have "seasonal_applied i * (capped i / boosted i) \<le> seasonal_applied i * 1"
    by (intro mult_left_mono) auto
  with assms True show ?thesis by (simp add: effective_seasonal_def Let_def)
qed (use assms in \<open>simp add: effective_seasonal_def Let_def\<close>)

lemma effective_seasonal_off: "seasonal_applied i < 1 \<Longrightarrow> effective_seasonal i = seasonal_applied i"
  by (simp add: effective_seasonal_def)

lemma layer1_confidence_bounds:
  "0.3 \<le> layer1_confidence i \<and> layer1_confidence i \<le> 0.95"
  "is_new i \<or> demand_history i = [] \<Longrightarrow> layer1_confidence i \<le> 0.5"
proof -
  define c :: real where "c = max 0.3 (min 0.95 (0.9 - demand_cv i * 0.3))"
  have c: "0.3 \<le> c" "c \<le> 0.95"
    unfolding c_def by (rule max.cobounded1, rule max.boundedI [OF _ min.cobounded1]) simp
  have "layer1_confidence i = (if demand_history i = [] then 0.3 else if is_new i then min c 0.5 else c)"
    by (simp only: layer1_confidence_def Let_def NO_HISTORY_CONFIDENCE_def NEW_PRODUCT_MAX_CONFIDENCE_def c_def)
  with c show "0.3 \<le> layer1_confidence i \<and> layer1_confidence i \<le> 0.95"
    "is_new i \<or> demand_history i = [] \<Longrightarrow> layer1_confidence i \<le> 0.5"
    by (auto simp: min_def)
qed

lemma not_stocked: "is_dead i \<or> too_new i \<Longrightarrow> engine_qty i = 0 \<and> urgency_of i = Low"
  by (simp add: engine_qty_def urgency_of_def)

lemma owner_never_sure:
  "fi_demandOverride i = Some ov \<Longrightarrow> do_source ov = OwnerPrior \<Longrightarrow> word_of i \<noteq> Sure"
  by (cases "confidenceWord (confidence_signals_of i)") (simp_all add: word_of_def leastConfident_def)

lemma borrowed_guesses:
  "fi_demandOverride i = Some ov \<Longrightarrow> do_source ov = Borrowed \<Longrightarrow> word_of i = Guessing"
  by (simp add: word_of_def confidenceWord_def confidence_signals_of_def Let_def)

end
