(* ===== verification/Guardrail.thy ===== *)
theory Guardrail
  imports Layered
begin

text \<open>
  \<^verbatim>\<open>packages/forecast/src/guardrail.ts\<close>: the clamp that holds any engine's forecast to a
  multiple of what the item actually sold. \<open>guardrail_bound\<close> states the contract in one
  formula; \<open>guardrailCap\<close> is shown to be the minimum with it.
\<close>

definition GUARDRAIL_MULTIPLIER :: real where "GUARDRAIL_MULTIPLIER = 3"
definition ZERO_SALES_CAP_30D :: real where "ZERO_SALES_CAP_30D = 3"
definition THIN_DATA_ABSOLUTE_CAP_30D :: real where "THIN_DATA_ABSOLUTE_CAP_30D = 12"

record guardrail_input =
  gi_finalForecast30d :: real
  gi_sold30 :: real
  gi_historySpanDays :: real
  gi_currentStock :: real
  gi_stockoutDays30 :: "int option"
  gi_thinCap :: "real option"

record guardrail_decision =
  gd_finalForecast30d :: real
  gd_capped :: bool

definition keep_or_cap :: "real \<Rightarrow> real \<Rightarrow> guardrail_decision" where
  "keep_or_cap f c =
     (if c < f then \<lparr>gd_finalForecast30d = c, gd_capped = True\<rparr>
      else \<lparr>gd_finalForecast30d = f, gd_capped = False\<rparr>)"

definition guardrailCap :: "guardrail_input \<Rightarrow> guardrail_decision" where
  "guardrailCap input =
    (let f = gi_finalForecast30d input;
         sold30 = gi_sold30 input;
         THIN = nvl (gi_thinCap input) THIN_DATA_ABSOLUTE_CAP_30D;
         thin = (gi_historySpanDays input < 30 \<or> 7 < nvl (gi_stockoutDays30 input) 0)
     in if thin then keep_or_cap f (max (GUARDRAIL_MULTIPLIER * sold30) THIN)
        else if 0 < sold30 then keep_or_cap f (GUARDRAIL_MULTIPLIER * sold30)
        else if gi_currentStock input \<le> 0 then keep_or_cap f THIN
        else keep_or_cap f ZERO_SALES_CAP_30D)"

record guard_ctx =
  gc_history :: "sales_point list"
  gc_currentStock :: real
  gc_today :: date
  gc_stockoutDates :: "date list"

definition guard_sold30 :: "guard_ctx \<Rightarrow> real" where
  "guard_sold30 ctx = sum_list (map sp_quantity
     (filter (\<lambda>p. \<not> gc_today ctx \<le> sp_date p \<and> days_before (gc_today ctx) 30 \<le> sp_date p) (gc_history ctx)))"

definition guard_span :: "guard_ctx \<Rightarrow> real" where
  "guard_span ctx =
    (let ps = filter (\<lambda>p. \<not> gc_today ctx \<le> sp_date p) (gc_history ctx);
         earliest = fold (\<lambda>p e. case e of None \<Rightarrow> Some (sp_date p)
           | Some d \<Rightarrow> if sp_date p < d then Some (sp_date p) else Some d) ps None
     in case earliest of None \<Rightarrow> 0 | Some e \<Rightarrow> of_int (gc_today ctx - e) / of_int DAY_MS)"

definition guard_stockouts :: "guard_ctx \<Rightarrow> int" where
  "guard_stockouts ctx =
     int (length (filter (\<lambda>d. days_before (gc_today ctx) 30 \<le> d \<and> d < gc_today ctx) (gc_stockoutDates ctx)))"

definition guard_decision :: "forecast_result \<Rightarrow> guard_ctx \<Rightarrow> guardrail_decision" where
  "guard_decision result ctx =
     guardrailCap \<lparr>gi_finalForecast30d = fr_finalForecast30d result, gi_sold30 = guard_sold30 ctx,
       gi_historySpanDays = guard_span ctx, gi_currentStock = gc_currentStock ctx,
       gi_stockoutDays30 = Some (guard_stockouts ctx), gi_thinCap = None\<rparr>"

definition guardForecastResult :: "forecast_result \<Rightarrow> guard_ctx \<Rightarrow> forecast_result" where
  "guardForecastResult result ctx =
    (let sold30 = guard_sold30 ctx;
         decision = guard_decision result ctx;
         f = gd_finalForecast30d decision
     in if \<not> gd_capped decision \<or> fr_finalForecast30d result \<le> 0 then result
        else let ratio = f / fr_finalForecast30d result;
                 newRate = f / 30;
                 thin = (guard_span ctx < 30 \<or> 7 < guard_stockouts ctx \<or> sold30 = 0);
                 label = (if thin then RealityThin (js_round f) (js_round sold30)
                          else RealityCapped (js_round sold30))
             in result\<lparr>fr_finalForecast30d := f,
                  fr_safetyStock := fr_safetyStock result * ratio,
                  fr_demandStd := map_option (\<lambda>s. s * ratio) (fr_demandStd result),
                  fr_daysUntilStockout :=
                    (if 0 < newRate then \<lfloor>gc_currentStock ctx / newRate\<rfloor> else fr_daysUntilStockout result),
                  fr_signals := fr_signals result @ [\<lparr>sg_label = label, sg_deltaPct = (ratio - 1) * 100\<rparr>]\<rparr>)"

section \<open>The contract of the guardrail\<close>

definition guardrail_bound :: "real \<Rightarrow> real \<Rightarrow> real \<Rightarrow> int \<Rightarrow> real \<Rightarrow> real" where
  "guardrail_bound sold30 spanDays stock outDays thinCap =
    (if spanDays < 30 \<or> 7 < outDays then max (3 * sold30) thinCap
     else if 0 < sold30 then 3 * sold30
     else if stock \<le> 0 then thinCap else 3)"

lemmas guardrail_consts = GUARDRAIL_MULTIPLIER_def ZERO_SALES_CAP_30D_def THIN_DATA_ABSOLUTE_CAP_30D_def

lemma keep_or_cap_min:
  "gd_finalForecast30d (keep_or_cap f c) = min f c" "gd_capped (keep_or_cap f c) \<longleftrightarrow> c < f"
  by (auto simp: keep_or_cap_def)

lemma guardrailCap_min:
  "gd_finalForecast30d (guardrailCap i) =
     min (gi_finalForecast30d i) (guardrail_bound (gi_sold30 i) (gi_historySpanDays i) (gi_currentStock i)
       (nvl (gi_stockoutDays30 i) 0) (nvl (gi_thinCap i) 12))"
  "gd_capped (guardrailCap i) \<longleftrightarrow>
     guardrail_bound (gi_sold30 i) (gi_historySpanDays i) (gi_currentStock i)
       (nvl (gi_stockoutDays30 i) 0) (nvl (gi_thinCap i) 12) < gi_finalForecast30d i"
  by (simp_all add: guardrailCap_def guardrail_bound_def Let_def keep_or_cap_min guardrail_consts)

definition ctx_bound :: "guard_ctx \<Rightarrow> real" where
  "ctx_bound ctx = guardrail_bound (guard_sold30 ctx) (guard_span ctx) (gc_currentStock ctx) (guard_stockouts ctx) 12"

lemma guard_decision_min:
  "gd_finalForecast30d (guard_decision r ctx) = min (fr_finalForecast30d r) (ctx_bound ctx)"
  "gd_capped (guard_decision r ctx) \<longleftrightarrow> ctx_bound ctx < fr_finalForecast30d r"
  by (simp_all add: guard_decision_def guardrailCap_min ctx_bound_def)

lemma ctx_bound_pos: "0 < ctx_bound ctx"
  by (auto simp: ctx_bound_def guardrail_bound_def less_max_iff_disj)

lemma guard_final:
  "fr_finalForecast30d (guardForecastResult r ctx) = min (fr_finalForecast30d r) (ctx_bound ctx)"
  using ctx_bound_pos [of ctx]
  by (simp add: guardForecastResult_def Let_def guard_decision_min min_def)

lemma guard_idle: "fr_finalForecast30d r \<le> ctx_bound ctx \<Longrightarrow> guardForecastResult r ctx = r"
  by (simp add: guardForecastResult_def Let_def guard_decision_min)

lemma guard_frame:
  "fr_layer1Forecast30d (guardForecastResult r ctx) = fr_layer1Forecast30d r"
  "fr_layer1Confidence (guardForecastResult r ctx) = fr_layer1Confidence r"
  "fr_recommendedQty (guardForecastResult r ctx) = fr_recommendedQty r"
  "fr_urgency (guardForecastResult r ctx) = fr_urgency r"
  "fr_confidenceWord (guardForecastResult r ctx) = fr_confidenceWord r"
  "fr_confidence (guardForecastResult r ctx) = fr_confidence r"
  by (simp_all add: guardForecastResult_def Let_def)

text \<open>The clamp scales safety stock and variability in the proportion of the forecast.\<close>

lemma guard_proportional:
  assumes "0 < fr_finalForecast30d r"
  shows "fr_safetyStock (guardForecastResult r ctx) * fr_finalForecast30d r =
      fr_safetyStock r * fr_finalForecast30d (guardForecastResult r ctx)"
    and "fr_demandStd (guardForecastResult r ctx) =
      map_option (\<lambda>s. s * (fr_finalForecast30d (guardForecastResult r ctx) / fr_finalForecast30d r)) (fr_demandStd r)"
proof -
  show "fr_safetyStock (guardForecastResult r ctx) * fr_finalForecast30d r =
      fr_safetyStock r * fr_finalForecast30d (guardForecastResult r ctx)"
    using assms by (simp add: guardForecastResult_def Let_def guard_decision_min)
  show "fr_demandStd (guardForecastResult r ctx) =
      map_option (\<lambda>s. s * (fr_finalForecast30d (guardForecastResult r ctx) / fr_finalForecast30d r)) (fr_demandStd r)"
    using assms by (cases "fr_demandStd r") (simp_all add: guardForecastResult_def Let_def guard_decision_min)
qed

text \<open>Applying the guardrail twice changes nothing more.\<close>

lemma guard_idempotent: "guardForecastResult (guardForecastResult r ctx) ctx = guardForecastResult r ctx"
  by (rule guard_idle) (simp add: guard_final)

text \<open>The two kinds of item the header of \<^verbatim>\<open>guardrail.ts\<close> calls deliberately not clamped, a sold-out
  shelf that sold nothing and a history under thirty days, are clamped too, to twelve units or more.\<close>

lemma guardrail_clamps_exempt:
  "gd_finalForecast30d (guardrailCap \<lparr>gi_finalForecast30d = f, gi_sold30 = 0, gi_historySpanDays = s,
     gi_currentStock = 0, gi_stockoutDays30 = o', gi_thinCap = None\<rparr>) = min f 12"
  "s < 30 \<Longrightarrow> gd_finalForecast30d (guardrailCap \<lparr>gi_finalForecast30d = f, gi_sold30 = u, gi_historySpanDays = s,
     gi_currentStock = c, gi_stockoutDays30 = o', gi_thinCap = None\<rparr>) = min f (max (3 * u) 12)"
  by (simp_all add: guardrailCap_min guardrail_bound_def)

end
