(* ===== verification/Pipeline.thy ===== *)
theory Pipeline
  imports Guardrail Reorder
begin

text \<open>
  \<^verbatim>\<open>packages/forecast/src/pipeline.ts\<close>: \<open>forecastProduct\<close> composes the layered forecast, the
  guardrail, the reorder sizing and its explanation into the row that is persisted.
\<close>

record product_facts =
  pf_sku :: string
  pf_productType :: "string option"
  pf_vendor :: "string option"
  pf_currentStock :: real
  pf_onOrder :: real
  pf_leadTimeDays :: "real option"

record product_forecast_input =
  pi_product :: product_facts
  pi_supplier :: "supplier_lead option"
  pi_history :: "sales_point list"
  pi_stockoutDates :: "date list"
  pi_snapshotsSince :: "date option"
  pi_excludedDates :: "date list"
  pi_activePromos :: "active_promo list"
  pi_monthlyExpectations :: "monthly_expectation list"
  pi_abcCategory :: "string option"
  pi_policy :: "order_policy option"
  pi_serviceZ :: "abc \<Rightarrow> real option"
  pi_capMultiple :: "real option"
  pi_runDateKey :: "date option"
  pi_now :: date
  pi_demandOverride :: "demand_override option"
  pi_demandMethod :: "demand_method option"
  pi_baselineMethod :: "baseline_method option"
  pi_bigBuyerDamping :: bool

record prediction_fields =
  pr_layer1Forecast30d :: real
  pr_layer1Confidence :: real
  pr_layer2Adjustment :: real
  pr_finalForecast30d :: real
  pr_daysUntilStockout :: int
  pr_recommendedQty :: real
  pr_safetyStock :: real
  pr_reorderPoint :: real
  pr_confidence :: real
  pr_reasoning :: reasoning
  pr_urgency :: urgency
  pr_signals :: "signal list"
  pr_regime :: regime
  pr_confidenceWord :: confidence_word
  pr_explainParts :: qty_explanation

definition pipeline_today :: "product_forecast_input \<Rightarrow> date" where
  "pipeline_today input = anchorToday (pi_runDateKey input) (pi_now input)"

definition lead_avg :: "product_forecast_input \<Rightarrow> real" where
  "lead_avg input = nvl (leadDaysFor (pf_leadTimeDays (pi_product input)) (pi_supplier input)) 0"

definition engine_input :: "product_forecast_input \<Rightarrow> forecast_input" where
  "engine_input input =
    \<lparr>fi_productType = pf_productType (pi_product input),
     fi_vendor = pf_vendor (pi_product input),
     fi_sku = pf_sku (pi_product input),
     fi_currentStock = pf_currentStock (pi_product input),
     fi_abcCategory = pi_abcCategory input,
     fi_history = pi_history input,
     fi_leadTimeAvg = lead_avg input,
     fi_leadTimeStd = leadStdFor (pi_supplier input),
     fi_activePromos = pi_activePromos input,
     fi_runDateKey = pi_runDateKey input,
     fi_now = pi_now input,
     fi_stockoutDates = pi_stockoutDates input,
     fi_snapshotsSince = pi_snapshotsSince input,
     fi_excludedDates = pi_excludedDates input,
     fi_monthlyExpectations = pi_monthlyExpectations input,
     fi_serviceZ = pi_serviceZ input,
     fi_capMultiple = pi_capMultiple input,
     fi_demandOverride = pi_demandOverride input,
     fi_demandMethod = pi_demandMethod input,
     fi_baselineMethod = pi_baselineMethod input,
     fi_bigBuyerDamping = pi_bigBuyerDamping input\<rparr>"

definition guard_context :: "product_forecast_input \<Rightarrow> guard_ctx" where
  "guard_context input =
    \<lparr>gc_history = (if pi_bigBuyerDamping input
       then fst (debulkSeries (pi_history input) (Some (pipeline_today input)) (pi_excludedDates input))
       else pi_history input),
     gc_currentStock = pf_currentStock (pi_product input),
     gc_today = pipeline_today input,
     gc_stockoutDates = pi_stockoutDates input\<rparr>"

definition guarded_forecast :: "product_forecast_input \<Rightarrow> forecast_result" where
  "guarded_forecast input =
    (let forecast = layeredForecast (engine_input input)
     in case pi_demandOverride input of Some _ \<Rightarrow> forecast
        | None \<Rightarrow> guardForecastResult forecast (guard_context input))"

definition sizing_input :: "product_forecast_input \<Rightarrow> forecast_result \<Rightarrow> reorder_input" where
  "sizing_input input result =
    \<lparr>ri_finalForecast30d = fr_finalForecast30d result,
     ri_safetyStock = fr_safetyStock result,
     ri_currentStock = pf_currentStock (pi_product input),
     ri_onOrder = pf_onOrder (pi_product input),
     ri_coverDays = Some (coverDaysFor (pf_leadTimeDays (pi_product input)) (pi_supplier input)),
     ri_abcCategory = pi_abcCategory input,
     ri_dailyDemandStd = fr_demandStd result,
     ri_leadTimeAvg = Some (lead_avg input),
     ri_serviceLevel = None,
     ri_policy = pi_policy input\<rparr>"

definition forecastProduct :: "product_forecast_input \<Rightarrow> prediction_fields" where
  "forecastProduct input =
    (let result = guarded_forecast input;
         reorderInput = sizing_input input result;
         engineSaysZero = (fr_recommendedQty result = 0 \<and> fr_finalForecast30d result \<le> 0);
         qty = (if engineSaysZero then 0 else recommendedQty reorderInput)
     in \<lparr>pr_layer1Forecast30d = fr_layer1Forecast30d result,
         pr_layer1Confidence = fr_layer1Confidence result,
         pr_layer2Adjustment = fr_layer2Adjustment result,
         pr_finalForecast30d = fr_finalForecast30d result,
         pr_daysUntilStockout = fr_daysUntilStockout result,
         pr_recommendedQty = qty,
         pr_safetyStock = fr_safetyStock result,
         pr_reorderPoint = fr_reorderPoint result,
         pr_confidence = fr_confidence result,
         pr_reasoning = fr_reasoning result,
         pr_urgency = fr_urgency result,
         pr_signals = fr_signals result,
         pr_regime = reorderMethod (pi_abcCategory input) (map_option op_rule (pi_policy input)),
         pr_confidenceWord = fr_confidenceWord result,
         pr_explainParts = explainQty reorderInput (Some qty)\<rparr>)"

section \<open>What the persisted row promises\<close>

lemma guarded_final:
  "fr_finalForecast30d (guarded_forecast i) =
     (case pi_demandOverride i of
        Some ov \<Rightarrow> max 0 (do_forecast30d ov)
      | None \<Rightarrow> min (final_forecast (engine_input i)) (ctx_bound (guard_context i)))"
  by (auto simp: guarded_forecast_def Let_def guard_final layeredForecast_def engine_input_def
      override_final split: option.split)

lemma guarded_final_nonneg: "0 \<le> fr_finalForecast30d (guarded_forecast i)"
  using ctx_bound_pos [of "guard_context i"]
  by (auto simp: guarded_final final_forecast_nonneg split: option.split)

lemma guarded_qty: "fr_recommendedQty (guarded_forecast i) = engine_qty (engine_input i)"
  by (auto simp: guarded_forecast_def Let_def guard_frame layeredForecast_def split: option.split)

lemma forecastProduct_qty:
  "pr_recommendedQty (forecastProduct i) =
    (if engine_qty (engine_input i) = 0 \<and> fr_finalForecast30d (guarded_forecast i) \<le> 0 then 0
     else recommendedQty (sizing_input i (guarded_forecast i)))"
  by (simp add: forecastProduct_def Let_def guarded_qty)

lemma forecastProduct_qty_nonneg: "0 \<le> pr_recommendedQty (forecastProduct i)"
  by (simp add: forecastProduct_qty recommendedQty_nonneg)

lemma forecastProduct_explains:
  "qe_recommendedQty (pr_explainParts (forecastProduct i)) = pr_recommendedQty (forecastProduct i)"
  by (simp add: forecastProduct_def Let_def explainQty_qty)

end
