(* ===== verification/Transfers.thy ===== *)
theory Transfers
  imports Prelude
begin

text \<open>
  \<^verbatim>\<open>packages/forecast/src/transfers.ts\<close>: sizing whole-unit moves that level-fill every
  destination to one cover. Quantities are \<open>int\<close>, kept in a map by location id; the level,
  the run rates and the positions are \<open>real\<close>. The lemmas show that the level is exact, that
  the two integer passes conserve units, and what the drain leaves behind.
\<close>

definition NO_RATE_EPSILON :: real where "NO_RATE_EPSILON = 1 / 10000"
definition DEFAULT_COVER_DAYS :: int where "DEFAULT_COVER_DAYS = 14"
definition DEFAULT_WINDOW_DAYS :: int where "DEFAULT_WINDOW_DAYS = 90"
definition MIN_COVER_DAYS :: int where "MIN_COVER_DAYS = 1"
definition MAX_COVER_DAYS :: int where "MAX_COVER_DAYS = 180"
definition MIN_WINDOW_DAYS :: int where "MIN_WINDOW_DAYS = 7"
definition MAX_WINDOW_DAYS :: int where "MAX_WINDOW_DAYS = 365"
definition DRAIN_COVER_DAYS :: real where "DRAIN_COVER_DAYS = 21"
definition MIN_TRANSFER_UNITS :: real where "MIN_TRANSFER_UNITS = 3"
definition SLACK :: real where "SLACK = 1 / 10 ^ 9"

record transfer_options =
  to_drain :: "bool option"
  to_drainCoverDays :: "real option"
  to_minTransfer :: "real option"

record destination =
  dp_locationId :: string
  dp_onHand :: real
  dp_runRate :: real

record sized_transfer =
  st_toLocationId :: string
  st_qty :: int
  st_toOnHand :: real
  st_toRunRate :: real
  st_toDaysCoverBefore :: real
  st_toDaysCoverAfter :: real

definition shortfall :: "real \<Rightarrow> destination \<Rightarrow> real" where
  "shortfall level d = max 0 (dp_runRate d * level - dp_onHand d)"

text \<open>The cover a destination already has.\<close>

definition cover_now :: "destination \<Rightarrow> real" where
  "cover_now d = dp_onHand d / dp_runRate d"

fun fill_loop :: "real \<Rightarrow> real \<Rightarrow> real \<Rightarrow> destination list \<Rightarrow> real" where
  "fill_loop available rate onHand [] = 0"
| "fill_loop available rate onHand (p # ps) =
    (let rate' = rate + dp_runRate p;
         onHand' = onHand + dp_onHand p;
         level = (available + onHand') / rate'
     in case ps of [] \<Rightarrow> level
        | next' # _ \<Rightarrow> if level \<le> cover_now next' then level else fill_loop available rate' onHand' ps)"

definition fillLevel :: "destination list \<Rightarrow> real \<Rightarrow> real" where
  "fillLevel destinations available = fill_loop available 0 0 (sort_by (by_key cover_now) destinations)"

type_synonym qty_map = "(string \<times> int) list"

text \<open>A wanted line, with the fractional part that ranks it for the remainder.\<close>

type_synonym want = "destination \<times> real"

definition frac_of :: "want \<Rightarrow> real" where
  "frac_of w = snd w - of_int \<lfloor>snd w\<rfloor>"

definition by_remainder :: "want \<Rightarrow> want \<Rightarrow> bool" where
  "by_remainder = by_desc frac_of (by_desc (dp_runRate \<circ> fst) (by_key (dp_locationId \<circ> fst)))"

fun hand_out :: "int \<Rightarrow> want list \<Rightarrow> qty_map \<Rightarrow> qty_map" where
  "hand_out spare [] q = q"
| "hand_out spare (w # ws) q =
    (if spare \<le> 0 then q else hand_out (spare - 1) ws (bump (dp_locationId (fst w)) 1 q))"

definition cover_of :: "qty_map \<Rightarrow> destination \<Rightarrow> real" where
  "cover_of q d = (dp_onHand d + of_int (get0 q (dp_locationId d))) / dp_runRate d"

definition drain_better :: "qty_map \<Rightarrow> destination \<Rightarrow> destination \<Rightarrow> bool" where
  "drain_better q d best \<longleftrightarrow>
     cover_of q d < cover_of q best - SLACK \<or>
     (\<bar>cover_of q d - cover_of q best\<bar> < SLACK \<and>
       (dp_runRate best + SLACK < dp_runRate d \<or>
        (\<bar>dp_runRate d - dp_runRate best\<bar> < SLACK \<and> dp_locationId d < dp_locationId best)))"

definition drain_pick :: "real \<Rightarrow> qty_map \<Rightarrow> destination list \<Rightarrow> destination option" where
  "drain_pick drainCoverDays q candidates =
     fold (\<lambda>d best. if drainCoverDays \<le> cover_of q d then best
       else case best of None \<Rightarrow> Some d | Some b \<Rightarrow> if drain_better q d b then Some d else Some b)
     candidates None"

function drain_loop :: "real \<Rightarrow> destination list \<Rightarrow> int \<Rightarrow> qty_map \<Rightarrow> int \<times> qty_map" where
  "drain_loop drainCoverDays candidates surplus q =
    (if 0 < surplus
     then case drain_pick drainCoverDays q candidates of
            None \<Rightarrow> (surplus, q)
          | Some best \<Rightarrow> drain_loop drainCoverDays candidates (surplus - 1) (bump (dp_locationId best) 1 q)
     else (surplus, q))"
  by pat_completeness auto
termination by (relation "measure (\<lambda>(dc, cs, surplus, q). nat surplus)") auto

declare drain_loop.simps [simp del]

definition zero_map :: "destination list \<Rightarrow> qty_map" where
  "zero_map candidates = fold (\<lambda>d. AList.update (dp_locationId d) 0) candidates []"

definition set_floors :: "want list \<Rightarrow> qty_map \<Rightarrow> qty_map" where
  "set_floors = fold (\<lambda>w. AList.update (dp_locationId (fst w)) \<lfloor>snd w\<rfloor>)"

definition need_at :: "destination list \<Rightarrow> real \<Rightarrow> real" where
  "need_at candidates level = sum_list (map (shortfall level) candidates)"

definition fill_to :: "int \<Rightarrow> destination list \<Rightarrow> real \<Rightarrow> real" where
  "fill_to units candidates coverDays =
    (if need_at candidates coverDays \<le> of_int units then coverDays else fillLevel candidates (of_int units))"

definition wants_of :: "int \<Rightarrow> destination list \<Rightarrow> real \<Rightarrow> want list" where
  "wants_of units candidates coverDays =
     filter (\<lambda>w. 0 < snd w)
       (map (\<lambda>d. (d, if 0 < need_at candidates coverDays
                     then shortfall (fill_to units candidates coverDays) d else 0)) candidates)"

definition level_fill :: "int \<Rightarrow> destination list \<Rightarrow> real \<Rightarrow> qty_map" where
  "level_fill units candidates coverDays =
    (let wants = wants_of units candidates coverDays;
         budget = min units \<lfloor>sum_list (map snd wants) + SLACK\<rfloor>;
         q = set_floors wants (zero_map candidates);
         spare = budget - sum_list (alist_vals q)
     in hand_out spare (sort_by by_remainder wants) q)"

definition sized_line :: "real \<Rightarrow> real \<Rightarrow> qty_map \<Rightarrow> destination \<Rightarrow> sized_transfer" where
  "sized_line coverDays minTransfer q d =
    (let qty0 = get0 q (dp_locationId d);
         qty = (if 0 < qty0 \<and> of_int qty0 < minTransfer \<and> coverDays \<le> cover_now d then 0 else qty0)
     in \<lparr>st_toLocationId = dp_locationId d, st_qty = qty,
         st_toOnHand = dp_onHand d, st_toRunRate = dp_runRate d,
         st_toDaysCoverBefore = round1 (max 0 (dp_onHand d) / dp_runRate d),
         st_toDaysCoverAfter = round1 (max 0 (dp_onHand d + of_int qty) / dp_runRate d)\<rparr>)"

definition candidates_of :: "destination list \<Rightarrow> destination list" where
  "candidates_of = filter (\<lambda>d. NO_RATE_EPSILON < dp_runRate d)"

definition drained :: "int \<Rightarrow> destination list \<Rightarrow> real \<Rightarrow> transfer_options \<Rightarrow> qty_map" where
  "drained units candidates coverDays options =
    (let q = level_fill units candidates coverDays;
         surplus = units - sum_list (alist_vals q)
     in if nvl (to_drain options) True
        then snd (drain_loop (nvl (to_drainCoverDays options) DRAIN_COVER_DAYS) candidates surplus q)
        else q)"

definition sizeTransfers ::
  "real \<Rightarrow> destination list \<Rightarrow> real \<Rightarrow> transfer_options \<Rightarrow> sized_transfer list" where
  "sizeTransfers available destinations coverDays options =
    (let minTransfer = max 1 (nvl (to_minTransfer options) MIN_TRANSFER_UNITS);
         units = \<lfloor>max 0 available\<rfloor>;
         candidates = candidates_of destinations
     in if units \<le> 0 \<or> candidates = [] then []
        else filter (\<lambda>line. 0 < st_qty line)
          (map (sized_line coverDays minTransfer (drained units candidates coverDays options)) candidates))"

section \<open>Shares and clamps\<close>

datatype rate_basis = Attributed | Allocated | Even

record share_position =
  sh_locationId :: string
  sh_onHand :: real
  sh_attributedUnits :: real

definition share_map :: "(share_position \<Rightarrow> real) \<Rightarrow> share_position list \<Rightarrow> (string \<times> real) list" where
  "share_map f ds = fold (\<lambda>d. AList.update (sh_locationId d) (f d)) ds []"

definition destinationShares :: "share_position list \<Rightarrow> rate_basis \<times> (string \<times> real) list" where
  "destinationShares destinations =
    (let attributed = sum_list (map (\<lambda>d. max 0 (sh_attributedUnits d)) destinations);
         stocked = sum_list (map (\<lambda>d. max 0 (sh_onHand d)) destinations)
     in if 0 < attributed
        then (Attributed, share_map (\<lambda>d. max 0 (sh_attributedUnits d) / attributed) destinations)
        else if 0 < stocked
        then (Allocated, share_map (\<lambda>d. max 0 (sh_onHand d) / stocked) destinations)
        else (Even, share_map (\<lambda>_. if destinations \<noteq> [] then 1 / real (length destinations) else 0) destinations))"

definition clampCoverDays :: "jsnum option \<Rightarrow> int" where
  "clampCoverDays value =
    (case value of Some (Num v) \<Rightarrow> min MAX_COVER_DAYS (max MIN_COVER_DAYS (js_round v))
     | _ \<Rightarrow> DEFAULT_COVER_DAYS)"

definition clampWindowDays :: "jsnum option \<Rightarrow> int" where
  "clampWindowDays value =
    (case value of Some (Num v) \<Rightarrow> min MAX_WINDOW_DAYS (max MIN_WINDOW_DAYS (js_round v))
     | _ \<Rightarrow> DEFAULT_WINDOW_DAYS)"

section \<open>The level is exact\<close>

lemma shortfall_nonneg: "0 \<le> shortfall l d"
  by (simp add: shortfall_def)

lemma shortfall_below: "0 < dp_runRate d \<Longrightarrow> cover_now d \<le> l \<Longrightarrow> shortfall l d = dp_runRate d * l - dp_onHand d"
  by (simp add: shortfall_def cover_now_def divide_le_eq mult.commute)

lemma shortfall_above: "0 < dp_runRate d \<Longrightarrow> l \<le> cover_now d \<Longrightarrow> shortfall l d = 0"
  by (simp add: shortfall_def cover_now_def pos_le_divide_eq mult.commute)

lemma shortfall_mono: "0 < dp_runRate d \<Longrightarrow> l \<le> l' \<Longrightarrow> shortfall l d \<le> shortfall l' d"
  unfolding shortfall_def by (intro max.mono diff_right_mono mult_left_mono) auto

abbreviation rate_sum :: "destination list \<Rightarrow> real" where
  "rate_sum ds \<equiv> sum_list (map dp_runRate ds)"

abbreviation hand_sum :: "destination list \<Rightarrow> real" where
  "hand_sum ds \<equiv> sum_list (map dp_onHand ds)"

lemma need_below:
  "(\<And>d. d \<in> set ds \<Longrightarrow> 0 < dp_runRate d \<and> cover_now d \<le> l) \<Longrightarrow> need_at ds l = rate_sum ds * l - hand_sum ds"
  by (induction ds) (simp_all add: need_at_def shortfall_below algebra_simps)

lemma need_above:
  "(\<And>d. d \<in> set ds \<Longrightarrow> 0 < dp_runRate d \<and> l \<le> cover_now d) \<Longrightarrow> need_at ds l = 0"
  by (induction ds) (simp_all add: need_at_def shortfall_above)

lemma need_append: "need_at (xs @ ys) l = need_at xs l + need_at ys l"
  by (simp add: need_at_def)

lemma need_mset: "mset xs = mset ys \<Longrightarrow> need_at xs l = need_at ys l"
  unfolding need_at_def by (metis mset_map sum_mset_sum_list)

lemma rate_sum_pos: "ds \<noteq> [] \<Longrightarrow> (\<And>d. d \<in> set ds \<Longrightarrow> 0 < dp_runRate d) \<Longrightarrow> 0 < rate_sum ds"
  by (subst sum_list_pos_iff) (auto simp: less_imp_le intro: hd_in_set)

lemma fill_loop_exact:
  assumes "sorted_wrt (by_key cover_now) (qs @ ps)" and "ps \<noteq> []"
    and "\<And>d. d \<in> set (qs @ ps) \<Longrightarrow> 0 < dp_runRate d"
    and "cover_now (hd ps) * rate_sum qs \<le> available + hand_sum qs"
  shows "need_at (qs @ ps) (fill_loop available (rate_sum qs) (hand_sum qs) ps) = available"
  using assms
proof (induction ps arbitrary: qs)
  case (Cons p ps)
  let ?qs = "qs @ [p]"
  define level where "level = (available + hand_sum ?qs) / rate_sum ?qs"
  have R: "0 < rate_sum ?qs" by (rule rate_sum_pos) (use Cons.prems(3) in auto)
  have rp: "0 < dp_runRate p" using Cons.prems(3) by simp
  have "cover_now p * rate_sum ?qs \<le> available + hand_sum ?qs"
    using Cons.prems(4) rp by (simp add: cover_now_def algebra_simps)
  then have lp: "cover_now p \<le> level" using R by (simp add: level_def pos_le_divide_eq)
  have low: "0 < dp_runRate d \<and> cover_now d \<le> level" if "d \<in> set ?qs" for d
    using that Cons.prems(1,3) lp by (fastforce simp: sorted_wrt_append by_key_def)
  have fits: "need_at (qs @ p # ps) level = available"
    if "\<And>d. d \<in> set ps \<Longrightarrow> level \<le> cover_now d"
  proof -
    have "need_at (?qs @ ps) level = need_at ?qs level + need_at ps level" by (rule need_append)
    also have "need_at ps level = 0" by (rule need_above) (use that Cons.prems(3) in auto)
    also have "need_at ?qs level = rate_sum ?qs * level - hand_sum ?qs" by (rule need_below) (rule low)
    finally show ?thesis using R by (simp add: level_def)
  qed
  show ?case
  proof (cases ps)
    case Nil
    with fits show ?thesis by (simp add: level_def)
  next
    case (Cons n ns)
    show ?thesis
    proof (cases "level \<le> cover_now n")
      case True
      then have "level \<le> cover_now d" if "d \<in> set ps" for d
        using that Cons Cons.prems(1) by (fastforce simp: sorted_wrt_append by_key_def)
      with fits True Cons show ?thesis by (simp add: level_def Let_def add.commute add.left_commute)
    next
      case False
      then have "cover_now n * rate_sum ?qs \<le> available + hand_sum ?qs"
        using R by (simp add: level_def pos_divide_le_eq field_simps)
      with Cons.IH [of ?qs] Cons.prems Cons False show ?thesis
        by (simp add: level_def Let_def add.commute add.left_commute)
    qed
  qed
qed simp

theorem fillLevel_exact:
  assumes "ds \<noteq> []" and "\<And>d. d \<in> set ds \<Longrightarrow> 0 < dp_runRate d" and "0 \<le> available"
  shows "need_at ds (fillLevel ds available) = available"
proof -
  let ?s = "sort_by (by_key cover_now) ds"
  have "sorted_wrt (by_key cover_now) ?s"
    by (rule comparator.sorted_sort_by) (rule by_key_comparator)
  moreover have "?s \<noteq> []" using assms(1) by (metis length_sort_by length_0_conv)
  ultimately have "need_at ?s (fillLevel ds available) = available"
    using fill_loop_exact [of "[]" ?s available] assms(2,3) by (simp add: fillLevel_def)
  then show ?thesis by (simp add: need_mset [of ?s ds])
qed

section \<open>Units are conserved\<close>

text \<open>A quantity map over the candidates: one nonnegative entry for each.\<close>

abbreviation ids_of :: "destination list \<Rightarrow> string set" where
  "ids_of cs \<equiv> dp_locationId ` set cs"

definition wf_q :: "destination list \<Rightarrow> qty_map \<Rightarrow> bool" where
  "wf_q cs q \<longleftrightarrow> distinct (alist_keys q) \<and> set (alist_keys q) = ids_of cs \<and> (\<forall>k. 0 \<le> get0 q k)"

lemma wf_bump: "wf_q cs q \<Longrightarrow> k \<in> ids_of cs \<Longrightarrow> wf_q cs (bump k 1 q)"
  by (auto simp: wf_q_def distinct_bump keys_bump get0_bump simp del: set_map)

lemma zero_map_keys:
  "distinct (alist_keys m) \<Longrightarrow>
   distinct (alist_keys (fold (\<lambda>d. AList.update (dp_locationId d) 0) cs m)) \<and>
   set (alist_keys (fold (\<lambda>d. AList.update (dp_locationId d) 0) cs m)) = ids_of cs \<union> set (alist_keys m)"
  by (induction cs arbitrary: m) (auto simp: distinct_update keys_update simp del: set_map)

lemma zero_map_get0:
  "(\<And>k. get0 m k = 0) \<Longrightarrow> get0 (fold (\<lambda>d. AList.update (dp_locationId d) 0) cs m) k = (0::int)"
  by (induction cs arbitrary: m) (simp_all add: get0_def update_conv' nvl_def split: option.splits)

lemma zero_map_wf: "wf_q cs (zero_map cs)" and zero_map_zero: "get0 (zero_map cs) k = 0"
  using zero_map_keys [of "[] :: qty_map" cs] zero_map_get0 [of "[]" cs]
  by (simp_all add: wf_q_def zero_map_def get0_def [of "[]"] del: set_map)

lemma zero_map_sum: "sum_list (alist_vals (zero_map cs)) = 0"
  using zero_map_wf [of cs] by (simp add: wf_q_def sum_vals_get0 zero_map_zero del: set_map)

abbreviation floors :: "want list \<Rightarrow> int" where
  "floors ws \<equiv> sum_list (map (\<lambda>w. \<lfloor>snd w\<rfloor>) ws)"

lemma get0_update: "get0 (AList.update k v m) k' = (if k' = k then v else get0 m k')"
  by (simp add: get0_def update_conv')

lemma set_floors_get0:
  "distinct (map (dp_locationId \<circ> fst) ws) \<Longrightarrow>
   get0 (set_floors ws q) k =
     (case find (\<lambda>w. dp_locationId (fst w) = k) ws of Some w \<Rightarrow> \<lfloor>snd w\<rfloor> | None \<Rightarrow> get0 q k)"
proof (induction ws arbitrary: q)
  case (Cons w ws)
  have "find (\<lambda>x. dp_locationId (fst x) = dp_locationId (fst w)) ws = None"
    unfolding find_None_iff
  proof
    assume "\<exists>x. x \<in> set ws \<and> dp_locationId (fst x) = dp_locationId (fst w)"
    then obtain x where x: "x \<in> set ws" "(dp_locationId \<circ> fst) w = (dp_locationId \<circ> fst) x" by auto
    from imageI [OF x(1), of "dp_locationId \<circ> fst"] Cons.prems show False
      by (simp only: x(2) [symmetric]) simp
  qed
  with Cons show ?case by (auto simp: set_floors_def get0_update split: option.split)
qed (simp add: set_floors_def)

lemma set_floors_wf:
  "wf_q cs q \<Longrightarrow> (\<And>w. w \<in> set ws \<Longrightarrow> fst w \<in> set cs \<and> 0 \<le> snd w) \<Longrightarrow> wf_q cs (set_floors ws q)"
proof (induction ws arbitrary: q)
  case (Cons w ws)
  have "wf_q cs (AList.update (dp_locationId (fst w)) \<lfloor>snd w\<rfloor> q)"
    using Cons.prems(1) Cons.prems(2) [of w]
    by (auto simp: wf_q_def distinct_update keys_update get0_update simp del: set_map)
  with Cons show ?case by (simp add: set_floors_def)
qed (simp add: set_floors_def)

lemma set_floors_sum:
  "distinct (alist_keys q) \<Longrightarrow> distinct (map (dp_locationId \<circ> fst) ws) \<Longrightarrow>
   (\<And>w. w \<in> set ws \<Longrightarrow> get0 q (dp_locationId (fst w)) = 0) \<Longrightarrow>
   sum_list (alist_vals (set_floors ws q)) = sum_list (alist_vals q) + floors ws"
proof (induction ws arbitrary: q)
  case (Cons w ws)
  let ?q = "AList.update (dp_locationId (fst w)) \<lfloor>snd w\<rfloor> q"
  have "sum_list (alist_vals (set_floors ws ?q)) = sum_list (alist_vals ?q) + floors ws"
    using Cons.prems
    by (intro Cons.IH) (auto simp: distinct_update get0_update rev_image_eqI)
  with Cons.prems show ?case by (simp add: set_floors_def sum_list_update)
qed (simp add: set_floors_def)

lemma hand_out_wf: "wf_q cs q \<Longrightarrow> (\<And>w. w \<in> set ws \<Longrightarrow> fst w \<in> set cs) \<Longrightarrow> wf_q cs (hand_out spare ws q)"
  by (induction spare ws q rule: hand_out.induct) (auto simp: wf_bump)

lemma hand_out_sum:
  "distinct (alist_keys q) \<Longrightarrow>
   sum_list (alist_vals (hand_out spare ws q)) = sum_list (alist_vals q) + min (max 0 spare) (int (length ws))"
  by (induction spare ws q rule: hand_out.induct) (auto simp: distinct_bump sum_bump)

lemma drain_pick_in:
  "drain_pick dc q cs = Some b \<Longrightarrow> b \<in> set cs \<and> cover_of q b < dc"
proof -
  have "fold (\<lambda>d best. if dc \<le> cover_of q d then best
      else case best of None \<Rightarrow> Some d | Some b \<Rightarrow> if drain_better q d b then Some d else Some b) cs b0 = Some b \<Longrightarrow>
    (\<And>x. b0 = Some x \<Longrightarrow> x \<in> S \<and> cover_of q x < dc) \<Longrightarrow> b \<in> S \<union> set cs \<and> cover_of q b < dc" for b0 S
  proof (induction cs arbitrary: b0 S)
    case (Cons d cs)
    from Cons.IH [of _ "insert d S"] Cons.prems show ?case
      by (fastforce split: if_splits option.splits)
  qed auto
  from this [of None "{}"] show "drain_pick dc q cs = Some b \<Longrightarrow> b \<in> set cs \<and> cover_of q b < dc"
    by (simp add: drain_pick_def)
qed

lemma drain_pick_None: "drain_pick dc q cs = None \<Longrightarrow> d \<in> set cs \<Longrightarrow> dc \<le> cover_of q d"
proof -
  have some: "fold (\<lambda>d best. if dc \<le> cover_of q d then best
      else case best of None \<Rightarrow> Some d | Some b \<Rightarrow> if drain_better q d b then Some d else Some b) cs (Some x) \<noteq> None" for x cs
    by (induction cs arbitrary: x) auto
  show "drain_pick dc q cs = None \<Longrightarrow> d \<in> set cs \<Longrightarrow> dc \<le> cover_of q d"
    unfolding drain_pick_def by (induction cs) (auto simp: some split: if_splits)
qed

lemma drain_loop_spec:
  assumes "wf_q cs q" and "0 \<le> surplus" and "drain_loop dc cs surplus q = (left, q')"
  shows "wf_q cs q' \<and> 0 \<le> left \<and>
    sum_list (alist_vals q') + left = sum_list (alist_vals q) + surplus \<and>
    (\<forall>k. get0 q k \<le> get0 q' k) \<and>
    (left = 0 \<or> (\<forall>d \<in> set cs. dc \<le> cover_of q' d))"
  using assms
proof (induction dc cs surplus q rule: drain_loop.induct)
  case (1 dc cs surplus q)
  show ?case
  proof (cases "0 < surplus")
    case False
    with 1(4) have "left = surplus" "q' = q" by (simp_all add: drain_loop.simps [of dc cs surplus])
    with False 1(2,3) show ?thesis by simp
  next
    case True
    show ?thesis
    proof (cases "drain_pick dc q cs")
      case None
      with True 1(4) have "left = surplus" "q' = q" by (simp_all add: drain_loop.simps [of dc cs surplus])
      with None 1(2,3) show ?thesis by (auto dest: drain_pick_None)
    next
      case (Some b)
      let ?q = "bump (dp_locationId b) 1 q"
      have wf: "wf_q cs ?q" using 1(2) drain_pick_in [OF Some] by (auto intro: wf_bump)
      have "drain_loop dc cs (surplus - 1) ?q = (left, q')"
        using 1(4) True Some by (simp add: drain_loop.simps [of dc cs surplus])
      with 1(1) [OF True Some wf] True
      have *: "wf_q cs q' \<and> 0 \<le> left \<and>
        sum_list (alist_vals q') + left = sum_list (alist_vals ?q) + (surplus - 1) \<and>
        (\<forall>k. get0 ?q k \<le> get0 q' k) \<and> (left = 0 \<or> (\<forall>d \<in> set cs. dc \<le> cover_of q' d))" by simp
      have "get0 q k \<le> get0 ?q k" for k by (simp add: get0_bump)
      with * have "\<forall>k. get0 q k \<le> get0 q' k" by (metis order_trans)
      with * 1(2) show ?thesis by (simp add: wf_q_def sum_bump)
    qed
  qed
qed

text \<open>What the level asks for in total never exceeds what the source holds.\<close>

definition rated :: "destination list \<Rightarrow> bool" where
  "rated cs \<longleftrightarrow> distinct (map dp_locationId cs) \<and> (\<forall>d \<in> set cs. 0 < dp_runRate d)"

lemma need_fill_to:
  assumes "rated cs" and "cs \<noteq> []" and "0 \<le> units"
  shows "need_at cs (fill_to units cs cover) = min (need_at cs cover) (of_int units)"
  using fillLevel_exact [of cs "of_int units"] assms by (auto simp: fill_to_def rated_def min_def)

lemma wants_sum:
  assumes "rated cs" and "cs \<noteq> []" and "0 \<le> units"
  shows "sum_list (map snd (wants_of units cs cover)) = min (need_at cs cover) (of_int units)"
proof -
  have pos: "sum_list (map snd (filter (\<lambda>w. 0 < snd w) (map (\<lambda>d. (d, shortfall l d)) ds))) = need_at ds l" for l ds
    using shortfall_nonneg by (induction ds) (auto simp: need_at_def less_le)
  have nn: "0 \<le> need_at cs cover"
    unfolding need_at_def by (rule sum_list_nonneg_real) (rule shortfall_nonneg)
  show ?thesis
  proof (cases "0 < need_at cs cover")
    case True
    then show ?thesis by (simp add: wants_of_def pos need_fill_to [OF assms])
  next
    case False
    with nn assms(3) show ?thesis by (simp add: wants_of_def)
  qed
qed

lemma wants_set: "w \<in> set (wants_of units cs cover) \<Longrightarrow> fst w \<in> set cs \<and> 0 < snd w"
  by (auto simp: wants_of_def)

lemma wants_distinct: "rated cs \<Longrightarrow> distinct (map (dp_locationId \<circ> fst) (wants_of units cs cover))"
proof -
  have "distinct (map dp_locationId cs) \<Longrightarrow>
    distinct (map (dp_locationId \<circ> fst) (filter P (map (\<lambda>d. (d, f d)) cs)))" for P :: "want \<Rightarrow> bool" and f
    by (induction cs) auto
  then show "rated cs \<Longrightarrow> distinct (map (dp_locationId \<circ> fst) (wants_of units cs cover))"
    by (simp add: rated_def wants_of_def)
qed

lemma floors_le: "floors ws \<le> \<lfloor>sum_list (map snd ws)\<rfloor>"
proof (induction ws)
  case (Cons w ws) then show ?case by simp linarith
qed simp

lemma level_fill_spec:
  assumes "rated cs" and "cs \<noteq> []" and "0 \<le> units"
  shows "wf_q cs (level_fill units cs cover)"
    and "sum_list (alist_vals (level_fill units cs cover)) \<le> units"
proof -
  define ws where "ws = wants_of units cs cover"
  define q where "q = set_floors ws (zero_map cs)"
  define budget where "budget = min units \<lfloor>sum_list (map snd ws) + SLACK\<rfloor>"
  have lf: "level_fill units cs cover =
      hand_out (budget - sum_list (alist_vals q)) (sort_by by_remainder ws) q"
    by (simp add: level_fill_def Let_def ws_def q_def budget_def)
  have wfq: "wf_q cs q" unfolding q_def
    by (rule set_floors_wf [OF zero_map_wf]) (auto simp: ws_def dest: wants_set)
  then show "wf_q cs (level_fill units cs cover)"
    unfolding lf by (rule hand_out_wf) (auto simp: ws_def dest: wants_set)
  have "sum_list (alist_vals q) = floors ws"
    using set_floors_sum [of "zero_map cs" ws] zero_map_wf [of cs] wants_distinct [OF assms(1)]
    by (simp add: q_def wf_q_def zero_map_sum zero_map_zero ws_def)
  also have "floors ws \<le> budget"
  proof -
    have "floors ws \<le> \<lfloor>sum_list (map snd ws)\<rfloor>" by (rule floors_le)
    moreover have "sum_list (map snd ws) \<le> of_int units"
      using wants_sum [OF assms] by (simp add: ws_def)
    moreover have "(0::real) \<le> SLACK" by (simp add: SLACK_def)
    ultimately show ?thesis unfolding budget_def by linarith
  qed
  finally have "sum_list (alist_vals (level_fill units cs cover)) \<le> budget"
    using wfq by (simp add: lf hand_out_sum wf_q_def)
  then show "sum_list (alist_vals (level_fill units cs cover)) \<le> units"
    by (simp add: budget_def)
qed

lemma drained_spec:
  assumes "rated cs" and "cs \<noteq> []" and "0 \<le> units"
  shows "wf_q cs (drained units cs cover opts)"
    and "sum_list (alist_vals (drained units cs cover opts)) \<le> units"
    and "nvl (to_drain opts) True \<Longrightarrow>
      sum_list (alist_vals (drained units cs cover opts)) = units \<or>
      (\<forall>d \<in> set cs. nvl (to_drainCoverDays opts) DRAIN_COVER_DAYS \<le> cover_of (drained units cs cover opts) d)"
proof -
  let ?q = "level_fill units cs cover"
  let ?dc = "nvl (to_drainCoverDays opts) DRAIN_COVER_DAYS"
  obtain left q' where dl: "drain_loop ?dc cs (units - sum_list (alist_vals ?q)) ?q = (left, q')"
    by (metis surj_pair)
  have d: "drained units cs cover opts = (if nvl (to_drain opts) True then q' else ?q)"
    by (simp add: drained_def Let_def dl)
  note lf = level_fill_spec [OF assms, of cover]
  have spec: "wf_q cs q' \<and> 0 \<le> left \<and> sum_list (alist_vals q') + left = units \<and>
      (left = 0 \<or> (\<forall>d \<in> set cs. ?dc \<le> cover_of q' d))"
    using drain_loop_spec [OF lf(1) _ dl] lf(2) by simp
  show "wf_q cs (drained units cs cover opts)" using d spec lf by simp
  show "sum_list (alist_vals (drained units cs cover opts)) \<le> units" using d spec lf by auto
  assume "nvl (to_drain opts) True"
  with d spec show "sum_list (alist_vals (drained units cs cover opts)) = units \<or>
      (\<forall>d \<in> set cs. ?dc \<le> cover_of (drained units cs cover opts) d)" by auto
qed

lemma rated_candidates: "distinct (map dp_locationId ds) \<Longrightarrow> rated (candidates_of ds)"
  by (auto simp: rated_def candidates_of_def NO_RATE_EPSILON_def distinct_map_filter intro: less_trans [rotated])

lemma line_qty_le: "0 \<le> get0 q (dp_locationId d) \<Longrightarrow> st_qty (sized_line cover mt q d) \<le> get0 q (dp_locationId d)"
  by (simp add: sized_line_def Let_def)

lemma sum_filter_le:
  "(\<And>x. x \<in> set xs \<Longrightarrow> f (g x) \<le> h x) \<Longrightarrow> (\<And>x. x \<in> set xs \<Longrightarrow> 0 \<le> h x) \<Longrightarrow>
   sum_list (map f (filter P (map g xs))) \<le> sum_list (map h xs)" for h :: "'a \<Rightarrow> int"
  by (induction xs) (auto intro: add_mono add_increasing)

text \<open>A plan never moves more than the source holds.\<close>

lemma sizeTransfers_sum:
  assumes "distinct (map dp_locationId ds)"
  shows "of_int (sum_list (map st_qty (sizeTransfers available ds cover opts))) \<le> max 0 available"
proof -
  define units where "units = \<lfloor>max 0 available\<rfloor>"
  define cs where "cs = candidates_of ds"
  show ?thesis
  proof (cases "units \<le> 0 \<or> cs = []")
    case True
    then show ?thesis by (auto simp: sizeTransfers_def units_def cs_def Let_def)
  next
    case False
    define q where "q = drained units cs cover opts"
    have rt: "rated cs" unfolding cs_def by (rule rated_candidates) (rule assms)
    note ds = drained_spec [OF rt, where units = units and cover = cover and opts = opts, folded q_def]
    from False ds have wf: "wf_q cs q" and le: "sum_list (alist_vals q) \<le> units" by auto
    have "sizeTransfers available ds cover opts = filter (\<lambda>line. 0 < st_qty line)
        (map (sized_line cover (max 1 (nvl (to_minTransfer opts) MIN_TRANSFER_UNITS)) q) cs)"
      using False by (simp add: sizeTransfers_def units_def cs_def q_def Let_def)
    then have "sum_list (map st_qty (sizeTransfers available ds cover opts)) \<le>
        sum_list (map (\<lambda>d. get0 q (dp_locationId d)) cs)"
      using wf by (simp only:) (intro sum_filter_le line_qty_le, auto simp: wf_q_def)
    also have "\<dots> = (\<Sum>k \<in> ids_of cs. get0 q k)"
      using rt sum_list_distinct_conv_sum_set [of "map dp_locationId cs" "get0 q"]
      by (simp add: rated_def comp_def)
    also have "\<dots> = sum_list (alist_vals q)"
      using wf by (simp add: wf_q_def sum_vals_get0 del: set_map)
    finally have "sum_list (map st_qty (sizeTransfers available ds cover opts)) \<le> units" using le by simp
    then show ?thesis unfolding units_def by linarith
  qed
qed

text \<open>Every line is a positive move to a destination with a measured rate.\<close>

lemma sizeTransfers_line:
  assumes "l \<in> set (sizeTransfers available ds cover opts)"
  shows "0 < st_qty l \<and> (\<exists>d \<in> set ds. NO_RATE_EPSILON < dp_runRate d \<and> dp_locationId d = st_toLocationId l)"
  using assms by (auto simp: sizeTransfers_def Let_def candidates_of_def sized_line_def split: if_splits)

section \<open>Shares\<close>

lemma share_map_sum:
  assumes "distinct (map sh_locationId ds)"
  shows "sum_list (alist_vals (share_map f ds)) = sum_list (map f ds)"
proof -
  have "distinct (alist_keys m) \<Longrightarrow> distinct (map sh_locationId es) \<Longrightarrow>
    set (map sh_locationId es) \<inter> set (alist_keys m) = {} \<Longrightarrow>
    sum_list (alist_vals (fold (\<lambda>d. AList.update (sh_locationId d) (f d)) es m)) =
      sum_list (alist_vals m) + sum_list (map f es)" for es m
  proof (induction es arbitrary: m)
    case (Cons e es)
    have "get0 m (sh_locationId e) = 0" using Cons.prems(3) by (intro get0_notin) (auto simp del: set_map)
    with Cons show ?case
      by (auto simp: distinct_update keys_update sum_list_update simp del: set_map)
  qed simp
  from this [of "[]" ds] assms show ?thesis by (simp add: share_map_def)
qed

lemma sum_list_divide: "sum_list (map (\<lambda>d. f d / c) ds) = sum_list (map f ds) / c" for f :: "'a \<Rightarrow> real"
  by (induction ds) (simp_all add: add_divide_distrib)

lemma destinationShares_sum:
  assumes "distinct (map sh_locationId ds)" and "ds \<noteq> []"
  shows "sum_list (alist_vals (snd (destinationShares ds))) = 1"
  using assms by (auto simp: destinationShares_def Let_def share_map_sum sum_list_divide sum_list_triv)

lemma clamp_ranges:
  "MIN_COVER_DAYS \<le> clampCoverDays v \<and> clampCoverDays v \<le> MAX_COVER_DAYS"
  "MIN_WINDOW_DAYS \<le> clampWindowDays v \<and> clampWindowDays v \<le> MAX_WINDOW_DAYS"
  by (auto simp: clampCoverDays_def clampWindowDays_def MIN_COVER_DAYS_def MAX_COVER_DAYS_def
      MIN_WINDOW_DAYS_def MAX_WINDOW_DAYS_def DEFAULT_COVER_DAYS_def DEFAULT_WINDOW_DAYS_def
      split: option.splits jsnum.splits)

end
