(* ===== verification/Planner.thy ===== *)
theory Planner
  imports Policy
begin

text \<open>
  The buy-list decisions of \<^verbatim>\<open>packages/forecast/src\<close> that rank and pick: \<^verbatim>\<open>allocate.ts\<close>
  (budget), \<^verbatim>\<open>spot-check.ts\<close>, \<^verbatim>\<open>latest-run.ts\<close> and \<^verbatim>\<open>recommendations.ts\<close>. The lemmas give
  the budget's guarantees, the independence of a pick from the order of its input, and the
  floor under a discounted price.
\<close>

section \<open>The budget\<close>

record allocatable =
  al_cost :: real
  al_urgency :: string

record 'a allocation =
  an_selected :: "'a list"
  an_deferred :: "'a list"
  an_usedKes :: real

text \<open>One greedy pass: what fits is selected, the rest deferred, in order.\<close>

fun greedy :: "('a \<Rightarrow> real) \<Rightarrow> real \<Rightarrow> 'a list \<Rightarrow> 'a allocation \<Rightarrow> 'a allocation" where
  "greedy cost budget [] a = a"
| "greedy cost budget (s # ss) a =
    (if an_usedKes a + cost s \<le> budget
     then greedy cost budget ss (a\<lparr>an_selected := an_selected a @ [s], an_usedKes := an_usedKes a + cost s\<rparr>)
     else greedy cost budget ss (a\<lparr>an_deferred := an_deferred a @ [s]\<rparr>))"

definition is_critical :: "allocatable \<Rightarrow> bool" where
  "is_critical s = (al_urgency s = ''critical'')"

definition allocateByBudget :: "allocatable list \<Rightarrow> real option \<Rightarrow> bool \<Rightarrow> allocatable allocation" where
  "allocateByBudget scored budgetKes strict =
    (case budgetKes of
       None \<Rightarrow> \<lparr>an_selected = scored, an_deferred = [], an_usedKes = sum_list (map al_cost scored)\<rparr>
     | Some budget \<Rightarrow>
        if strict
        then greedy al_cost budget scored \<lparr>an_selected = [], an_deferred = [], an_usedKes = 0\<rparr>
        else let criticals = filter is_critical scored
             in greedy al_cost budget (filter (\<lambda>s. \<not> is_critical s) scored)
                  \<lparr>an_selected = criticals, an_deferred = [], an_usedKes = sum_list (map al_cost criticals)\<rparr>)"

lemma greedy_mset:
  "mset (an_selected (greedy c b ss a)) + mset (an_deferred (greedy c b ss a)) =
   mset (an_selected a) + mset (an_deferred a) + mset ss"
  by (induction c b ss a rule: greedy.induct) simp_all

lemma greedy_used:
  "an_usedKes a = sum_list (map c (an_selected a)) \<Longrightarrow>
   an_usedKes (greedy c b ss a) = sum_list (map c (an_selected (greedy c b ss a)))"
  by (induction c b ss a rule: greedy.induct) simp_all

lemma greedy_budget: "an_usedKes a \<le> b \<Longrightarrow> an_usedKes (greedy c b ss a) \<le> b"
  by (induction c b ss a rule: greedy.induct) simp_all

lemma greedy_prefix: "\<exists>xs. an_selected (greedy c b ss a) = an_selected a @ xs \<and> set xs \<subseteq> set ss"
proof (induction c b ss a rule: greedy.induct)
  case (2 c b s ss a) then show ?case by (cases "an_usedKes a + c s \<le> b") fastforce+
qed simp

lemma greedy_used_mono:
  "(\<And>s. s \<in> set ss \<Longrightarrow> 0 \<le> c s) \<Longrightarrow> an_usedKes a \<le> an_usedKes (greedy c b ss a)"
proof (induction c b ss a rule: greedy.induct)
  case (2 c b s ss a)
  show ?case
  proof (cases "an_usedKes a + c s \<le> b")
    case True
    with 2(1) 2(3) have "an_usedKes a + c s \<le> an_usedKes (greedy c b (s # ss) a)" by simp
    with 2(3) [of s] show ?thesis by simp
  qed (use 2 in simp)
qed simp

text \<open>What is deferred would not have fitted in the money left at the end.\<close>

lemma greedy_deferred:
  "(\<And>s. s \<in> set ss \<Longrightarrow> 0 \<le> c s) \<Longrightarrow> d \<in> set (an_deferred (greedy c b ss a)) \<Longrightarrow>
   d \<in> set (an_deferred a) \<or> b < an_usedKes (greedy c b ss a) + c d"
proof (induction c b ss a rule: greedy.induct)
  case (2 c b s ss a)
  show ?case
  proof (cases "an_usedKes a + c s \<le> b")
    case True
    with 2(1) 2(3,4) show ?thesis by simp
  next
    case False
    have "an_usedKes a \<le> an_usedKes (greedy c b ss (a\<lparr>an_deferred := an_deferred a @ [s]\<rparr>))"
      using greedy_used_mono [of ss c "a\<lparr>an_deferred := an_deferred a @ [s]\<rparr>" b] 2(3) by simp
    with False 2(2) 2(3,4) show ?thesis by auto
  qed
qed simp

section \<open>Spot checks and the run to show\<close>

record spot_candidate =
  sc_id :: string
  sc_runRate :: real
  sc_currentStock :: real
  sc_valueKes :: real

definition SPOT_CHECK_COUNT :: nat where "SPOT_CHECK_COUNT = 5"

definition by_spot :: "spot_candidate \<Rightarrow> spot_candidate \<Rightarrow> bool" where
  "by_spot = by_desc sc_valueKes (by_desc sc_runRate (by_key sc_id))"

definition selectSpotChecks :: "spot_candidate list \<Rightarrow> nat \<Rightarrow> spot_candidate list" where
  "selectSpotChecks products count' =
     take count' (sort_by by_spot (filter (\<lambda>p. 0 < sc_runRate p \<and> 0 < sc_currentStock p) products))"

interpretation spot: comparator by_spot
  unfolding by_spot_def by (intro chain_comparators)

record run_count =
  rc_forecastRunId :: string
  rc_count :: int

definition run_floor :: "run_count list \<Rightarrow> real" where
  "run_floor runs = of_int (fold max (map rc_count runs) (rc_count (hd runs))) / 2"

definition ai_rank :: "string set \<Rightarrow> real \<Rightarrow> run_count \<Rightarrow> int" where
  "ai_rank aiRunIds floor' r = (if rc_forecastRunId r \<in> aiRunIds \<and> floor' \<le> of_int (rc_count r) then 1 else 0)"

definition by_best_run :: "string set \<Rightarrow> real \<Rightarrow> run_count \<Rightarrow> run_count \<Rightarrow> bool" where
  "by_best_run aiRunIds floor' =
     by_desc (ai_rank aiRunIds floor') (by_desc rc_count (by_key rc_forecastRunId))"

definition pickBestRun :: "run_count list \<Rightarrow> string set \<Rightarrow> string option" where
  "pickBestRun runs aiRunIds =
    (if runs = [] then None
     else Some (rc_forecastRunId (hd (sort_by (by_best_run aiRunIds (run_floor runs)) runs))))"

interpretation best_run: strict_comparator "by_best_run ai fl" for ai fl
proof -
  have "comparator (by_best_run ai fl)" unfolding by_best_run_def by (intro chain_comparators)
  moreover have "a = b" if "by_best_run ai fl a b" "by_best_run ai fl b a" for a b
    using that by (auto simp: by_best_run_def by_desc_def by_key_def)
  ultimately show "strict_comparator (by_best_run ai fl)"
    by (simp add: strict_comparator_def strict_comparator_axioms_def)
qed

lemma run_floor_perm:
  assumes "mset xs = mset ys" and "xs \<noteq> []"
  shows "run_floor xs = run_floor ys"
proof -
  have m: "fold max (map rc_count zs) (rc_count (hd zs)) = Max (rc_count ` set zs)" if "zs \<noteq> []" for zs
    using that Max.set_eq_fold [of "rc_count (hd zs)" "map rc_count zs", symmetric]
    by (cases zs) simp_all
  have "ys \<noteq> []" "set xs = set ys" using assms by (auto dest: mset_eq_setD)
  with assms show ?thesis by (simp add: run_floor_def m)
qed

lemma pickBestRun_perm: "mset xs = mset ys \<Longrightarrow> pickBestRun xs ai = pickBestRun ys ai"
proof (cases "xs = []")
  case False
  assume m: "mset xs = mset ys"
  with False have "ys \<noteq> []" by auto
  with False m show ?thesis
    using best_run.sort_by_perm [OF m] run_floor_perm [OF m False] by (simp add: pickBestRun_def)
qed (simp add: pickBestRun_def)

lemma selectSpotChecks_perm:
  assumes "mset xs = mset ys" and "distinct (map sc_id xs)"
  shows "selectSpotChecks xs n = selectSpotChecks ys n"
proof -
  let ?P = "\<lambda>p. 0 < sc_runRate p \<and> 0 < sc_currentStock p"
  have "a = b" if "a \<in> set xs" "b \<in> set xs" "by_spot a b" "by_spot b a" for a b
  proof -
    have "sc_id a = sc_id b" using that(3,4) by (auto simp: by_spot_def by_desc_def by_key_def)
    with assms(2) that(1,2) show ?thesis by (auto simp: distinct_map dest: inj_onD)
  qed
  then have "sort_by by_spot (filter ?P xs) = sort_by by_spot (filter ?P ys)"
    using assms(1) by (intro spot.sort_by_perm_on) (auto simp: mset_filter)
  then show ?thesis by (simp add: selectSpotChecks_def)
qed

section \<open>Recommendations\<close>

definition OVERSTOCK_COVER_DAYS :: real where "OVERSTOCK_COVER_DAYS = 90"
definition MIN_PRICE_OVER_COST :: real where "MIN_PRICE_OVER_COST = 1.05"
definition MIN_DISCOUNT_PCT :: int where "MIN_DISCOUNT_PCT = 10"

datatype recommendation_action = StopReorder | Discount | Bundle | ClearOut

record recommendation_product =
  rp_productId :: string
  rp_title :: string
  rp_abc :: "string option"
  rp_category :: "string option"
  rp_onHand :: real
  rp_costKes :: real
  rp_priceKes :: real
  rp_runRate :: real
  rp_dead :: bool
  rp_daysSinceSale :: "real option"
  rp_plannedQty :: real

datatype idle_why = NeverSold int | NoSaleFor int real | CoverTooLong int real int

datatype recommendation_payload =
    PlannedQty real | Units int | NewPrice int int int | PairWith string string

record recommendation =
  rm_productId :: string
  rm_action :: recommendation_action
  rm_cashKes :: real
  rm_idleUnits :: int
  rm_why :: idle_why
  rm_payload :: recommendation_payload

text \<open>The comparison \<open>(daysSinceSale ?? Infinity) >= bound\<close>.\<close>

definition stale_for :: "real option \<Rightarrow> real \<Rightarrow> bool" where
  "stale_for d bound = (case d of None \<Rightarrow> True | Some x \<Rightarrow> bound \<le> x)"

definition discount_target :: "recommendation_product \<Rightarrow> real \<Rightarrow> real" where
  "discount_target p windowDays =
    (if \<not> rp_dead p then 10
     else if stale_for (rp_daysSinceSale p) (windowDays * 1.5) then 30 else 20)"

definition max_by_margin :: "recommendation_product \<Rightarrow> real \<Rightarrow> real" where
  "max_by_margin p target =
    (if 0 < rp_costKes p
     then (1 - (rp_costKes p * MIN_PRICE_OVER_COST) / rp_priceKes p) * 100 else target)"

definition suggestedDiscountPct :: "recommendation_product \<Rightarrow> real \<Rightarrow> int option" where
  "suggestedDiscountPct p windowDays =
    (if rp_priceKes p \<le> 0 then None
     else let target = discount_target p windowDays;
              pct = \<lfloor>min target (max_by_margin p target) / 5\<rfloor> * 5
          in if MIN_DISCOUNT_PCT \<le> pct then Some pct else None)"

definition anchors_of :: "recommendation_product list \<Rightarrow> (string \<times> recommendation_product) list" where
  "anchors_of products =
     fold (\<lambda>p m. if nvl (rp_category p) [] = [] \<or> rp_abc p \<noteq> Some ''A'' \<or> rp_onHand p \<le> 0 \<or> rp_dead p then m
       else let c = nvl (rp_category p) []
            in case map_of m c of
                 None \<Rightarrow> AList.update c p m
               | Some cur \<Rightarrow> if rp_runRate cur < rp_runRate p then AList.update c p m else m)
     products []"

definition overstock_of :: "recommendation_product \<Rightarrow> overstock_result" where
  "overstock_of p = overstockExcess (rp_onHand p) (rp_runRate p) (rp_costKes p) OVERSTOCK_COVER_DAYS"

definition idle_units :: "recommendation_product \<Rightarrow> int" where
  "idle_units p = (if rp_dead p then \<lfloor>rp_onHand p\<rfloor> else \<lfloor>os_excessUnits (overstock_of p)\<rfloor>)"

definition is_idle :: "recommendation_product \<Rightarrow> bool" where
  "is_idle p \<longleftrightarrow> \<not> rp_onHand p \<le> 0 \<and> (rp_dead p \<or> os_isOverstock (overstock_of p)) \<and> \<not> idle_units p \<le> 0"

definition why_of :: "recommendation_product \<Rightarrow> idle_why" where
  "why_of p =
    (if rp_dead p
     then (case rp_daysSinceSale p of None \<Rightarrow> NeverSold (idle_units p) | Some d \<Rightarrow> NoSaleFor (idle_units p) d)
     else CoverTooLong (js_round (nvl (os_coverDays (overstock_of p)) 0)) (rp_runRate p) (idle_units p))"

definition stop_reorder :: "recommendation_product \<Rightarrow> recommendation list" where
  "stop_reorder p =
    (if 0 < rp_plannedQty p
     then [\<lparr>rm_productId = rp_productId p, rm_action = StopReorder,
            rm_cashKes = rp_plannedQty p * max 0 (rp_costKes p), rm_idleUnits = idle_units p,
            rm_why = why_of p, rm_payload = PlannedQty (rp_plannedQty p)\<rparr>]
     else [])"

definition free_cash ::
  "(string \<times> recommendation_product) list \<Rightarrow> real \<Rightarrow> recommendation_product \<Rightarrow> recommendation list" where
  "free_cash anchors windowDays p =
    (let idleCash = of_int (idle_units p) * max 0 (rp_costKes p);
         longDead = (rp_dead p \<and> stale_for (rp_daysSinceSale p) (windowDays * 2));
         anchor = (case rp_category p of None \<Rightarrow> None | Some c \<Rightarrow> if c = [] then None else map_of anchors c);
         rec' = (\<lambda>action payload. \<lparr>rm_productId = rp_productId p, rm_action = action, rm_cashKes = idleCash,
            rm_idleUnits = idle_units p, rm_why = why_of p, rm_payload = payload\<rparr>)
     in case suggestedDiscountPct p windowDays of
          None \<Rightarrow> if longDead then [rec' ClearOut (Units (idle_units p))]
            else (case anchor of None \<Rightarrow> []
              | Some a \<Rightarrow> if rp_productId a \<noteq> rp_productId p
                  then [rec' Bundle (PairWith (rp_productId a) (rp_title a))] else [])
        | Some pct \<Rightarrow>
            [rec' Discount (NewPrice pct (js_round (rp_priceKes p * (1 - of_int pct / 100)))
               (js_round (rp_priceKes p)))])"

definition by_cash :: "recommendation \<Rightarrow> recommendation \<Rightarrow> bool" where
  "by_cash = by_desc rm_cashKes (\<lambda>a b. rm_idleUnits b \<le> rm_idleUnits a)"

definition recommendFor :: "recommendation_product list \<Rightarrow> real \<Rightarrow> recommendation list" where
  "recommendFor products windowDays =
    (let anchors = anchors_of products
     in sort_by by_cash (concat (map (\<lambda>p.
          if is_idle p then stop_reorder p @ free_cash anchors windowDays p else []) products)))"

interpretation cash: comparator by_cash
  unfolding by_cash_def by (rule by_desc_comparator) (unfold_locales, auto)

text \<open>A suggested discount never takes the price below the floor over cost.\<close>

lemma suggestedDiscountPct_some:
  "suggestedDiscountPct p w = Some pct \<Longrightarrow> 0 < rp_priceKes p \<and> 10 \<le> pct \<and> 5 dvd pct \<and>
     of_int pct \<le> min (discount_target p w) (max_by_margin p (discount_target p w))"
proof -
  define x where "x = min (discount_target p w) (max_by_margin p (discount_target p w))"
  define k where "k = \<lfloor>x / 5\<rfloor>"
  assume "suggestedDiscountPct p w = Some pct"
  then have "0 < rp_priceKes p \<and> pct = k * 5 \<and> 10 \<le> pct"
    unfolding suggestedDiscountPct_def Let_def x_def [symmetric] k_def [symmetric] MIN_DISCOUNT_PCT_def
    by (simp split: if_splits)
  moreover have "of_int (k * 5) \<le> x" unfolding k_def by (simp only: of_int_mult of_int_numeral) linarith
  ultimately show ?thesis by (simp add: x_def)
qed

lemma suggestedDiscountPct_range:
  assumes "suggestedDiscountPct p w = Some pct"
  shows "10 \<le> pct \<and> pct \<le> 30 \<and> 5 dvd pct"
proof -
  have "discount_target p w \<le> 30" by (simp add: discount_target_def)
  with suggestedDiscountPct_some [OF assms] show ?thesis by linarith
qed

lemma suggestedDiscountPct_margin:
  assumes "suggestedDiscountPct p w = Some pct" and "0 < rp_costKes p"
  shows "1.05 * rp_costKes p \<le> rp_priceKes p * (1 - of_int pct / 100)"
proof -
  let ?q = "(rp_costKes p * MIN_PRICE_OVER_COST) / rp_priceKes p"
  note sm = suggestedDiscountPct_some [OF assms(1)]
  then have price: "0 < rp_priceKes p" and "of_int pct \<le> max_by_margin p (discount_target p w)" by simp_all
  with assms(2) have "of_int pct \<le> (1 - ?q) * 100" by (simp add: max_by_margin_def)
  then have "?q \<le> 1 - of_int pct / 100" by (simp only: pos_divide_le_eq [symmetric] zero_less_numeral le_diff_eq
        add.commute)
  with price show ?thesis by (simp add: pos_divide_le_eq MIN_PRICE_OVER_COST_def mult.commute)
qed

definition rec_for :: "recommendation_product \<Rightarrow> recommendation \<Rightarrow> bool" where
  "rec_for p r \<longleftrightarrow> rm_productId r = rp_productId p \<and> rm_idleUnits r = idle_units p \<and> 0 \<le> rm_cashKes r"

lemma stop_reorder_for: "r \<in> set (stop_reorder p) \<Longrightarrow> rec_for p r"
  by (auto simp: stop_reorder_def rec_for_def split: if_splits)

lemma free_cash_for: "0 < idle_units p \<Longrightarrow> r \<in> set (free_cash an w p) \<Longrightarrow> rec_for p r"
  by (simp add: free_cash_def Let_def rec_for_def split: option.splits if_splits)

lemma recommendFor_idle:
  assumes "r \<in> set (recommendFor ps w)"
  shows "\<exists>p \<in> set ps. is_idle p \<and> rec_for p r"
proof -
  from assms obtain p where "p \<in> set ps" "is_idle p"
    "r \<in> set (stop_reorder p) \<union> set (free_cash (anchors_of ps) w p)"
    by (auto simp only: recommendFor_def Let_def set_sort_by set_concat set_map set_append split: if_splits)
      simp_all
  moreover from this have "0 < idle_units p" by (simp add: is_idle_def)
  ultimately show ?thesis using stop_reorder_for free_cash_for by blast
qed

lemma recommendFor_sorted: "sorted_wrt by_cash (recommendFor ps w)"
  unfolding recommendFor_def Let_def by (rule cash.sorted_sort_by)

end
