(* ===== verification/Locations.thy ===== *)
theory Locations
  imports Prelude
begin

text \<open>
  \<^verbatim>\<open>packages/db/src/roles.ts\<close>, \<^verbatim>\<open>inventory.ts\<close> and \<^verbatim>\<open>product-lifecycle.ts\<close>: which
  locations count, which quantity of a level can be sold, and the one label a catalogue row
  carries. Stored enum values are the strings of the database.
\<close>

section \<open>Roles\<close>

datatype location_role = Sells | Holds | Enroute | Ignore

definition roleOfType :: "string option \<Rightarrow> location_role" where
  "roleOfType locationType =
    (if locationType = Some ''warehouse'' then Holds
     else if locationType = Some ''enroute'' then Enroute
     else if locationType = Some ''virtual'' then Ignore
     else Sells)"

fun typeOfRole :: "location_role \<Rightarrow> string" where
  "typeOfRole Holds = ''warehouse''"
| "typeOfRole Enroute = ''enroute''"
| "typeOfRole Ignore = ''virtual''"
| "typeOfRole Sells = ''branch''"

definition isSellable :: "string option \<Rightarrow> bool" where
  "isSellable locationType \<longleftrightarrow> roleOfType locationType = Sells"

definition isHolds :: "string option \<Rightarrow> bool" where
  "isHolds locationType \<longleftrightarrow> roleOfType locationType = Holds"

definition isEnroute :: "string option \<Rightarrow> bool" where
  "isEnroute locationType \<longleftrightarrow> roleOfType locationType = Enroute"

definition isIgnore :: "string option \<Rightarrow> bool" where
  "isIgnore locationType \<longleftrightarrow> roleOfType locationType = Ignore"

text \<open>A regular expression that is a literal, and one with an optional blank or dash inside.\<close>

fun has_prefix :: "string \<Rightarrow> string \<Rightarrow> bool" where
  "has_prefix [] s = True"
| "has_prefix (c # cs) [] = False"
| "has_prefix (c # cs) (d # ds) = (c = d \<and> has_prefix cs ds)"

fun contains :: "string \<Rightarrow> string \<Rightarrow> bool" where
  "contains p [] = has_prefix p []"
| "contains p (c # cs) = (has_prefix p (c # cs) \<or> contains p cs)"

fun contains_split :: "string \<Rightarrow> string \<Rightarrow> string \<Rightarrow> bool" where
  "contains_split p q [] = False"
| "contains_split p q (c # cs) =
    ((has_prefix p (c # cs) \<and>
      (let r = drop (length p) (c # cs)
       in has_prefix q r \<or> (r \<noteq> [] \<and> (is_blank (hd r) \<or> hd r = CHR ''-'') \<and> has_prefix q (tl r))))
     \<or> contains_split p q cs)"

definition guessRoleFromName :: "string option \<Rightarrow> location_role" where
  "guessRoleFromName name =
    (let n = js_lower (nvl name [])
     in if js_trim n = [] then Sells
        else if contains ''incoming'' n \<or> contains_split ''en'' ''route'' n \<or> contains ''transit'' n then Enroute
        else if contains ''warehouse'' n \<or> contains ''godown'' n \<or> contains ''depot'' n \<or>
                contains_split ''store'' ''room'' n \<or> contains_split ''stock'' ''room'' n \<or>
                contains ''storage'' n then Holds
        else if contains ''return'' n \<or> contains ''damage'' n \<or> contains_split ''write'' ''off'' n \<or>
                contains ''disposal'' n \<or> contains ''virtual'' n \<or> contains ''legacy'' n then Ignore
        else Sells)"

lemma roleOfType_typeOfRole [simp]: "roleOfType (Some (typeOfRole r)) = r"
  by (cases r) (simp_all add: roleOfType_def)

lemma roles_partition:
  "(if isSellable t then 1 else 0) + (if isHolds t then 1 else 0) +
   (if isEnroute t then 1 else 0) + (if isIgnore t then 1 else 0 :: nat) = 1"
  by (cases "roleOfType t") (simp_all add: isSellable_def isHolds_def isEnroute_def isIgnore_def)

section \<open>Quantities\<close>

record inventory_level =
  il_locationId :: string
  il_productId :: string
  il_onHand :: int
  il_available :: "int option"

definition sellableUnits :: "inventory_level \<Rightarrow> int" where
  "sellableUnits level = nvl (il_available level) (il_onHand level)"

definition committedUnits :: "inventory_level \<Rightarrow> int" where
  "committedUnits level =
    (case il_available level of None \<Rightarrow> 0 | Some a \<Rightarrow> max 0 (il_onHand level - a))"

lemma sellable_committed:
  "(\<And>a. il_available l = Some a \<Longrightarrow> a \<le> il_onHand l) \<Longrightarrow> sellableUnits l + committedUnits l = il_onHand l"
  by (auto simp: sellableUnits_def committedUnits_def split: option.split)

section \<open>The catalogue row\<close>

record lifecycle_input =
  li_active :: bool
  li_notForSale :: bool
  li_shopifyStatus :: string
  li_publishedAt :: "date option"
  li_missingFromShopifyAt :: "date option"

datatype product_lifecycle = LActive | Unlisted | LDraft | Archived | Removed | NotForSale | Deactivated

definition productLifecycle :: "lifecycle_input \<Rightarrow> product_lifecycle" where
  "productLifecycle p =
    (if li_missingFromShopifyAt p \<noteq> None then Removed
     else if li_shopifyStatus p = ''archived'' then Archived
     else if li_shopifyStatus p = ''draft'' then LDraft
     else if li_notForSale p then NotForSale
     else if \<not> li_active p then Deactivated
     else if li_publishedAt p = None then Unlisted
     else LActive)"

definition isBuyable :: "lifecycle_input \<Rightarrow> bool" where
  "isBuyable p = (let life = productLifecycle p in life = LActive \<or> life = Unlisted)"

definition buyable_where :: "lifecycle_input \<Rightarrow> bool" where
  "buyable_where p \<longleftrightarrow> li_active p \<and> \<not> li_notForSale p \<and> li_missingFromShopifyAt p = None \<and>
     li_shopifyStatus p \<notin> {''draft'', ''archived''}"

definition heldReason :: "lifecycle_input \<Rightarrow> string option" where
  "heldReason p =
    (case productLifecycle p of
       Removed \<Rightarrow> Some ''Gone from your store, so there is nothing to plan for it''
     | Archived \<Rightarrow> Some ''Archived in your store''
     | LDraft \<Rightarrow> Some ''Still a draft in your store''
     | NotForSale \<Rightarrow> Some ''Marked not for sale''
     | Deactivated \<Rightarrow> Some ''Deactivated''
     | _ \<Rightarrow> None)"

lemma isBuyable_where: "isBuyable p \<longleftrightarrow> buyable_where p"
  by (auto simp: isBuyable_def productLifecycle_def buyable_where_def Let_def)

lemma heldReason_None: "heldReason p = None \<longleftrightarrow> isBuyable p"
  by (cases "productLifecycle p") (simp_all add: heldReason_def isBuyable_def)

end
