(* ===== verification/PoModel.thy ===== *)
theory PoModel
  imports Locations Policy
begin

text \<open>
  The pure part of \<^verbatim>\<open>apps/web/lib/po\<close>: \<^verbatim>\<open>po-math.ts\<close> (order quantities to lines),
  \<^verbatim>\<open>po-number.ts\<close> (the numbering), \<^verbatim>\<open>po-model.ts\<close> (the document and lateness) and
  \<^verbatim>\<open>supplier-stats.ts\<close> (the scorecard). Quantities of a stored line are \<open>int\<close>, money is
  \<open>real\<close>, a status is the datatype of the strings the schema lists.
\<close>

section \<open>Lines\<close>

record line_input =
  ln_productId :: string
  ln_sku :: string
  ln_title :: string
  ln_qty :: real
  ln_unitCostKes :: real

record line_plan =
  lp_productId :: string
  lp_sku :: string
  lp_title :: string
  lp_quantity :: int
  lp_unitCostKes :: real
  lp_lineTotalKes :: real
  lp_recommendedQty :: int

definition merge_lines :: "line_input list \<Rightarrow> (string \<times> line_input) list" where
  "merge_lines inputs =
     fold (\<lambda>i m. case map_of m (ln_productId i) of
             Some e \<Rightarrow> AList.update (ln_productId i) (e\<lparr>ln_qty := ln_qty e + ln_qty i\<rparr>) m
           | None \<Rightarrow> AList.update (ln_productId i) i m) inputs []"

definition plan_line :: "real \<Rightarrow> line_input \<Rightarrow> line_plan" where
  "plan_line moq l =
    (let recommendedQty = max 1 \<lceil>ln_qty l\<rceil>;
         quantity = applyMoq (ln_qty l) moq
     in \<lparr>lp_productId = ln_productId l, lp_sku = ln_sku l, lp_title = ln_title l,
         lp_quantity = quantity, lp_unitCostKes = ln_unitCostKes l,
         lp_lineTotalKes = of_int quantity * ln_unitCostKes l,
         lp_recommendedQty = recommendedQty\<rparr>)"

definition buildPoLines :: "line_input list \<Rightarrow> real \<Rightarrow> line_plan list" where
  "buildPoLines inputs moq = map (plan_line moq) (alist_vals (merge_lines inputs))"

definition subtotal :: "real list \<Rightarrow> real" where
  "subtotal lineTotals = sum_list lineTotals"

section \<open>Numbers\<close>

definition is_digit :: "char \<Rightarrow> bool" where
  "is_digit c \<longleftrightarrow> 48 \<le> char_code c \<and> char_code c \<le> 57"

definition is_letter :: "char \<Rightarrow> bool" where
  "is_letter c \<longleftrightarrow> (65 \<le> char_code c \<and> char_code c \<le> 90) \<or> (97 \<le> char_code c \<and> char_code c \<le> 122)"

definition digit_char :: "nat \<Rightarrow> char" where
  "digit_char d = char_of (48 + d)"

text \<open>\<open>String(n)\<close>, \<open>parseInt(s, 10)\<close> on digits, and \<open>padStart(4, "0")\<close>.\<close>

fun show_nat :: "nat \<Rightarrow> string" where
  "show_nat n = (if n < 10 then [digit_char n] else show_nat (n div 10) @ [digit_char (n mod 10)])"

declare show_nat.simps [simp del]

definition parse_digits :: "string \<Rightarrow> nat" where
  "parse_digits = foldl (\<lambda>a c. a * 10 + (char_code c - 48)) 0"

definition pad4 :: "string \<Rightarrow> string" where
  "pad4 s = replicate (4 - length s) (CHR ''0'') @ s"

text \<open>The regular expression \<open>/^PO-(\d{1,9})(?:[A-Z]{1,5})?$/i\<close> on a trimmed number.\<close>

definition plain_po :: "string \<Rightarrow> nat option" where
  "plain_po n =
    (let t = js_trim n;
         r = drop 3 t;
         ds = takeWhile is_digit r;
         rest = dropWhile is_digit r
     in if js_upper (take 3 t) = ''PO-'' \<and> 1 \<le> length ds \<and> length ds \<le> 9 \<and>
           length rest \<le> 5 \<and> list_all is_letter rest
        then Some (parse_digits ds) else None)"

definition max_plain :: "string list \<Rightarrow> nat \<Rightarrow> nat" where
  "max_plain existing m0 = fold (\<lambda>n m. case plain_po n of Some k \<Rightarrow> max m k | None \<Rightarrow> m) existing m0"

definition nextPoNumber :: "string list \<Rightarrow> int \<Rightarrow> string" where
  "nextPoNumber existing floor' = ''PO-'' @ pad4 (show_nat (max_plain existing (nat (max 0 floor')) + 1))"

section \<open>Rows\<close>

datatype po_status =
  Draft | Sent | PartiallyReceived | Received | Cancelled | AwaitingQb | Confirmed

record po_line =
  pl_id :: string
  pl_productId :: string
  pl_sku :: string
  pl_title :: string
  pl_quantity :: int
  pl_unitCostKes :: real
  pl_lineTotalKes :: real
  pl_recommendedQty :: "int option"
  pl_receivedQty :: int
  pl_receivedAt :: "date option"

record purchase_order =
  po_id :: string
  po_supplierId :: "string option"
  po_poNumber :: string
  po_status :: po_status
  po_currency :: string
  po_subtotalKes :: real
  po_createdAt :: date
  po_sentAt :: "date option"
  po_expectedAt :: "date option"
  po_receivedAt :: "date option"
  po_cancelledAt :: "date option"
  po_cancelledByName :: "string option"
  po_deletedAt :: "date option"
  po_createdByName :: "string option"
  po_lines :: "po_line list"

section \<open>The document\<close>

record po_document_line =
  dl_sku :: string
  dl_title :: string
  dl_quantity :: int
  dl_unitCostKes :: "real option"
  dl_lineTotalKes :: "real option"

record doc_supplier =
  dsu_name :: string
  dsu_email :: "string option"
  dsu_country :: "string option"

record po_document =
  pd_poNumber :: string
  pd_status :: po_status
  pd_createdAt :: date
  pd_sentAt :: "date option"
  pd_expectedAt :: "date option"
  pd_currency :: string
  pd_shopName :: string
  pd_supplier :: "doc_supplier option"
  pd_lines :: "po_document_line list"
  pd_subtotalKes :: "real option"
  pd_totalUnits :: int
  pd_createdByName :: "string option"

definition masked :: "bool \<Rightarrow> real \<Rightarrow> real option" where
  "masked canViewCosts x = (if canViewCosts then Some x else None)"

definition buildPoDocument ::
  "purchase_order \<Rightarrow> doc_supplier option \<Rightarrow> string \<Rightarrow> bool \<Rightarrow> po_document" where
  "buildPoDocument po supplier shopName canViewCosts =
    \<lparr>pd_poNumber = po_poNumber po, pd_status = po_status po, pd_createdAt = po_createdAt po,
     pd_sentAt = po_sentAt po, pd_expectedAt = po_expectedAt po, pd_currency = po_currency po,
     pd_shopName = shopName, pd_supplier = supplier,
     pd_lines = map (\<lambda>l. \<lparr>dl_sku = pl_sku l, dl_title = pl_title l, dl_quantity = pl_quantity l,
        dl_unitCostKes = masked canViewCosts (pl_unitCostKes l),
        dl_lineTotalKes = masked canViewCosts (pl_lineTotalKes l)\<rparr>) (po_lines po),
     pd_subtotalKes = masked canViewCosts (po_subtotalKes po),
     pd_totalUnits = sum_list (map pl_quantity (po_lines po)),
     pd_createdByName = po_createdByName po\<rparr>"

text \<open>The server's local midnight is taken at a fixed offset \<open>tz\<close> (ms) from UTC.\<close>

definition isPoLate :: "int \<Rightarrow> po_status \<Rightarrow> date option \<Rightarrow> date option \<Rightarrow> date \<Rightarrow> bool" where
  "isPoLate tz status expectedAt receivedAt now =
    (case expectedAt of None \<Rightarrow> False
     | Some e \<Rightarrow>
        if receivedAt \<noteq> None then False
        else if status \<noteq> Sent \<and> status \<noteq> PartiallyReceived then False
        else dayKeyOf (e + tz) + DAY_MS - tz \<le> now)"

section \<open>The supplier scorecard\<close>

record scorable_po =
  sp_sentAt :: "date option"
  sp_expectedAt :: "date option"
  sp_receivedAt :: "date option"
  sp_lines :: "(int \<times> int) list" \<comment> \<open>(quantity, receivedQty)\<close>

datatype on_time_status = Scored | NoDeliveries | AwaitingCompletion | NoPromisedDate

record supplier_score =
  ss_deliveredPos :: int
  ss_onTimePct :: "int option"
  ss_onTimeStatus :: on_time_status
  ss_fillRatePct :: "int option"
  ss_learnedLeadDays :: "int option"

definition actualLeadDays :: "date \<Rightarrow> date \<Rightarrow> int" where
  "actualLeadDays sentAt receivedAt = max 0 (ms_days (receivedAt - sentAt))"

definition leadTimeStats :: "int list \<Rightarrow> (int \<times> int option) option" where
  "leadTimeStats samples =
    (if samples = [] then None
     else let n = real (length samples);
              avg = of_int (sum_list samples) / n
          in if length samples < 2 then Some (js_round avg, None)
             else let variance = sum_list (map (\<lambda>d. (of_int d - avg)\<^sup>2) samples) / (n - 1)
                  in Some (js_round avg, Some (js_round (sqrt variance))))"

definition was_sent :: "scorable_po \<Rightarrow> bool" where
  "was_sent po \<longleftrightarrow> sp_sentAt po \<noteq> None"

definition any_receipt :: "scorable_po \<Rightarrow> bool" where
  "any_receipt po \<longleftrightarrow> (\<exists>l \<in> set (sp_lines po). 0 < snd l)"

definition judged :: "scorable_po \<Rightarrow> bool" where
  "judged po \<longleftrightarrow> sp_receivedAt po \<noteq> None \<and> sp_expectedAt po \<noteq> None"

definition on_time :: "scorable_po \<Rightarrow> bool" where
  "on_time po \<longleftrightarrow> judged po \<and> the (sp_receivedAt po) \<le> the (sp_expectedAt po)"

definition share_pct :: "int \<Rightarrow> int \<Rightarrow> int option" where
  "share_pct part whole = (if 0 < whole then Some (js_round (of_int part / of_int whole * 100)) else None)"

definition computeSupplierScore :: "scorable_po list \<Rightarrow> supplier_score" where
  "computeSupplierScore pos =
    (let sent = filter was_sent pos;
         delivered = filter any_receipt sent;
         units = concat (map sp_lines delivered);
         orderedUnits = sum_list (map fst units);
         receivedUnits = sum_list (map (\<lambda>(q, r). min r q) units);
         leadSamples = map (\<lambda>po. actualLeadDays (the (sp_sentAt po)) (the (sp_receivedAt po)))
           (filter (\<lambda>po. sp_receivedAt po \<noteq> None) sent);
         etaJudged = int (length (filter judged sent));
         onTime = int (length (filter on_time sent))
     in \<lparr>ss_deliveredPos = int (length delivered),
         ss_onTimePct = share_pct onTime etaJudged,
         ss_onTimeStatus =
           (if 0 < etaJudged then Scored
            else if delivered = [] then NoDeliveries
            else if leadSamples = [] then AwaitingCompletion else NoPromisedDate),
         ss_fillRatePct = share_pct receivedUnits orderedUnits,
         ss_learnedLeadDays = map_option fst (leadTimeStats leadSamples)\<rparr>)"

section \<open>Merging and sizing\<close>

abbreviation qty_of_product :: "line_input list \<Rightarrow> string \<Rightarrow> real" where
  "qty_of_product is' p \<equiv> sum_list (map ln_qty (filter (\<lambda>i. ln_productId i = p) is'))"

lemma merge_lines_inv:
  "distinct (alist_keys (merge_lines is')) \<and>
   map_of (merge_lines is') p =
     (case find (\<lambda>i. ln_productId i = p) is' of None \<Rightarrow> None
      | Some i \<Rightarrow> Some (i\<lparr>ln_qty := qty_of_product is' p\<rparr>))"
proof (induction is' arbitrary: p rule: rev_induct)
  case Nil show ?case by (simp add: merge_lines_def)
next
  case (snoc i is')
  let ?m = "merge_lines is'"
  have step: "merge_lines (is' @ [i]) =
    (case map_of ?m (ln_productId i) of
       Some e \<Rightarrow> AList.update (ln_productId i) (e\<lparr>ln_qty := ln_qty e + ln_qty i\<rparr>) ?m
     | None \<Rightarrow> AList.update (ln_productId i) i ?m)"
    by (subst merge_lines_def) (simp add: merge_lines_def [symmetric] cong: option.case_cong)
  have app: "find (\<lambda>i. ln_productId i = p) (is' @ [i]) =
    (case find (\<lambda>i. ln_productId i = p) is' of Some x \<Rightarrow> Some x
     | None \<Rightarrow> if ln_productId i = p then Some i else None)" for p
    by (induction is') auto
  have none: "find (\<lambda>i. ln_productId i = p) is' = None \<Longrightarrow> qty_of_product is' p = 0" for p
    by (induction is') (auto split: if_splits)
  show ?case
    using snoc [of p] snoc [of "ln_productId i"]
    by (auto simp: step app update_conv' distinct_update none simp del: map_of_eq_Some_iff split: option.split)
qed

lemma merge_lines_keys: "set (alist_keys (merge_lines is')) = ln_productId ` set is'"
proof -
  have "p \<in> set (alist_keys (merge_lines is')) \<longleftrightarrow> p \<in> ln_productId ` set is'" for p
  proof -
    have "p \<in> set (alist_keys (merge_lines is')) \<longleftrightarrow> map_of (merge_lines is') p \<noteq> None"
      by (simp add: map_of_eq_None_iff)
    also have "\<dots> \<longleftrightarrow> find (\<lambda>i. ln_productId i = p) is' \<noteq> None"
      using merge_lines_inv [of is' p] by (auto split: option.split)
    also have "\<dots> \<longleftrightarrow> p \<in> ln_productId ` set is'" by (auto simp: find_None_iff)
    finally show ?thesis .
  qed
  then show ?thesis by blast
qed

text \<open>A merged entry carries the key it is stored under.\<close>

lemma merge_lines_entry:
  assumes "(p, l) \<in> set (merge_lines is')"
  shows "ln_productId l = p \<and> ln_qty l = qty_of_product is' p \<and>
    (\<exists>i \<in> set is'. ln_productId i = p \<and> l = i\<lparr>ln_qty := qty_of_product is' p\<rparr>)"
proof -
  have "map_of (merge_lines is') p = Some l"
    using assms conjunct1 [OF merge_lines_inv [of is' p]] by (metis map_of_is_SomeI)
  with merge_lines_inv [of is' p] obtain i where
    f: "find (\<lambda>i. ln_productId i = p) is' = Some i" and l: "l = i\<lparr>ln_qty := qty_of_product is' p\<rparr>"
    by (auto split: option.splits)
  from f have "i \<in> set is' \<and> ln_productId i = p" by (auto simp: find_Some_iff)
  with l show ?thesis by auto
qed

lemma buildPoLines_ids: "map lp_productId (buildPoLines is' moq) = alist_keys (merge_lines is')"
proof -
  have "lp_productId (plan_line moq (snd e)) = fst e" if "e \<in> set (merge_lines is')" for e
    using merge_lines_entry [of "fst e" "snd e"] that by (simp add: plan_line_def Let_def)
  then show ?thesis by (simp add: buildPoLines_def)
qed

lemma buildPoLines_distinct: "distinct (map lp_productId (buildPoLines is' moq))"
  using merge_lines_inv [of is'] by (simp add: buildPoLines_ids)

lemma buildPoLines_products: "lp_productId ` set (buildPoLines is' moq) = ln_productId ` set is'"
  by (metis buildPoLines_ids merge_lines_keys set_map)

lemma buildPoLines_line:
  assumes "l \<in> set (buildPoLines is' moq)"
  shows "lp_quantity l = applyMoq (qty_of_product is' (lp_productId l)) moq \<and>
    lp_recommendedQty l = max 1 \<lceil>qty_of_product is' (lp_productId l)\<rceil> \<and>
    lp_lineTotalKes l = of_int (lp_quantity l) * lp_unitCostKes l"
proof -
  from assms obtain p i where e: "(p, i) \<in> set (merge_lines is')" and l: "l = plan_line moq i"
    by (auto simp: buildPoLines_def)
  from merge_lines_entry [OF e] show ?thesis by (simp add: l plan_line_def Let_def)
qed

section \<open>The next number is fresh\<close>

lemma char_code_digit [simp]: "d < 10 \<Longrightarrow> char_code (digit_char d) = 48 + d"
  by (simp add: char_code_def digit_char_def)

lemma is_digit_char [simp]: "d < 10 \<Longrightarrow> is_digit (digit_char d)"
  by (simp add: is_digit_def)

lemma show_nat_digits: "list_all is_digit (show_nat n)"
  by (induction n rule: show_nat.induct) (subst show_nat.simps, auto)

lemma show_nat_nonempty: "show_nat n \<noteq> []"
  by (subst show_nat.simps) simp

lemma parse_digits_snoc: "parse_digits (s @ [c]) = parse_digits s * 10 + (char_code c - 48)"
  by (simp add: parse_digits_def)

lemma parse_show: "parse_digits (show_nat n) = n"
proof (induction n rule: show_nat.induct)
  case (1 n)
  show ?case
  proof (cases "n < 10")
    case True then show ?thesis by (subst show_nat.simps) (simp add: parse_digits_def)
  next
    case False
    with 1 show ?thesis by (subst show_nat.simps) (simp add: parse_digits_snoc)
  qed
qed

lemma show_nat_length: "n < 10 ^ k \<Longrightarrow> 1 \<le> k \<Longrightarrow> length (show_nat n) \<le> k"
proof (induction n arbitrary: k rule: show_nat.induct)
  case (1 n)
  show ?case
  proof (cases "n < 10")
    case True with 1 show ?thesis by (subst show_nat.simps) simp
  next
    case False
    then obtain j where k: "k = Suc (Suc j)"
      using 1(2,3) by (metis One_nat_def Suc_le_D le_SucE not_less_eq_eq power_one_right le_zero_eq not0_implies_Suc)
    have "n div 10 < 10 ^ Suc j" using 1(2) by (simp add: k div_less_iff_less_mult)
    with 1(1) [OF False, of "Suc j"] False show ?thesis by (subst show_nat.simps) (simp add: k)
  qed
qed

lemma parse_pad: "parse_digits (replicate j (CHR ''0'') @ s) = parse_digits s"
  by (induction j) (simp_all add: parse_digits_def char_code_def)

lemma js_trim_id: "s \<noteq> [] \<Longrightarrow> \<not> is_blank (hd s) \<Longrightarrow> \<not> is_blank (last s) \<Longrightarrow> js_trim s = s"
proof -
  have d: "dropWhile is_blank xs = xs" if "xs \<noteq> []" "\<not> is_blank (hd xs)" for xs
    using that by (cases xs) simp_all
  assume "s \<noteq> []" "\<not> is_blank (hd s)" "\<not> is_blank (last s)"
  then show ?thesis by (simp add: js_trim_def d hd_rev)
qed

lemma pad4_digits: "list_all is_digit s \<Longrightarrow> list_all is_digit (pad4 s)"
  by (auto simp: pad4_def list_all_iff is_digit_def char_code_def)

lemma plain_po_number:
  assumes "n < 10 ^ 9"
  shows "plain_po (''PO-'' @ pad4 (show_nat n)) = Some n"
proof -
  let ?d = "pad4 (show_nat n)"
  have dig: "\<forall>c \<in> set ?d. is_digit c" using pad4_digits [OF show_nat_digits] by (simp add: list_all_iff)
  have ne: "?d \<noteq> []" using show_nat_nonempty by (simp add: pad4_def)
  have "\<not> is_blank (last ?d)" using dig ne last_in_set [OF ne] by (fastforce simp: is_digit_def is_blank_def)
  then have tr: "js_trim (''PO-'' @ ?d) = ''PO-'' @ ?d"
    using ne by (intro js_trim_id) (simp_all add: is_blank_def char_code_def)
  have len: "length ?d \<le> 9" using show_nat_length [OF assms] by (simp add: pad4_def)
  have tw: "takeWhile is_digit ?d = ?d" "dropWhile is_digit ?d = []"
    using dig by (simp_all add: takeWhile_eq_all_conv dropWhile_eq_Nil_conv)
  have "parse_digits ?d = n" by (simp add: pad4_def parse_pad parse_show)
  moreover have "1 \<le> length ?d" using ne by (simp add: Suc_le_eq)
  moreover have "js_upper ''PO-'' = ''PO-''" by (simp add: js_upper_def char_code_def)
  ultimately show ?thesis using len unfolding plain_po_def Let_def tr by (simp add: tw)
qed

lemma max_plain_Cons:
  "max_plain (n # ns) m0 = max_plain ns (case plain_po n of Some k \<Rightarrow> max m0 k | None \<Rightarrow> m0)"
  by (simp add: max_plain_def)

lemma max_plain_start: "m0 \<le> max_plain ns m0"
proof (induction ns arbitrary: m0)
  case (Cons n ns)
  have "m0 \<le> (case plain_po n of Some k \<Rightarrow> max m0 k | None \<Rightarrow> m0)" by (simp split: option.split)
  also have "\<dots> \<le> max_plain (n # ns) m0" unfolding max_plain_Cons by (rule Cons)
  finally show ?case .
qed (simp add: max_plain_def)

lemma max_plain_ge: "n \<in> set ns \<Longrightarrow> plain_po n = Some k \<Longrightarrow> k \<le> max_plain ns m0"
proof (induction ns arbitrary: m0)
  case (Cons x xs)
  show ?case
  proof (cases "n = x")
    case True
    with Cons.prems(2) max_plain_start [of "max m0 k" xs] show ?thesis by (simp add: max_plain_Cons)
  qed (use Cons in \<open>simp add: max_plain_Cons\<close>)
qed simp

lemma nextPoNumber_parses:
  "max_plain ns (nat (max 0 f)) + 1 < 10 ^ 9 \<Longrightarrow>
   plain_po (nextPoNumber ns f) = Some (max_plain ns (nat (max 0 f)) + 1)"
  unfolding nextPoNumber_def by (rule plain_po_number)

lemma nextPoNumber_notin:
  assumes "max_plain ns (nat (max 0 f)) + 1 < 10 ^ 9"
  shows "nextPoNumber ns f \<notin> set ns"
proof
  assume "nextPoNumber ns f \<in> set ns"
  from max_plain_ge [OF this nextPoNumber_parses [OF assms], of "nat (max 0 f)"] show False by simp
qed

section \<open>Documents, lateness and scores\<close>

lemma document_masks:
  "pd_subtotalKes (buildPoDocument po s n False) = None"
  "l \<in> set (pd_lines (buildPoDocument po s n False)) \<Longrightarrow> dl_unitCostKes l = None \<and> dl_lineTotalKes l = None"
  by (auto simp: buildPoDocument_def masked_def)

lemma isPoLate_awaits: "isPoLate tz st e r now \<Longrightarrow> r = None \<and> (st = Sent \<or> st = PartiallyReceived)"
  by (auto simp: isPoLate_def split: option.splits if_splits)

lemma isPoLate_mono: "isPoLate tz st e r now \<Longrightarrow> now \<le> now' \<Longrightarrow> isPoLate tz st e r now'"
  by (auto simp: isPoLate_def split: option.splits if_splits)

lemma isPoLate_after: "isPoLate tz st (Some e) r now \<Longrightarrow> e < now"
  using dayKeyOf_less [of "e + tz"] by (auto simp: isPoLate_def split: if_splits)

lemma share_pct_range: "share_pct a b = Some p \<Longrightarrow> 0 \<le> a \<Longrightarrow> a \<le> b \<Longrightarrow> 0 \<le> p \<and> p \<le> 100"
proof -
  assume a: "share_pct a b = Some p" "0 \<le> a" "a \<le> b"
  then have b: "0 < b" by (auto simp: share_pct_def split: if_splits)
  define y where "y = real_of_int a / of_int b * 100"
  have "real_of_int a / of_int b \<le> 1" "0 \<le> real_of_int a / of_int b" using a b by simp_all
  then have "0 \<le> y" unfolding y_def by (intro mult_nonneg_nonneg) simp_all
  have "y \<le> 1 * 100" unfolding y_def by (rule mult_right_mono) (rule \<open>_ \<le> 1\<close>, simp)
  then have "y \<le> of_int 100" by simp
  then have "0 \<le> js_round y" "js_round y \<le> 100"
    using \<open>0 \<le> y\<close> js_round_mono [of y "of_int 100"] by (simp_all only: js_round_of_int js_round_nonneg)
  moreover have "p = js_round y" using a b by (simp add: share_pct_def y_def)
  ultimately show ?thesis by simp
qed

lemma filter_length_le: "(\<And>x. P x \<Longrightarrow> Q x) \<Longrightarrow> length (filter P xs) \<le> length (filter Q xs)"
  by (induction xs) auto

lemma score_on_time_range:
  assumes "ss_onTimePct (computeSupplierScore pos) = Some p"
  shows "0 \<le> p \<and> p \<le> 100"
proof -
  let ?s = "filter was_sent pos"
  have "length (filter on_time ?s) \<le> length (filter judged ?s)"
    by (rule filter_length_le) (simp add: on_time_def)
  then show ?thesis using assms
    by (intro share_pct_range [of "int (length (filter on_time ?s))" "int (length (filter judged ?s))"])
      (simp_all add: computeSupplierScore_def Let_def)
qed

lemma score_fill_range:
  assumes "ss_fillRatePct (computeSupplierScore pos) = Some p"
    and "\<And>po l. po \<in> set pos \<Longrightarrow> l \<in> set (sp_lines po) \<Longrightarrow> 0 \<le> fst l \<and> 0 \<le> snd l"
  shows "0 \<le> p \<and> p \<le> 100"
proof -
  define u where "u = concat (map sp_lines (filter any_receipt (filter was_sent pos)))"
  have nn: "0 \<le> fst l \<and> 0 \<le> snd l" if "l \<in> set u" for l
  proof -
    from that obtain po where "po \<in> set pos" "l \<in> set (sp_lines po)" by (auto simp: u_def)
    then show ?thesis by (rule assms(2))
  qed
  then have "0 \<le> sum_list (map (\<lambda>(q, r). min r q) u) \<and>
      sum_list (map (\<lambda>(q, r). min r q) u) \<le> sum_list (map fst u)"
    by (induction u) (auto simp: split_beta intro: add_mono)
  then show ?thesis using assms(1)
    by (intro share_pct_range [of "sum_list (map (\<lambda>(q, r). min r q) u)" "sum_list (map fst u)"])
      (simp_all add: computeSupplierScore_def Let_def u_def)
qed

lemma score_status: "ss_onTimeStatus (computeSupplierScore pos) = Scored \<longleftrightarrow> ss_onTimePct (computeSupplierScore pos) \<noteq> None"
  by (simp add: computeSupplierScore_def Let_def share_pct_def)

end
