(* ===== verification/PoStore.thy ===== *)
theory PoStore
  imports PoModel
begin

text \<open>
  The tables of one workspace that purchase orders live in, and the operations of
  \<^verbatim>\<open>apps/web/lib/po\<close> that create, edit, send and cancel an order. A table is the list of its
  rows (row-level security scopes every query to one tenant, so the model is one tenant's
  store); \<open>findFirst\<close> is \<open>find\<close>, \<open>updateMany\<close> maps the matching rows and its count is
  their number. A transaction that rolls back returns the store it was given. Ids are drawn
  from the database's generator and the clock is an argument, as is what the email seam
  answered. Operations that read before their transaction are split into the read on one
  store and the write on a later one, and composed on a single store for the atomic run.
\<close>

section \<open>Rows and tables\<close>

datatype order_status = OPending | OOrdered | OCompleted | OCancelled

record order_row =
  or_id :: string
  or_status :: order_status
  or_productId :: "string option"
  or_purchaseOrderId :: "string option"
  or_orderedQty :: "int option"
  or_orderedAt :: "date option"
  or_expectedArrivalAt :: "date option"
  or_receivedAt :: "date option"
  or_stockAtOrder :: "real option"

record product_row =
  pw_id :: string
  pw_sku :: string
  pw_title :: string
  pw_costKes :: real
  pw_currentStock :: real
  pw_supplierId :: "string option"

record supplier_row =
  su_id :: string
  su_name :: string
  su_email :: "string option"
  su_country :: "string option"
  su_leadTimeAvgDays :: "int option"
  su_moq :: int

record location_row =
  lo_id :: string
  lo_shopifyLocationId :: "string option"
  lo_locationType :: "string option"

datatype audit_action =
    PoCreated string "string option" nat \<comment> \<open>number, supplier (none for one made by hand), lines\<close>
  | PoOrdered string string "date option" \<comment> \<open>number, to, expected\<close>
  | PoCancelled
  | PoQtyChanged string int int real \<comment> \<open>line, from, to, subtotal\<close>
  | PoLineRemoved string nat real
  | PoReceived string int po_status bool
  | PoReceiptReversed string int po_status bool
  | QueueRowDeleted "string option" "int option"

record tenant_store =
  ts_orders :: "order_row list"
  ts_pos :: "purchase_order list"
  ts_products :: "product_row list"
  ts_suppliers :: "supplier_row list"
  ts_levels :: "inventory_level list"
  ts_locations :: "location_row list"
  ts_poNumberFloor :: int
  ts_currency :: string
  ts_name :: string
  ts_audit :: "(string \<times> audit_action) list"

type_synonym actor = "string option"  \<comment> \<open>the actor's name\<close>

definition find_po :: "tenant_store \<Rightarrow> string \<Rightarrow> purchase_order option" where
  "find_po s poId = find (\<lambda>p. po_id p = poId \<and> po_deletedAt p = None) (ts_pos s)"

definition set_po :: "string \<Rightarrow> (purchase_order \<Rightarrow> purchase_order) \<Rightarrow> tenant_store \<Rightarrow> tenant_store" where
  "set_po poId f s = s\<lparr>ts_pos := update_where (\<lambda>p. po_id p = poId) f (ts_pos s)\<rparr>"

definition set_orders :: "(order_row \<Rightarrow> bool) \<Rightarrow> (order_row \<Rightarrow> order_row) \<Rightarrow> tenant_store \<Rightarrow> tenant_store" where
  "set_orders P f s = s\<lparr>ts_orders := update_where P f (ts_orders s)\<rparr>"

definition log :: "string \<Rightarrow> audit_action \<Rightarrow> tenant_store \<Rightarrow> tenant_store" where
  "log poId a s = s\<lparr>ts_audit := ts_audit s @ [(poId, a)]\<rparr>"

text \<open>\<open>data: { status: "pending", purchaseOrderId: null, orderedAt: null, expectedArrivalAt: null }\<close>.\<close>

definition requeue :: "order_row \<Rightarrow> order_row" where
  "requeue o' = o'\<lparr>or_status := OPending, or_purchaseOrderId := None, or_orderedAt := None,
     or_expectedArrivalAt := None\<rparr>"

definition ordered_on :: "string \<Rightarrow> order_row \<Rightarrow> bool" where
  "ordered_on poId o' \<longleftrightarrow> or_purchaseOrderId o' = Some poId \<and> or_status o' = OOrdered"

section \<open>Creating from the queue\<close>

datatype create_error = NoOrders | MixedSuppliers | NoSupplier | DuplicateNumber

record create_plan =
  cp_orders :: "(order_row \<times> product_row) list"
  cp_supplier :: supplier_row
  cp_lines :: "line_plan list"

definition find_product :: "tenant_store \<Rightarrow> string option \<Rightarrow> product_row option" where
  "find_product s pid = (case pid of None \<Rightarrow> None | Some i \<Rightarrow> find (\<lambda>p. pw_id p = i) (ts_products s))"

definition queued_rows :: "tenant_store \<Rightarrow> string list \<Rightarrow> order_row list" where
  "queued_rows s orderIds =
     filter (\<lambda>o'. or_id o' \<in> set orderIds \<and> or_status o' = OPending \<and> or_productId o' \<noteq> None) (ts_orders s)"

definition with_products :: "tenant_store \<Rightarrow> order_row list \<Rightarrow> (order_row \<times> product_row) list" where
  "with_products s rows =
     concat (map (\<lambda>o'. case find_product s (or_productId o') of None \<Rightarrow> [] | Some p \<Rightarrow> [(o', p)]) rows)"

definition order_input :: "order_row \<times> product_row \<Rightarrow> line_input" where
  "order_input op = \<lparr>ln_productId = pw_id (snd op), ln_sku = pw_sku (snd op), ln_title = pw_title (snd op),
     ln_qty = of_int (nvl (or_orderedQty (fst op)) 1), ln_unitCostKes = pw_costKes (snd op)\<rparr>"

definition plan_po :: "tenant_store \<Rightarrow> string list \<Rightarrow> create_error + create_plan" where
  "plan_po s orderIds =
    (let rows = queued_rows s orderIds;
         orders = with_products s rows;
         supplierIds = js_set (map (pw_supplierId \<circ> snd) orders)
     in if rows = [] then Inl NoOrders
        else if orders = [] then Inl NoOrders
        else if 1 < length supplierIds then Inl MixedSuppliers
        else case find (\<lambda>u. Some (su_id u) = pw_supplierId (snd (hd orders))) (ts_suppliers s) of
          None \<Rightarrow> Inl NoSupplier
        | Some supplier \<Rightarrow> Inr \<lparr>cp_orders = orders, cp_supplier = supplier,
            cp_lines = buildPoLines (map order_input orders) (of_int (su_moq supplier))\<rparr>)"

definition stored_line :: "string \<Rightarrow> line_plan \<Rightarrow> po_line" where
  "stored_line newId l =
    \<lparr>pl_id = newId, pl_productId = lp_productId l, pl_sku = lp_sku l, pl_title = lp_title l,
     pl_quantity = lp_quantity l, pl_unitCostKes = lp_unitCostKes l,
     pl_lineTotalKes = lp_lineTotalKes l, pl_recommendedQty = Some (lp_recommendedQty l),
     pl_receivedQty = 0, pl_receivedAt = None\<rparr>"

definition draft_po ::
  "string \<Rightarrow> string list \<Rightarrow> date \<Rightarrow> actor \<Rightarrow> string \<Rightarrow> string \<Rightarrow> string \<Rightarrow> line_plan list \<Rightarrow> purchase_order" where
  "draft_po poId lineIds now actor supplierId poNumber currency lines =
    \<lparr>po_id = poId, po_supplierId = Some supplierId, po_poNumber = poNumber, po_status = Draft,
     po_currency = currency, po_subtotalKes = subtotal (map lp_lineTotalKes lines), po_createdAt = now,
     po_sentAt = None, po_expectedAt = None, po_receivedAt = None, po_cancelledAt = None, po_cancelledByName = None,
     po_deletedAt = None, po_createdByName = actor,
     po_lines = map2 stored_line lineIds lines\<rparr>"

definition issued_number :: "tenant_store \<Rightarrow> string" where
  "issued_number s = nextPoNumber (map po_poNumber (ts_pos s)) (ts_poNumberFloor s)"

definition pending_in :: "string list \<Rightarrow> order_row \<Rightarrow> bool" where
  "pending_in ids o' \<longleftrightarrow> or_id o' \<in> set ids \<and> or_status o' = OPending"

definition claim_row :: "date \<Rightarrow> order_row \<Rightarrow> order_row" where
  "claim_row now o' = o'\<lparr>or_status := OOrdered, or_orderedAt := Some now\<rparr>"

text \<open>The loop that links each claimed row to the new order, in the plan's order.\<close>

definition link_rows :: "string \<Rightarrow> (order_row \<times> product_row) list \<Rightarrow> order_row list \<Rightarrow> order_row list" where
  "link_rows poId orders rows =
     fold (\<lambda>op. update_where (\<lambda>o'. or_id o' = or_id (fst op))
             (\<lambda>o'. o'\<lparr>or_purchaseOrderId := Some poId, or_stockAtOrder := Some (pw_currentStock (snd op))\<rparr>))
       orders rows"

definition commit_po ::
  "create_plan \<Rightarrow> string \<Rightarrow> string list \<Rightarrow> date \<Rightarrow> actor \<Rightarrow> tenant_store \<Rightarrow>
   (create_error + string) \<times> tenant_store" where
  "commit_po plan poId lineIds now actor s =
    (let orders = cp_orders plan;
         ids = map (or_id \<circ> fst) orders
     in if count_where (pending_in ids) (ts_orders s) \<noteq> length orders then (Inl NoOrders, s)
        else let number = issued_number s;
                 po = draft_po poId lineIds now actor (su_id (cp_supplier plan)) number (ts_currency s) (cp_lines plan);
                 rows = link_rows poId orders (update_where (pending_in ids) (claim_row now) (ts_orders s))
             in if number \<in> po_poNumber ` set (ts_pos s) then (Inl DuplicateNumber, s)
                else (Inr number, log poId (PoCreated number (Some (su_name (cp_supplier plan))) (length (cp_lines plan)))
                       (s\<lparr>ts_orders := rows, ts_pos := ts_pos s @ [po]\<rparr>)))"

definition createPoFromOrders ::
  "string list \<Rightarrow> string \<Rightarrow> string list \<Rightarrow> date \<Rightarrow> actor \<Rightarrow> tenant_store \<Rightarrow>
   (create_error + string) \<times> tenant_store" where
  "createPoFromOrders orderIds poId lineIds now actor s =
    (case plan_po s orderIds of
       Inl e \<Rightarrow> (Inl e, s)
     | Inr plan \<Rightarrow> commit_po plan poId lineIds now actor s)"

section \<open>Creating by hand\<close>

record manual_item =
  mi_productId :: string
  mi_qty :: real

datatype manual_error =
  NoItems | BadQty | NoSuchSupplier | WrongSupplier | NoProduct | NoCost | NumberTaken

definition is_integer :: "real \<Rightarrow> bool" where
  "is_integer x \<longleftrightarrow> x = of_int \<lfloor>x\<rfloor>"

definition manual_input :: "tenant_store \<Rightarrow> manual_item \<Rightarrow> line_input" where
  "manual_input s i =
    (let p = the (find_product s (Some (mi_productId i)))
     in \<lparr>ln_productId = pw_id p, ln_sku = pw_sku p, ln_title = pw_title p, ln_qty = mi_qty i,
         ln_unitCostKes = pw_costKes p\<rparr>)"

definition plan_manual :: "tenant_store \<Rightarrow> string \<Rightarrow> manual_item list \<Rightarrow> manual_error + (supplier_row \<times> line_plan list)" where
  "plan_manual s supplierId items =
    (let wanted = filter (\<lambda>i. 0 < mi_qty i) items;
         ids = map mi_productId wanted;
         products = filter (\<lambda>p. pw_id p \<in> set ids) (ts_products s)
     in if wanted = [] then Inl NoItems
        else if \<exists>i \<in> set wanted. \<not> is_integer (mi_qty i) then Inl BadQty
        else case find (\<lambda>u. su_id u = supplierId) (ts_suppliers s) of
          None \<Rightarrow> Inl NoSuchSupplier
        | Some supplier \<Rightarrow>
            if length products \<noteq> length (js_set ids) then Inl NoProduct
            else if \<exists>p \<in> set products. pw_supplierId p \<noteq> Some supplierId then Inl WrongSupplier
            else if \<exists>p \<in> set products. \<not> 0 < pw_costKes p then Inl NoCost
            else Inr (supplier, buildPoLines (map (manual_input s) wanted) (of_int (su_moq supplier))))"

definition manual_row :: "tenant_store \<Rightarrow> string \<Rightarrow> date \<Rightarrow> string \<Rightarrow> line_plan \<Rightarrow> order_row" where
  "manual_row s poId now newId l =
    \<lparr>or_id = newId, or_status = OOrdered, or_productId = Some (lp_productId l),
     or_purchaseOrderId = Some poId, or_orderedQty = Some (lp_quantity l), or_orderedAt = Some now,
     or_expectedArrivalAt = None, or_receivedAt = None,
     or_stockAtOrder = map_option pw_currentStock (find_product s (Some (lp_productId l)))\<rparr>"

definition commit_manual ::
  "supplier_row \<times> line_plan list \<Rightarrow> tenant_store \<Rightarrow> string \<Rightarrow> string list \<Rightarrow> string list \<Rightarrow> date \<Rightarrow> actor \<Rightarrow>
   tenant_store \<Rightarrow> (manual_error + string) \<times> tenant_store" where
  "commit_manual plan read poId lineIds rowIds now actor s =
    (let number = issued_number s;
         po = draft_po poId lineIds now actor (su_id (fst plan)) number (ts_currency s) (snd plan)
     in if number \<in> po_poNumber ` set (ts_pos s) then (Inl NumberTaken, s)
        else (Inr number, log poId (PoCreated number None (length (snd plan)))
               (s\<lparr>ts_pos := ts_pos s @ [po],
                  ts_orders := ts_orders s @ map2 (manual_row read poId now) rowIds (snd plan)\<rparr>)))"

definition createManualPo ::
  "string \<Rightarrow> manual_item list \<Rightarrow> string \<Rightarrow> string list \<Rightarrow> string list \<Rightarrow> date \<Rightarrow> actor \<Rightarrow> tenant_store \<Rightarrow>
   (manual_error + string) \<times> tenant_store" where
  "createManualPo supplierId items poId lineIds rowIds now actor s =
    (case plan_manual s supplierId items of
       Inl e \<Rightarrow> (Inl e, s)
     | Inr plan \<Rightarrow> commit_manual plan s poId lineIds rowIds now actor s)"

section \<open>Editing a draft\<close>

datatype edit_error = EditNotFound | NotEditable | BadLine | EditBadQty | LastLine | LineGone

definition rewrite_subtotal :: "string \<Rightarrow> po_line list \<Rightarrow> tenant_store \<Rightarrow> (edit_error + real) \<times> tenant_store" where
  "rewrite_subtotal poId lines s =
    (let subtotalKes = subtotal (map (\<lambda>l. of_int (pl_quantity l) * pl_unitCostKes l) lines);
         touched = count_where (\<lambda>p. po_id p = poId \<and> po_status p = Draft) (ts_pos s)
     in if touched = 0 then (Inl NotEditable, s)
        else (Inr subtotalKes,
              s\<lparr>ts_pos := update_where (\<lambda>p. po_id p = poId \<and> po_status p = Draft)
                  (\<lambda>p. p\<lparr>po_subtotalKes := subtotalKes\<rparr>) (ts_pos s)\<rparr>))"

definition edit_read :: "tenant_store \<Rightarrow> string \<Rightarrow> string \<Rightarrow> edit_error + (purchase_order \<times> po_line)" where
  "edit_read s poId lineId =
    (case find_po s poId of
       None \<Rightarrow> Inl EditNotFound
     | Some po \<Rightarrow> if po_status po \<noteq> Draft then Inl NotEditable
         else case find (\<lambda>l. pl_id l = lineId) (po_lines po) of
           None \<Rightarrow> Inl BadLine
         | Some line \<Rightarrow> Inr (po, line))"

text \<open>\<open>purchaseOrderLine.update({ where: { id } })\<close>: the line's id is its primary key.\<close>

definition update_line :: "string \<Rightarrow> (po_line \<Rightarrow> po_line) \<Rightarrow> tenant_store \<Rightarrow> tenant_store" where
  "update_line lineId f s =
     s\<lparr>ts_pos := map (\<lambda>p. p\<lparr>po_lines := update_where (\<lambda>l. pl_id l = lineId) f (po_lines p)\<rparr>) (ts_pos s)\<rparr>"

definition delete_line :: "string \<Rightarrow> tenant_store \<Rightarrow> tenant_store" where
  "delete_line lineId s =
     s\<lparr>ts_pos := map (\<lambda>p. p\<lparr>po_lines := filter (\<lambda>l. pl_id l \<noteq> lineId) (po_lines p)\<rparr>) (ts_pos s)\<rparr>"

definition has_line :: "string \<Rightarrow> tenant_store \<Rightarrow> bool" where
  "has_line lineId s \<longleftrightarrow> (\<exists>p \<in> set (ts_pos s). \<exists>l \<in> set (po_lines p). pl_id l = lineId)"

text \<open>The write half of an edit, on the store the transaction's statements meet. A row that
  is no longer there (\<open>LineGone\<close>) or a guard that finds the draft gone throws, and the
  transaction leaves that store as it was.\<close>

definition qty_write ::
  "purchase_order \<times> po_line \<Rightarrow> int \<Rightarrow> tenant_store \<Rightarrow> (edit_error + nat \<times> real) \<times> tenant_store" where
  "qty_write pl quantity s =
    (let (po, line) = pl;
         s1 = update_line (pl_id line)
           (\<lambda>l. l\<lparr>pl_quantity := quantity, pl_lineTotalKes := of_int quantity * pl_unitCostKes line\<rparr>) s;
         next' = update_where (\<lambda>l. pl_id l = pl_id line) (\<lambda>l. l\<lparr>pl_quantity := quantity\<rparr>) (po_lines po)
     in if \<not> has_line (pl_id line) s then (Inl LineGone, s)
        else case rewrite_subtotal (po_id po) next' s1 of
          (Inl e, _) \<Rightarrow> (Inl e, s)
        | (Inr total', s2) \<Rightarrow>
            (Inr (length next', total'),
             log (po_id po) (PoQtyChanged (pl_id line) (pl_quantity line) quantity total') s2))"

definition setPoLineQuantity ::
  "string \<Rightarrow> string \<Rightarrow> real \<Rightarrow> tenant_store \<Rightarrow> (edit_error + nat \<times> real) \<times> tenant_store" where
  "setPoLineQuantity poId lineId quantity s =
    (if \<not> is_integer quantity \<or> quantity < 1 then (Inl EditBadQty, s)
     else case edit_read s poId lineId of
       Inl e \<Rightarrow> (Inl e, s)
     | Inr pl \<Rightarrow> qty_write pl \<lfloor>quantity\<rfloor> s)"

definition remove_write ::
  "purchase_order \<times> po_line \<Rightarrow> tenant_store \<Rightarrow> (edit_error + nat \<times> real) \<times> tenant_store" where
  "remove_write pl s =
    (let (po, line) = pl;
         s1 = set_orders (\<lambda>o'. ordered_on (po_id po) o' \<and> or_productId o' = Some (pl_productId line)) requeue
                (delete_line (pl_id line) s);
         next' = filter (\<lambda>l. pl_id l \<noteq> pl_id line) (po_lines po)
     in if \<not> has_line (pl_id line) s then (Inl LineGone, s)
        else case rewrite_subtotal (po_id po) next' s1 of
          (Inl e, _) \<Rightarrow> (Inl e, s)
        | (Inr total', s2) \<Rightarrow>
            (Inr (length next', total'), log (po_id po) (PoLineRemoved (pl_id line) (length next') total') s2))"

definition removePoLine ::
  "string \<Rightarrow> string \<Rightarrow> tenant_store \<Rightarrow> (edit_error + nat \<times> real) \<times> tenant_store" where
  "removePoLine poId lineId s =
    (case edit_read s poId lineId of
       Inl e \<Rightarrow> (Inl e, s)
     | Inr (po, line) \<Rightarrow>
         if length (po_lines po) = 1 then (Inl LastLine, s) else remove_write (po, line) s)"

section \<open>Sending\<close>

datatype send_error = SendNotFound | NotSendable | NoSupplierEmail | EmailFailed
datatype email_outcome = EmailSent | EmailSkipped | EmailThrew

record send_ticket =
  tk_po :: purchase_order
  tk_to :: string
  tk_sentAt :: date
  tk_expectedAt :: "date option"

definition send_read :: "tenant_store \<Rightarrow> string \<Rightarrow> date \<Rightarrow> send_error + send_ticket" where
  "send_read s poId now =
    (case find_po s poId of
       None \<Rightarrow> Inl SendNotFound
     | Some po \<Rightarrow>
         if po_status po \<noteq> Draft then Inl NotSendable
         else case find (\<lambda>u. Some (su_id u) = po_supplierId po) (ts_suppliers s) of
           None \<Rightarrow> Inl NoSupplierEmail
         | Some supplier \<Rightarrow>
             if nvl (su_email supplier) [] = [] then Inl NoSupplierEmail
             else Inr \<lparr>tk_po = po, tk_to = nvl (su_email supplier) [], tk_sentAt = now,
               tk_expectedAt = map_option (\<lambda>lead. now + lead * DAY_MS) (su_leadTimeAvgDays supplier)\<rparr>)"

text \<open>The claim: exactly one caller moves the row out of draft.\<close>

definition send_claim :: "send_ticket \<Rightarrow> tenant_store \<Rightarrow> (send_error + unit) \<times> tenant_store" where
  "send_claim t s =
    (let P = (\<lambda>p. po_id p = po_id (tk_po t) \<and> po_status p = Draft \<and> po_deletedAt p = None)
     in if count_where P (ts_pos s) = 0 then (Inl NotSendable, s)
        else (Inr (), s\<lparr>ts_pos := update_where P
           (\<lambda>p. p\<lparr>po_status := Sent, po_sentAt := Some (tk_sentAt t), po_expectedAt := tk_expectedAt t\<rparr>) (ts_pos s)\<rparr>))"

definition send_settle ::
  "send_ticket \<Rightarrow> email_outcome \<Rightarrow> tenant_store \<Rightarrow> (send_error + date option \<times> bool) \<times> tenant_store" where
  "send_settle t outcome s =
    (let poId = po_id (tk_po t)
     in if outcome = EmailThrew
        then (Inl EmailFailed, s\<lparr>ts_pos := update_where (\<lambda>p. po_id p = poId \<and> po_status p = Sent)
               (\<lambda>p. p\<lparr>po_status := Draft, po_sentAt := None, po_expectedAt := None\<rparr>) (ts_pos s)\<rparr>)
        else let s1 = (case tk_expectedAt t of None \<Rightarrow> s
               | Some e \<Rightarrow> set_orders (ordered_on poId) (\<lambda>o'. o'\<lparr>or_expectedArrivalAt := Some e\<rparr>) s)
             in (Inr (tk_expectedAt t, outcome = EmailSent),
                 log poId (PoOrdered (po_poNumber (tk_po t)) (tk_to t) (tk_expectedAt t)) s1))"

definition sendPoToSupplier ::
  "string \<Rightarrow> date \<Rightarrow> email_outcome \<Rightarrow> tenant_store \<Rightarrow> (send_error + date option \<times> bool) \<times> tenant_store" where
  "sendPoToSupplier poId now outcome s =
    (case send_read s poId now of
       Inl e \<Rightarrow> (Inl e, s)
     | Inr t \<Rightarrow> (case send_claim t s of
         (Inl e, s1) \<Rightarrow> (Inl e, s1)
       | (Inr _, s1) \<Rightarrow> send_settle t outcome s1))"

section \<open>Cancelling\<close>

datatype cancel_error = CancelNotFound | NotCancellable

definition cancelPo :: "string \<Rightarrow> date \<Rightarrow> actor \<Rightarrow> tenant_store \<Rightarrow> (cancel_error + unit) \<times> tenant_store" where
  "cancelPo poId now actor s =
    (case find_po s poId of
       None \<Rightarrow> (Inl CancelNotFound, s)
     | Some po \<Rightarrow>
         if po_status po \<noteq> Draft \<and> po_status po \<noteq> Sent then (Inl NotCancellable, s)
         else (Inr (), log poId PoCancelled
                (set_po poId (\<lambda>p. p\<lparr>po_status := Cancelled, po_cancelledAt := Some now, po_cancelledByName := actor\<rparr>)
                  (set_orders (ordered_on poId) requeue s))))"

definition removeQueuedOrder :: "string \<Rightarrow> tenant_store \<Rightarrow> bool \<times> tenant_store" where
  "removeQueuedOrder orderId s =
    (case find (\<lambda>o'. or_id o' = orderId \<and> or_status o' = OPending) (ts_orders s) of
       None \<Rightarrow> (False, s)
     | Some o' \<Rightarrow>
         (let P = (\<lambda>r. or_id r = or_id o' \<and> or_status r = OPending)
          in if count_where P (ts_orders s) = 1
             then (True, log (or_id o') (QueueRowDeleted (or_productId o') (or_orderedQty o'))
               (s\<lparr>ts_orders := filter (\<lambda>r. \<not> P r) (ts_orders s)\<rparr>))
             else (False, s\<lparr>ts_orders := filter (\<lambda>r. \<not> P r) (ts_orders s)\<rparr>)))"

end
