(* ===== verification/PoReceive.thy ===== *)
theory PoReceive
  imports PoStore
begin

text \<open>
  \<^verbatim>\<open>apps/web/lib/po/receive-po.ts\<close> and \<^verbatim>\<open>unreceive-po.ts\<close>, with the rollup they share,
  \<^verbatim>\<open>apps/web/lib/inventory/sellable-rollup.ts\<close>. The transaction works on its own copy of the
  order's lines (\<open>lines\<close>, the objects the loop mutates) beside the store; every entry is
  checked before the first write, against the lines as they were read.
\<close>

section \<open>The sellable rollup\<close>

definition location_type_of :: "tenant_store \<Rightarrow> inventory_level \<Rightarrow> string option option" where
  "location_type_of s level = map_option lo_locationType (find (\<lambda>l. lo_id l = il_locationId level) (ts_locations s))"

definition counts_as_sellable :: "tenant_store \<Rightarrow> inventory_level \<Rightarrow> bool" where
  "counts_as_sellable s level =
    (case location_type_of s level of None \<Rightarrow> False | Some t \<Rightarrow> isSellable t)"

definition sellable_map :: "tenant_store \<Rightarrow> string list \<Rightarrow> (string \<times> int) list" where
  "sellable_map s productIds =
     bump_all (counts_as_sellable s) il_productId sellableUnits
       (filter (\<lambda>l. il_productId l \<in> set productIds) (ts_levels s))
       (fold (\<lambda>i. AList.update i 0) productIds [])"

definition recomputeSellableStock :: "string list \<Rightarrow> tenant_store \<Rightarrow> tenant_store" where
  "recomputeSellableStock productIds s =
    (if productIds = [] then s
     else s\<lparr>ts_products := fold (\<lambda>(i, stock). update_where (\<lambda>p. pw_id p = i)
              (\<lambda>p. p\<lparr>pw_currentStock := of_int stock\<rparr>)) (sellable_map s productIds) (ts_products s)\<rparr>)"

section \<open>Receiving\<close>

record receive_entry =
  re_lineId :: string
  re_qty :: real

datatype receive_error =
  RecvNotFound | NotReceivable | BadLocation | RecvBadLine | RecvBadQty | RecvEmpty | NotReversible

record receive_result =
  rr_status :: po_status
  rr_units :: int
  rr_stockFollowsStore :: bool

definition line_by_id :: "po_line list \<Rightarrow> string \<Rightarrow> po_line option" where
  "line_by_id lines lineId = find (\<lambda>l. pl_id l = lineId) lines"

text \<open>The first entry that fails a check, checked in the code's order.\<close>

fun check_entries :: "(po_line \<Rightarrow> int) \<Rightarrow> po_line list \<Rightarrow> receive_entry list \<Rightarrow> receive_error option" where
  "check_entries room lines [] = None"
| "check_entries room lines (e # es) =
    (case line_by_id lines (re_lineId e) of
       None \<Rightarrow> Some RecvBadLine
     | Some line \<Rightarrow>
         if \<not> is_integer (re_qty e) then Some RecvBadQty
         else if of_int (room line) < re_qty e then Some RecvBadQty
         else check_entries room lines es)"

definition at_level :: "string \<Rightarrow> string \<Rightarrow> inventory_level \<Rightarrow> bool" where
  "at_level locationId productId l \<longleftrightarrow> il_locationId l = locationId \<and> il_productId l = productId"

text \<open>\<open>upsert\<close>, then the raw update of \<open>available\<close>, which sees the new on-hand.\<close>

definition upsert_level :: "string \<Rightarrow> string \<Rightarrow> int \<Rightarrow> inventory_level list \<Rightarrow> inventory_level list" where
  "upsert_level locationId productId qty levels =
    (if \<exists>l \<in> set levels. at_level locationId productId l
     then update_where (at_level locationId productId) (\<lambda>l. l\<lparr>il_onHand := il_onHand l + qty\<rparr>) levels
     else levels @ [\<lparr>il_locationId = locationId, il_productId = productId, il_onHand = qty, il_available = None\<rparr>])"

definition add_available :: "string \<Rightarrow> string \<Rightarrow> int \<Rightarrow> inventory_level list \<Rightarrow> inventory_level list" where
  "add_available locationId productId qty levels =
     update_where (at_level locationId productId)
       (\<lambda>l. l\<lparr>il_available := Some (nvl (il_available l) (il_onHand l - qty) + qty)\<rparr>) levels"

definition receive_stock :: "string \<Rightarrow> string \<Rightarrow> int \<Rightarrow> tenant_store \<Rightarrow> tenant_store" where
  "receive_stock locationId productId qty s =
     s\<lparr>ts_levels := add_available locationId productId qty (upsert_level locationId productId qty (ts_levels s))\<rparr>"

record receive_state =
  rs_lines :: "po_line list"
  rs_store :: tenant_store
  rs_units :: int
  rs_crossed :: "string list"  \<comment> \<open>products whose line became full, or stopped being full\<close>

text \<open>The write of one line, to the row and to the copy the loop holds.\<close>

definition put_line :: "string \<Rightarrow> int \<Rightarrow> date option \<Rightarrow> receive_state \<Rightarrow> receive_state" where
  "put_line lineId qty stamp st =
    (let f = (\<lambda>l. l\<lparr>pl_receivedQty := qty, pl_receivedAt := stamp\<rparr>)
     in st\<lparr>rs_store := update_line lineId f (rs_store st),
           rs_lines := update_where (\<lambda>l. pl_id l = lineId) f (rs_lines st)\<rparr>)"

text \<open>
  The body shared by the two loops: the signed change of the running quantity, the timestamp
  it leaves, whether it crosses the line's full mark, and the movement of stock.
\<close>

definition entry_step ::
  "(int \<Rightarrow> int) \<Rightarrow> (int \<Rightarrow> date option) \<Rightarrow> (po_line \<Rightarrow> int \<Rightarrow> bool) \<Rightarrow> (string \<Rightarrow> int \<Rightarrow> tenant_store \<Rightarrow> tenant_store) \<Rightarrow>
   receive_entry \<Rightarrow> receive_state \<Rightarrow> receive_state" where
  "entry_step delta stamp crossed stock e st =
    (case line_by_id (rs_lines st) (re_lineId e) of
       None \<Rightarrow> st
     | Some line \<Rightarrow>
        (let qty = \<lfloor>re_qty e\<rfloor>;
             nextQty = pl_receivedQty line + delta qty;
             st1 = put_line (pl_id line) nextQty (stamp nextQty) st
         in st1\<lparr>rs_units := rs_units st1 + qty,
                rs_crossed := rs_crossed st1 @ (if crossed line nextQty then [pl_productId line] else []),
                rs_store := stock (pl_productId line) qty (rs_store st1)\<rparr>))"

definition receive_entry_step :: "bool \<Rightarrow> string \<Rightarrow> date \<Rightarrow> receive_entry \<Rightarrow> receive_state \<Rightarrow> receive_state" where
  "receive_entry_step stockFollowsStore locationId now =
     entry_step (\<lambda>qty. qty) (\<lambda>_. Some now)
       (\<lambda>line nextQty. pl_quantity line \<le> nextQty)
       (\<lambda>productId qty s. if stockFollowsStore then s else receive_stock locationId productId qty s)"

definition all_full :: "po_line list \<Rightarrow> bool" where
  "all_full lines \<longleftrightarrow> (\<forall>l \<in> set lines. pl_quantity l \<le> pl_receivedQty l)"

definition nothing_in :: "po_line list \<Rightarrow> bool" where
  "nothing_in lines \<longleftrightarrow> (\<forall>l \<in> set lines. pl_receivedQty l = 0)"

definition touched_products :: "bool \<Rightarrow> po_line list \<Rightarrow> receive_entry list \<Rightarrow> string list" where
  "touched_products stockFollowsStore lines entries =
    (if stockFollowsStore then []
     else js_set (concat (map (\<lambda>e. case line_by_id lines (re_lineId e) of
            None \<Rightarrow> [] | Some l \<Rightarrow> [pl_productId l]) entries)))"

definition product_row_of :: "string \<Rightarrow> order_status \<Rightarrow> string list \<Rightarrow> order_row \<Rightarrow> bool" where
  "product_row_of poId status products o' \<longleftrightarrow>
     or_purchaseOrderId o' = Some poId \<and> or_status o' = status \<and> (\<exists>p \<in> set products. or_productId o' = Some p)"

definition find_location :: "tenant_store \<Rightarrow> string \<Rightarrow> location_row option" where
  "find_location s locationId = find (\<lambda>l. lo_id l = locationId) (ts_locations s)"

definition receive_body ::
  "purchase_order \<Rightarrow> bool \<Rightarrow> receive_entry list \<Rightarrow> string \<Rightarrow> date \<Rightarrow> tenant_store \<Rightarrow> receive_result \<times> tenant_store" where
  "receive_body po stockFollowsStore receipts locationId now s =
    (let st = fold (receive_entry_step stockFollowsStore locationId now) receipts
           \<lparr>rs_lines = po_lines po, rs_store = s, rs_units = 0, rs_crossed = []\<rparr>;
         s1 = recomputeSellableStock (touched_products stockFollowsStore (po_lines po) receipts) (rs_store st);
         s2 = set_orders (product_row_of (po_id po) OOrdered (rs_crossed st))
                (\<lambda>o'. o'\<lparr>or_status := OCompleted, or_receivedAt := Some now\<rparr>) s1;
         allFull = all_full (rs_lines st);
         s3 = set_po (po_id po) (\<lambda>p. if allFull then p\<lparr>po_status := Received, po_receivedAt := Some now\<rparr>
                else p\<lparr>po_status := PartiallyReceived\<rparr>) s2;
         r = \<lparr>rr_status = (if allFull then Received else PartiallyReceived), rr_units = rs_units st,
              rr_stockFollowsStore = stockFollowsStore\<rparr>
     in (r, log (po_id po) (PoReceived locationId (rr_units r) (rr_status r) stockFollowsStore) s3))"

definition receivePoLines ::
  "string \<Rightarrow> receive_entry list \<Rightarrow> string \<Rightarrow> date \<Rightarrow> tenant_store \<Rightarrow> (receive_error + receive_result) \<times> tenant_store" where
  "receivePoLines poId entries locationId now s =
    (let receipts = filter (\<lambda>e. 0 < re_qty e) entries
     in if receipts = [] then (Inl RecvEmpty, s)
        else case find_po s poId of
          None \<Rightarrow> (Inl RecvNotFound, s)
        | Some po \<Rightarrow>
            if po_status po \<noteq> Sent \<and> po_status po \<noteq> PartiallyReceived then (Inl NotReceivable, s)
            else case find_location s locationId of
              None \<Rightarrow> (Inl BadLocation, s)
            | Some location \<Rightarrow>
                (case check_entries (\<lambda>l. pl_quantity l - pl_receivedQty l) (po_lines po) receipts of
                   Some e \<Rightarrow> (Inl e, s)
                 | None \<Rightarrow>
                    (let (r, s') = receive_body po (lo_shopifyLocationId location \<noteq> None) receipts locationId now s
                     in (Inr r, s'))))"

section \<open>Reversing\<close>

text \<open>\<open>updateMany\<close> of an existing level, then the mirrored update of \<open>available\<close>.\<close>

definition reverse_stock :: "string \<Rightarrow> string \<Rightarrow> int \<Rightarrow> tenant_store \<Rightarrow> tenant_store" where
  "reverse_stock locationId productId qty s =
     s\<lparr>ts_levels :=
        update_where (at_level locationId productId)
          (\<lambda>l. l\<lparr>il_available := Some (nvl (il_available l) (il_onHand l + qty) - qty)\<rparr>)
          (update_where (at_level locationId productId) (\<lambda>l. l\<lparr>il_onHand := il_onHand l - qty\<rparr>) (ts_levels s))\<rparr>"

definition reverse_entry_step :: "bool \<Rightarrow> string \<Rightarrow> date \<Rightarrow> receive_entry \<Rightarrow> receive_state \<Rightarrow> receive_state" where
  "reverse_entry_step stockFollowsStore locationId now =
     entry_step (\<lambda>qty. - qty) (\<lambda>nextQty. if nextQty = 0 then None else Some now)
       (\<lambda>line nextQty. pl_quantity line \<le> pl_receivedQty line \<and> nextQty < pl_quantity line)
       (\<lambda>productId qty s. if stockFollowsStore then s else reverse_stock locationId productId qty s)"

definition unreceive_body ::
  "purchase_order \<Rightarrow> bool \<Rightarrow> receive_entry list \<Rightarrow> string \<Rightarrow> date \<Rightarrow> tenant_store \<Rightarrow> receive_result \<times> tenant_store" where
  "unreceive_body po stockFollowsStore reversals locationId now s =
    (let st = fold (reverse_entry_step stockFollowsStore locationId now) reversals
           \<lparr>rs_lines = po_lines po, rs_store = s, rs_units = 0, rs_crossed = []\<rparr>;
         s1 = recomputeSellableStock (touched_products stockFollowsStore (po_lines po) reversals) (rs_store st);
         s2 = set_orders (product_row_of (po_id po) OCompleted (rs_crossed st))
                (\<lambda>o'. o'\<lparr>or_status := OOrdered, or_receivedAt := None\<rparr>) s1;
         allFull = all_full (rs_lines st);
         status = (if nothing_in (rs_lines st) then Sent else if allFull then Received else PartiallyReceived);
         s3 = set_po (po_id po) (\<lambda>p. p\<lparr>po_status := status,
                po_receivedAt := (if allFull then Some now else None)\<rparr>) s2;
         r = \<lparr>rr_status = status, rr_units = rs_units st, rr_stockFollowsStore = stockFollowsStore\<rparr>
     in (r, log (po_id po) (PoReceiptReversed locationId (rr_units r) status stockFollowsStore) s3))"

definition unreceivePoLines ::
  "string \<Rightarrow> receive_entry list \<Rightarrow> string \<Rightarrow> date \<Rightarrow> tenant_store \<Rightarrow> (receive_error + receive_result) \<times> tenant_store" where
  "unreceivePoLines poId entries locationId now s =
    (let reversals = filter (\<lambda>e. 0 < re_qty e) entries
     in if reversals = [] then (Inl RecvEmpty, s)
        else case find_po s poId of
          None \<Rightarrow> (Inl RecvNotFound, s)
        | Some po \<Rightarrow>
            if po_status po \<noteq> Received \<and> po_status po \<noteq> PartiallyReceived then (Inl NotReversible, s)
            else case find_location s locationId of
              None \<Rightarrow> (Inl BadLocation, s)
            | Some location \<Rightarrow>
                (case check_entries pl_receivedQty (po_lines po) reversals of
                   Some e \<Rightarrow> (Inl e, s)
                 | None \<Rightarrow>
                    (let (r, s') = unreceive_body po (lo_shopifyLocationId location \<noteq> None) reversals locationId now s
                     in (Inr r, s'))))"

section \<open>What a loop over the entries does\<close>

lemma line_by_id_Some: "line_by_id ls i = Some l \<Longrightarrow> l \<in> set ls \<and> pl_id l = i"
  by (auto simp: line_by_id_def find_Some_iff)

lemma line_by_id_None: "line_by_id ls i = None \<longleftrightarrow> i \<notin> pl_id ` set ls"
  by (auto simp: line_by_id_def find_None_iff)

lemma line_by_id_in: "distinct (map pl_id ls) \<Longrightarrow> l \<in> set ls \<Longrightarrow> line_by_id ls (pl_id l) = Some l"
proof (induction ls)
  case (Cons a ls)
  then show ?case by (cases "l = a") (auto simp: line_by_id_def)
qed simp

text \<open>What the entries book on a line in all.\<close>

definition booked :: "receive_entry list \<Rightarrow> string \<Rightarrow> int" where
  "booked es lineId = sum_list (map (\<lambda>e. \<lfloor>re_qty e\<rfloor>) (filter (\<lambda>e. re_lineId e = lineId) es))"

definition named :: "receive_entry list \<Rightarrow> string \<Rightarrow> bool" where
  "named es lineId \<longleftrightarrow> lineId \<in> re_lineId ` set es"

lemma booked_Cons: "booked (e # es) i = (if re_lineId e = i then \<lfloor>re_qty e\<rfloor> else 0) + booked es i"
  by (simp add: booked_def)

lemma named_Cons: "named (e # es) i \<longleftrightarrow> re_lineId e = i \<or> named es i"
  by (auto simp: named_def)

lemma not_named_booked: "\<not> named es i \<Longrightarrow> booked es i = 0"
  by (induction es) (auto simp: booked_Cons named_Cons, simp add: booked_def)

lemma booked_nonneg: "(\<And>e. e \<in> set es \<Longrightarrow> 0 < re_qty e) \<Longrightarrow> 0 \<le> booked es i"
  by (induction es) (auto simp: booked_Cons less_imp_le, simp add: booked_def)

text \<open>
  The contract of a loop over entries: additive in the quantities, and moving stock touches
  no order and no queue row. Under it, the loop is a map over the lines, and the rows of the
  order stay equal to the copy.
\<close>

locale entry_loop =
  fixes delta :: "int \<Rightarrow> int"
    and stamp :: "int \<Rightarrow> date option"
    and crossed :: "po_line \<Rightarrow> int \<Rightarrow> bool"
    and stock :: "string \<Rightarrow> int \<Rightarrow> tenant_store \<Rightarrow> tenant_store"
  assumes delta_add: "delta (a + b) = delta a + delta b"
    and stock_frame: "\<exists>lv. stock p q s = s\<lparr>ts_levels := lv\<rparr>"
begin

definition step :: "receive_entry \<Rightarrow> receive_state \<Rightarrow> receive_state" where
  "step = entry_step delta stamp crossed stock"

definition book :: "receive_entry list \<Rightarrow> po_line \<Rightarrow> po_line" where
  "book es l =
    (if named es (pl_id l)
     then let n = pl_receivedQty l + delta (booked es (pl_id l))
          in l\<lparr>pl_receivedQty := n, pl_receivedAt := stamp n\<rparr>
     else l)"

lemma delta_0: "delta 0 = 0"
  using delta_add [of 0 0] by simp

lemma book_Nil [simp]: "book [] l = l"
  by (simp add: book_def named_def)

lemma book_Nil_fun [simp]: "book [] = (\<lambda>l. l)"
  by (rule ext) simp

lemma book_id [simp]: "pl_id (book es l) = pl_id l"
  by (simp add: book_def Let_def)

lemma book_frame [simp]:
  "pl_productId (book es l) = pl_productId l" "pl_quantity (book es l) = pl_quantity l"
  "pl_unitCostKes (book es l) = pl_unitCostKes l" "pl_lineTotalKes (book es l) = pl_lineTotalKes l"
  by (simp_all add: book_def Let_def)

lemma book_received: "pl_receivedQty (book es l) = pl_receivedQty l + delta (booked es (pl_id l))"
  by (simp add: book_def Let_def not_named_booked delta_0)

lemma book_Cons: "book es (book [e] l) = book (e # es) l"
  by (cases "re_lineId e = pl_id l"; cases "named es (pl_id l)")
    (simp_all add: book_def Let_def named_Cons booked_Cons not_named_booked delta_add named_def [of "[]"]
      booked_def [of "[]"] add.assoc delta_0)

lemma step_lines:
  assumes "distinct (map pl_id (rs_lines st))"
  shows "rs_lines (step e st) = map (book [e]) (rs_lines st)"
proof (cases "line_by_id (rs_lines st) (re_lineId e)")
  case None
  then have "book [e] l = l" if "l \<in> set (rs_lines st)" for l
    using that by (auto simp: book_def named_Cons named_def [of "[]"] line_by_id_None)
  with None show ?thesis by (simp add: step_def entry_step_def map_idI)
next
  case (Some line)
  note line = line_by_id_Some [OF Some]
  have "(if pl_id l = re_lineId e
         then l\<lparr>pl_receivedQty := pl_receivedQty line + delta \<lfloor>re_qty e\<rfloor>,
                pl_receivedAt := stamp (pl_receivedQty line + delta \<lfloor>re_qty e\<rfloor>)\<rparr> else l) = book [e] l"
    if "l \<in> set (rs_lines st)" for l
  proof (cases "pl_id l = re_lineId e")
    case True
    with line_by_id_in [OF assms that] Some have "l = line" by simp
    with True show ?thesis
      by (simp add: book_def Let_def named_Cons booked_Cons booked_def [of "[]"])
  qed (simp add: book_def named_Cons named_def [of "[]"])
  then show ?thesis
    using Some line by (simp add: step_def entry_step_def Let_def put_line_def update_where_def)
qed

lemma loop_lines:
  "distinct (map pl_id (rs_lines st)) \<Longrightarrow> rs_lines (fold step es st) = map (book es) (rs_lines st)"
proof (induction es arbitrary: st)
  case (Cons e es)
  have "distinct (map pl_id (rs_lines (step e st)))"
    using Cons.prems by (simp add: step_lines comp_def)
  with Cons show ?case by (simp add: step_lines comp_def book_Cons)
qed simp

text \<open>The rows of order \<open>X\<close> are the copy, and nothing else of the orders changes.\<close>

definition synced :: "string \<Rightarrow> tenant_store \<Rightarrow> receive_state \<Rightarrow> bool" where
  "synced X s st \<longleftrightarrow>
     ts_pos (rs_store st) = update_where (\<lambda>p. po_id p = X) (\<lambda>p. p\<lparr>po_lines := rs_lines st\<rparr>) (ts_pos s) \<and>
     ts_orders (rs_store st) = ts_orders s \<and> ts_products (rs_store st) = ts_products s \<and>
     ts_suppliers (rs_store st) = ts_suppliers s \<and> ts_locations (rs_store st) = ts_locations s \<and>
     ts_audit (rs_store st) = ts_audit s \<and> ts_poNumberFloor (rs_store st) = ts_poNumberFloor s \<and>
     ts_currency (rs_store st) = ts_currency s \<and> ts_name (rs_store st) = ts_name s"

lemma step_synced:
  assumes "synced X s st"
    and other: "\<And>p l. p \<in> set (ts_pos s) \<Longrightarrow> po_id p \<noteq> X \<Longrightarrow> l \<in> set (po_lines p) \<Longrightarrow> pl_id l \<notin> pl_id ` set (rs_lines st)"
  shows "synced X s (step e st)"
proof (cases "line_by_id (rs_lines st) (re_lineId e)")
  case None
  with assms(1) show ?thesis by (simp add: step_def entry_step_def)
next
  case (Some line)
  note line = line_by_id_Some [OF Some]
  let ?n = "pl_receivedQty line + delta \<lfloor>re_qty e\<rfloor>"
  let ?f = "\<lambda>l. l\<lparr>pl_receivedQty := ?n, pl_receivedAt := stamp ?n\<rparr>"
  let ?s1 = "update_line (pl_id line) ?f (rs_store st)"
  obtain lv where lv: "stock (pl_productId line) \<lfloor>re_qty e\<rfloor> ?s1 = ?s1\<lparr>ts_levels := lv\<rparr>"
    using stock_frame by blast
  have "p\<lparr>po_lines := update_where (\<lambda>l. pl_id l = pl_id line) ?f (po_lines p)\<rparr> = p"
    if "p \<in> set (ts_pos s)" "po_id p \<noteq> X" for p
  proof -
    have "update_where (\<lambda>l. pl_id l = pl_id line) ?f (po_lines p) = po_lines p"
    proof (rule update_where_nop)
      fix r assume "r \<in> set (po_lines p)"
      then have "pl_id r \<notin> pl_id ` set (rs_lines st)" by (rule other [OF that])
      moreover have "pl_id line \<in> pl_id ` set (rs_lines st)" using line by blast
      ultimately show "pl_id r \<noteq> pl_id line" by metis
    qed
    then show ?thesis by simp
  qed
  then have pos: "map (\<lambda>p. p\<lparr>po_lines := update_where (\<lambda>l. pl_id l = pl_id line) ?f (po_lines p)\<rparr>)
      (update_where (\<lambda>p. po_id p = X) (\<lambda>p. p\<lparr>po_lines := rs_lines st\<rparr>) (ts_pos s)) =
    update_where (\<lambda>p. po_id p = X)
      (\<lambda>p. p\<lparr>po_lines := update_where (\<lambda>l. pl_id l = pl_id line) ?f (rs_lines st)\<rparr>) (ts_pos s)"
    by (simp add: update_where_def)
  have "step e st = st\<lparr>rs_lines := update_where (\<lambda>l. pl_id l = pl_id line) ?f (rs_lines st),
      rs_store := ?s1\<lparr>ts_levels := lv\<rparr>, rs_units := rs_units st + \<lfloor>re_qty e\<rfloor>,
      rs_crossed := rs_crossed st @ (if crossed line ?n then [pl_productId line] else [])\<rparr>"
    using Some lv by (simp add: step_def entry_step_def put_line_def Let_def)
  with assms(1) pos show ?thesis by (simp add: synced_def update_line_def)
qed

lemma loop_synced:
  assumes "synced X s st" and "distinct (map pl_id (rs_lines st))"
    and "\<And>p l. p \<in> set (ts_pos s) \<Longrightarrow> po_id p \<noteq> X \<Longrightarrow> l \<in> set (po_lines p) \<Longrightarrow> pl_id l \<notin> pl_id ` set (rs_lines st)"
  shows "synced X s (fold step es st)"
  using assms
proof (induction es arbitrary: st)
  case (Cons e es)
  have "pl_id ` set (rs_lines (step e st)) = pl_id ` set (rs_lines st)"
    using Cons.prems(2) by (simp add: step_lines image_image)
  moreover have "distinct (map pl_id (rs_lines (step e st)))"
    using Cons.prems(2) by (simp add: step_lines comp_def)
  ultimately show ?case using Cons step_synced [OF Cons.prems(1,3)] by simp
qed simp

end

text \<open>
  A loop whose crossing test composes: crossing somewhere along two changes in one direction
  is crossing over their sum. Then the products the loop collects are those of the named
  lines that cross over the whole batch.
\<close>

locale crossing_loop = entry_loop +
  assumes crossed_split: "0 \<le> a \<Longrightarrow> 0 \<le> b \<Longrightarrow>
    crossed l (pl_receivedQty l + delta a) \<or>
    crossed (l\<lparr>pl_receivedQty := pl_receivedQty l + delta a, pl_receivedAt := t\<rparr>)
      (pl_receivedQty l + delta a + delta b) \<longleftrightarrow>
    crossed l (pl_receivedQty l + delta (a + b))"
begin

definition crosses :: "receive_entry list \<Rightarrow> po_line \<Rightarrow> bool" where
  "crosses es l \<longleftrightarrow> named es (pl_id l) \<and> crossed l (pl_receivedQty (book es l))"

lemma crosses_Nil [simp]: "\<not> crosses [] l"
  by (simp add: crosses_def named_def)

lemma crosses_Cons:
  assumes "0 \<le> \<lfloor>re_qty e\<rfloor>" and "0 \<le> booked es (pl_id l)"
  shows "crosses (e # es) l \<longleftrightarrow> crosses [e] l \<or> crosses es (book [e] l)"
proof (cases "re_lineId e = pl_id l")
  case False
  then have "book [e] l = l" by (simp add: book_def named_Cons named_def [of "[]"])
  with False show ?thesis by (simp add: crosses_def named_Cons named_def [of "[]"] book_received booked_Cons)
next
  case True
  let ?a = "\<lfloor>re_qty e\<rfloor>" and ?b = "booked es (pl_id l)"
  have be: "book [e] l = l\<lparr>pl_receivedQty := pl_receivedQty l + delta ?a,
      pl_receivedAt := stamp (pl_receivedQty l + delta ?a)\<rparr>"
    using True by (simp add: book_def Let_def named_Cons booked_Cons booked_def [of "[]"])
  have b1: "booked [e] (pl_id l) = ?a" using True by (simp add: booked_Cons booked_def [of "[]"])
  note split = crossed_split [OF assms, of l "stamp (pl_receivedQty l + delta ?a)", folded be]
  have one: "crosses [e] l \<longleftrightarrow> crossed l (pl_receivedQty l + delta ?a)"
    using True by (simp add: crosses_def named_Cons book_received booked_Cons booked_def [of "[]"])
  have all: "crosses (e # es) l \<longleftrightarrow> crossed l (pl_receivedQty l + delta (?a + ?b))"
    using True by (simp add: crosses_def named_Cons book_received booked_Cons)
  show ?thesis
  proof (cases "named es (pl_id l)")
    case True
    then have "crosses es (book [e] l) \<longleftrightarrow>
        crossed (book [e] l) (pl_receivedQty l + delta ?a + delta ?b)"
      by (simp add: crosses_def book_received b1 be)
    with one all split show ?thesis by simp
  next
    case False
    then have "crosses es (book [e] l) = False" "?b = 0" by (simp_all add: crosses_def not_named_booked)
    with one all show ?thesis by simp
  qed
qed

lemma step_crossed:
  assumes "distinct (map pl_id (rs_lines st))"
  shows "set (rs_crossed (step e st)) = set (rs_crossed st) \<union> pl_productId ` {l \<in> set (rs_lines st). crosses [e] l}"
proof (cases "line_by_id (rs_lines st) (re_lineId e)")
  case None
  then have "\<not> crosses [e] l" if "l \<in> set (rs_lines st)" for l
    using that by (auto simp: crosses_def named_Cons named_def [of "[]"] line_by_id_None)
  with None show ?thesis by (auto simp: step_def entry_step_def)
next
  case (Some line)
  note line = line_by_id_Some [OF Some]
  have "{l \<in> set (rs_lines st). crosses [e] l} =
    (if crossed line (pl_receivedQty line + delta \<lfloor>re_qty e\<rfloor>) then {line} else {})"
    using line line_by_id_in [OF assms] Some
    by (auto simp: crosses_def named_Cons named_def [of "[]"] book_received booked_Cons booked_def [of "[]"])
  then show ?thesis using Some by (simp add: step_def entry_step_def put_line_def Let_def)
qed

lemma loop_crossed:
  assumes "distinct (map pl_id (rs_lines st))" and "\<And>e. e \<in> set es \<Longrightarrow> 0 < re_qty e"
  shows "set (rs_crossed (fold step es st)) = set (rs_crossed st) \<union> pl_productId ` {l \<in> set (rs_lines st). crosses es l}"
  using assms
proof (induction es arbitrary: st)
  case (Cons e es)
  have d: "distinct (map pl_id (rs_lines (step e st)))"
    using Cons.prems(1) by (simp add: step_lines comp_def)
  have c: "crosses (e # es) l \<longleftrightarrow> crosses [e] l \<or> crosses es (book [e] l)" for l
    using Cons.prems(2) by (intro crosses_Cons booked_nonneg) (auto simp: less_imp_le)
  have "pl_productId ` {l \<in> set (rs_lines (step e st)). crosses es l} =
      pl_productId ` {l \<in> set (rs_lines st). crosses es (book [e] l)}"
    using Cons.prems(1) by (auto simp: step_lines image_iff) force
  then show ?case
    using Cons.IH [OF d] Cons.prems(2) step_crossed [OF Cons.prems(1), of e] by (auto simp: c)
qed simp

end

lemma entry_units:
  assumes "\<And>e. e \<in> set es \<Longrightarrow> re_lineId e \<in> pl_id ` set (rs_lines st)"
  shows "rs_units (fold (entry_step delta stamp crossed stock) es st) =
    rs_units st + sum_list (map (\<lambda>e. \<lfloor>re_qty e\<rfloor>) es)"
  using assms
proof (induction es arbitrary: st)
  case (Cons e es)
  let ?st = "entry_step delta stamp crossed stock e st"
  obtain line where "line_by_id (rs_lines st) (re_lineId e) = Some line"
    using Cons.prems [of e] line_by_id_None by (metis list.set_intros(1) option.exhaust)
  then have u: "rs_units ?st = rs_units st + \<lfloor>re_qty e\<rfloor>" and "map pl_id (rs_lines ?st) = map pl_id (rs_lines st)"
    by (simp_all add: entry_step_def Let_def put_line_def map_update_where)
  then have "pl_id ` set (rs_lines ?st) = pl_id ` set (rs_lines st)" by (metis set_map)
  with u Cons.IH [of ?st] Cons.prems show ?case by simp
qed simp

lemma store_self: "\<exists>lv. s = s\<lparr>ts_levels := lv\<rparr>"
  by (rule exI [of _ "ts_levels s"]) simp

lemma receive_stock_frame: "\<exists>lv. (if sf then s else receive_stock loc p q s) = s\<lparr>ts_levels := lv\<rparr>"
  by (cases sf; simp only: if_True if_False receive_stock_def; (rule store_self | rule exI, rule refl))

lemma reverse_stock_frame: "\<exists>lv. (if sf then s else reverse_stock loc p q s) = s\<lparr>ts_levels := lv\<rparr>"
  by (cases sf; simp only: if_True if_False reverse_stock_def; (rule store_self | rule exI, rule refl))

lemma line_update:
  "pl_quantity (l\<lparr>pl_receivedQty := x, pl_receivedAt := t\<rparr>) = pl_quantity l"
  "pl_receivedQty (l\<lparr>pl_receivedQty := x, pl_receivedAt := t\<rparr>) = x"
  by simp_all

lemma receive_split: "0 \<le> a \<Longrightarrow> 0 \<le> b \<Longrightarrow> q \<le> r + a \<or> q \<le> r + a + b \<longleftrightarrow> q \<le> r + (a + b)" for a b q r :: int
  by linarith

lemma reverse_split:
  "0 \<le> a \<Longrightarrow> 0 \<le> b \<Longrightarrow>
   q \<le> r \<and> r + - a < q \<or> q \<le> r + - a \<and> r + - a + - b < q \<longleftrightarrow> q \<le> r \<and> r + - (a + b) < q"
  for a b q r :: int
  by linarith

interpretation receipt: crossing_loop "\<lambda>qty. qty" "\<lambda>_. Some now" "\<lambda>line nextQty. pl_quantity line \<le> nextQty"
    "\<lambda>p q s. if sf then s else receive_stock loc p q s" for now sf loc
proof (unfold_locales, goal_cases)
  case 1 show ?case by (rule refl)
next
  case 2 show ?case by (rule receive_stock_frame)
next
  case (3 a b l t) then show ?case unfolding line_update by (rule receive_split)
qed

interpretation reversal: crossing_loop "\<lambda>qty. - qty" "\<lambda>nextQty. if nextQty = 0 then None else Some now"
    "\<lambda>line nextQty. pl_quantity line \<le> pl_receivedQty line \<and> nextQty < pl_quantity line"
    "\<lambda>p q s. if sf then s else reverse_stock loc p q s" for now sf loc
proof (unfold_locales, goal_cases)
  case 1 show ?case by simp
next
  case 2 show ?case by (rule reverse_stock_frame)
next
  case (3 a b l t) then show ?case unfolding line_update by (rule reverse_split)
qed

end
