(* ===== verification/PoInvariant.thy ===== *)
theory PoInvariant
  imports PoReceive
begin

text \<open>
  The invariant of the purchase-order tables, and that every operation keeps it: the lines of
  an order, its subtotal and its status agree; a queue row that is on an order finds an
  outstanding line there, or a full one exactly when the row is completed; and a queue row
  never names a cancelled order. The receiving code checks each entry of a batch against the line
  as it stood before the batch, so a batch that names a line twice can over-receive it. The
  invariant therefore has two strengths, told apart by the flag \<open>once\<close>: with it, no batch so far named
  a line twice and received quantities lie between nought and what was ordered; without it, any
  batch may have come, and all the rest still holds.
\<close>

section \<open>The invariant\<close>

definition full_line :: "po_line \<Rightarrow> bool" where
  "full_line l \<longleftrightarrow> pl_quantity l \<le> pl_receivedQty l"

definition line_ok :: "bool \<Rightarrow> po_line \<Rightarrow> bool" where
  "line_ok once l \<longleftrightarrow> 1 \<le> pl_quantity l \<and> pl_lineTotalKes l = of_int (pl_quantity l) * pl_unitCostKes l \<and>
     (once \<longrightarrow> 0 \<le> pl_receivedQty l \<and> pl_receivedQty l \<le> pl_quantity l)"

text \<open>What a status says of the lines and the dates.\<close>

definition status_ok :: "bool \<Rightarrow> purchase_order \<Rightarrow> bool" where
  "status_ok once p \<longleftrightarrow>
     (po_status p \<in> {Draft, Sent, Cancelled} \<longrightarrow> nothing_in (po_lines p)) \<and>
     (po_status p = PartiallyReceived \<longrightarrow> (once \<longrightarrow> \<not> nothing_in (po_lines p)) \<and> \<not> all_full (po_lines p)) \<and>
     (po_status p = Received \<longrightarrow> all_full (po_lines p)) \<and>
     (po_status p \<in> {Sent, PartiallyReceived, Received} \<longrightarrow> po_sentAt p \<noteq> None) \<and>
     (po_status p = Draft \<longrightarrow> po_sentAt p = None) \<and>
     (po_receivedAt p \<noteq> None \<longleftrightarrow> po_status p = Received)"

definition po_wf :: "bool \<Rightarrow> purchase_order \<Rightarrow> bool" where
  "po_wf once p \<longleftrightarrow> po_lines p \<noteq> [] \<and> distinct (map pl_id (po_lines p)) \<and>
     distinct (map pl_productId (po_lines p)) \<and> (\<forall>l \<in> set (po_lines p). line_ok once l) \<and>
     po_subtotalKes p = sum_list (map pl_lineTotalKes (po_lines p)) \<and> status_ok once p"

definition line_ids :: "purchase_order \<Rightarrow> string set" where
  "line_ids p = pl_id ` set (po_lines p)"

definition row_ok :: "purchase_order \<Rightarrow> order_row \<Rightarrow> bool" where
  "row_ok p o' \<longleftrightarrow> po_status p \<noteq> Cancelled \<and>
     (\<exists>l \<in> set (po_lines p). or_productId o' = Some (pl_productId l) \<and> (or_status o' = OCompleted \<longleftrightarrow> full_line l))"

definition order_ok :: "purchase_order list \<Rightarrow> order_row \<Rightarrow> bool" where
  "order_ok pos o' \<longleftrightarrow>
     (or_status o' = OPending \<longrightarrow> or_purchaseOrderId o' = None) \<and>
     (\<forall>X. or_status o' \<in> {OOrdered, OCompleted} \<longrightarrow> or_purchaseOrderId o' = Some X \<longrightarrow>
        (\<exists>p \<in> set pos. po_id p = X \<and> row_ok p o'))"

definition store_ok :: "bool \<Rightarrow> tenant_store \<Rightarrow> bool" where
  "store_ok once s \<longleftrightarrow>
     distinct (map po_id (ts_pos s)) \<and> distinct (map po_poNumber (ts_pos s)) \<and>
     distinct (map or_id (ts_orders s)) \<and>
     (\<forall>p \<in> set (ts_pos s). \<forall>q \<in> set (ts_pos s). po_id p \<noteq> po_id q \<longrightarrow> line_ids p \<inter> line_ids q = {}) \<and>
     (\<forall>p \<in> set (ts_pos s). po_wf once p) \<and> (\<forall>o' \<in> set (ts_orders s). order_ok (ts_pos s) o')"

lemma store_okD:
  assumes "store_ok once s"
  shows "distinct (map po_id (ts_pos s))" "distinct (map po_poNumber (ts_pos s))" "distinct (map or_id (ts_orders s))"
    "p \<in> set (ts_pos s) \<Longrightarrow> q \<in> set (ts_pos s) \<Longrightarrow> po_id p \<noteq> po_id q \<Longrightarrow> line_ids p \<inter> line_ids q = {}"
    "p \<in> set (ts_pos s) \<Longrightarrow> po_wf once p" "o' \<in> set (ts_orders s) \<Longrightarrow> order_ok (ts_pos s) o'"
  using assms by (simp_all add: store_ok_def)

lemma store_ok_weaken: "store_ok once s \<Longrightarrow> store_ok False s"
  by (auto simp: store_ok_def po_wf_def line_ok_def status_ok_def)

lemma find_po_Some: "find_po s X = Some p \<Longrightarrow> p \<in> set (ts_pos s) \<and> po_id p = X \<and> po_deletedAt p = None"
  by (auto simp: find_po_def find_Some_iff)

lemma po_unique: "store_ok once s \<Longrightarrow> p \<in> set (ts_pos s) \<Longrightarrow> q \<in> set (ts_pos s) \<Longrightarrow> po_id p = po_id q \<Longrightarrow> p = q"
  using store_okD(1) [of once s] by (auto simp: distinct_map dest: inj_onD)

section \<open>Updating one order\<close>

abbreviation put_po :: "purchase_order \<Rightarrow> purchase_order list \<Rightarrow> purchase_order list" where
  "put_po p' \<equiv> update_where (\<lambda>q. po_id q = po_id p') (\<lambda>_. p')"

lemma put_po_put_po: "po_id a = po_id b \<Longrightarrow> put_po b (put_po a ps) = put_po b ps"
  by (simp add: update_where_def)

lemma update_is_put:
  assumes "store_ok once s" and "p \<in> set (ts_pos s)" and "\<And>q. P q \<Longrightarrow> po_id q = po_id p" and "P p"
    and "po_id (f p) = po_id p"
  shows "update_where P f (ts_pos s) = put_po (f p) (ts_pos s)"
proof -
  have "(if P q then f q else q) = (if po_id q = po_id (f p) then f p else q)" if q: "q \<in> set (ts_pos s)" for q
  proof (cases "q = p")
    case True
    with assms(4,5) show ?thesis by simp
  next
    case False
    with po_unique [OF assms(1) q assms(2)] have "po_id q \<noteq> po_id p" by blast
    with assms(3) [of q] assms(5) show ?thesis by auto
  qed
  then show ?thesis by (simp add: update_where_def)
qed

lemma set_put_po:
  assumes "store_ok once s" and "p \<in> set (ts_pos s)" and "po_id p' = po_id p"
  shows "set (put_po p' (ts_pos s)) = insert p' (set (ts_pos s) - {p})"
  using assms po_unique [OF assms(1) _ assms(2)] by (auto simp: set_update_where image_iff)

text \<open>Replacing one order by a well-formed one whose rows still find their lines keeps the store.\<close>

lemma store_ok_update:
  assumes ok: "store_ok once s" and p: "p \<in> set (ts_pos s)"
    and pos: "ts_pos s' = put_po p' (ts_pos s)"
    and p': "po_id p' = po_id p" "po_poNumber p' = po_poNumber p" "line_ids p' \<subseteq> line_ids p" "po_wf once p'"
    and ord: "ts_orders s' = map g (ts_orders s)"
    and gid: "\<And>o'. or_id (g o') = or_id o'"
    and same: "\<And>o'. or_purchaseOrderId o' \<noteq> Some (po_id p) \<Longrightarrow> g o' = o'"
    and mine: "\<And>o'. or_purchaseOrderId o' = Some (po_id p) \<Longrightarrow> or_status o' \<noteq> OPending \<Longrightarrow>
      (or_status o' \<in> {OOrdered, OCompleted} \<Longrightarrow> row_ok p o') \<Longrightarrow> order_ok [p'] (g o')"
  shows "store_ok once s'"
proof -
  note S = set_put_po [OF ok p p'(1)]
  have ids: "map po_id (ts_pos s') = map po_id (ts_pos s)" unfolding pos update_where_def
    by (simp add: p'(1))
  have "map po_poNumber (ts_pos s') = map po_poNumber (ts_pos s)" unfolding pos update_where_def
    using po_unique [OF ok _ p] p'(1,2) by auto
  then have numbers: "distinct (map po_poNumber (ts_pos s'))" using store_okD(2) [OF ok] by simp
  have rows: "distinct (map or_id (ts_orders s'))"
    using store_okD(3) [OF ok] by (simp add: ord gid comp_def)
  have apart: "line_ids a \<inter> line_ids b = {}"
    if "a \<in> set (ts_pos s')" "b \<in> set (ts_pos s')" "po_id a \<noteq> po_id b" for a b
    using that store_okD(4) [OF ok, of p] store_okD(4) [OF ok, of _ p] store_okD(4) [OF ok, of a b] p p'(1,3)
    unfolding pos S by fastforce
  have wfs: "po_wf once a" if "a \<in> set (ts_pos s')" for a
    using that store_okD(5) [OF ok] p'(4) unfolding pos S by auto
  have oks: "order_ok (ts_pos s') o2" if "o2 \<in> set (ts_orders s')" for o2
  proof -
    from that obtain o1 where o1: "o1 \<in> set (ts_orders s)" "o2 = g o1" by (auto simp: ord)
    note k = store_okD(6) [OF ok o1(1)]
    show ?thesis
    proof (cases "or_purchaseOrderId o1 = Some (po_id p)")
      case True
      have "row_ok p o1" if "or_status o1 \<in> {OOrdered, OCompleted}"
        using k that True po_unique [OF ok _ p] by (auto simp: order_ok_def)
      moreover have "or_status o1 \<noteq> OPending" using k True by (auto simp: order_ok_def)
      ultimately have "order_ok [p'] o2" using mine [OF True] o1(2) by simp
      then show ?thesis unfolding order_ok_def pos S by auto
    next
      case False
      have "q \<in> set (ts_pos s')" if "q \<in> set (ts_pos s)" "Some (po_id q) = or_purchaseOrderId o1" for q
        using that False unfolding pos S by auto
      with k same [OF False] o1(2) show ?thesis by (auto simp: order_ok_def) metis+
    qed
  qed
  show ?thesis unfolding store_ok_def ids
    by (intro conjI ballI impI store_okD(1) [OF ok] numbers rows apart wfs oks)
qed

lemma line_of_wf: "po_wf once p \<Longrightarrow> l \<in> set (po_lines p) \<Longrightarrow> line_ok once l"
  by (simp add: po_wf_def)

lemma nothing_in_not_full:
  assumes "po_wf once p" and "nothing_in (po_lines p)" and "l \<in> set (po_lines p)"
  shows "\<not> full_line l"
proof -
  have "1 \<le> pl_quantity l" using line_of_wf [OF assms(1,3)] unfolding line_ok_def by blast
  moreover have "pl_receivedQty l = 0" using assms(2,3) by (simp add: nothing_in_def)
  ultimately show ?thesis unfolding full_line_def by linarith
qed

lemma row_ordered: "po_wf once p \<Longrightarrow> nothing_in (po_lines p) \<Longrightarrow> row_ok p o' \<Longrightarrow> or_status o' \<noteq> OCompleted"
  using nothing_in_not_full by (auto simp: row_ok_def)

section \<open>Cancelling and sending\<close>

lemma cancel_ok:
  assumes ok: "store_ok once s"
  shows "store_ok once (snd (cancelPo X now actor s))"
proof (cases "find_po s X")
  case None with ok show ?thesis by (simp add: cancelPo_def)
next
  case (Some p)
  note p = find_po_Some [OF Some]
  show ?thesis
  proof (cases "po_status p = Draft \<or> po_status p = Sent")
    case False with ok Some show ?thesis by (simp add: cancelPo_def)
  next
    case True
    let ?p = "p\<lparr>po_status := Cancelled, po_cancelledAt := Some now, po_cancelledByName := actor\<rparr>"
    let ?s = "snd (cancelPo X now actor s)"
    have wf: "po_wf once p" using store_okD(5) [OF ok] p by blast
    then have ni: "nothing_in (po_lines p)" using True by (auto simp: po_wf_def status_ok_def)
    have "update_where (\<lambda>q. po_id q = X) (\<lambda>q. q\<lparr>po_status := Cancelled, po_cancelledAt := Some now, po_cancelledByName := actor\<rparr>) (ts_pos s) =
        put_po ?p (ts_pos s)"
      by (rule update_is_put [OF ok, of p]) (use p in simp_all)
    then have pos: "ts_pos ?s = put_po ?p (ts_pos s)"
      using True Some by (auto simp: cancelPo_def log_def set_po_def set_orders_def)
    have ord: "ts_orders ?s = map (\<lambda>o'. if ordered_on X o' then requeue o' else o') (ts_orders s)"
      using True Some by (auto simp: cancelPo_def log_def set_po_def set_orders_def update_where_def)
    show ?thesis
    proof (rule store_ok_update [OF ok conjunct1 [OF p] pos _ _ _ _ ord])
      show "po_wf once ?p" using wf ni True by (auto simp: po_wf_def status_ok_def)
    next
      fix o' assume a: "or_purchaseOrderId o' = Some (po_id p)" "or_status o' \<noteq> OPending"
        and r: "or_status o' \<in> {OOrdered, OCompleted} \<Longrightarrow> row_ok p o'"
      then have "or_status o' \<noteq> OCompleted" using row_ordered [OF wf ni] by blast
      then show "order_ok [?p] (if ordered_on X o' then requeue o' else o')"
        using a p by (cases "or_status o'") (auto simp: order_ok_def ordered_on_def requeue_def)
    qed (use p in \<open>auto simp: line_ids_def ordered_on_def requeue_def\<close>)
  qed
qed

text \<open>A change of dates and status that leaves the lines alone.\<close>

lemma row_ok_same_lines:
  "po_lines p' = po_lines p \<Longrightarrow> po_status p' \<noteq> Cancelled \<Longrightarrow> or_productId o2 = or_productId o1 \<Longrightarrow>
   or_status o2 = or_status o1 \<Longrightarrow> row_ok p o1 \<Longrightarrow> row_ok p' o2"
  by (simp add: row_ok_def)

lemma send_read_Some:
  assumes "send_read s X now = Inr t"
  shows "tk_po t \<in> set (ts_pos s) \<and> po_id (tk_po t) = X \<and> po_status (tk_po t) = Draft \<and>
    po_deletedAt (tk_po t) = None \<and> tk_sentAt t = now \<and> tk_to t \<noteq> []"
  using assms find_po_Some [of s X] by (auto simp: send_read_def split: option.splits if_splits)

definition sent_po :: "send_ticket \<Rightarrow> purchase_order" where
  "sent_po t = (tk_po t)\<lparr>po_status := Sent, po_sentAt := Some (tk_sentAt t), po_expectedAt := tk_expectedAt t\<rparr>"

lemma count_where_pos: "r \<in> set rows \<Longrightarrow> P r \<Longrightarrow> count_where P rows \<noteq> 0"
  by (auto simp: count_where_def filter_empty_conv)

lemma send_claim_eq:
  assumes ok: "store_ok once s" and t: "send_read s X now = Inr t"
  shows "send_claim t s = (Inr (), s\<lparr>ts_pos := put_po (sent_po t) (ts_pos s)\<rparr>)"
proof -
  note p = send_read_Some [OF t]
  let ?P = "\<lambda>q. po_id q = po_id (tk_po t) \<and> po_status q = Draft \<and> po_deletedAt q = None"
  have c: "count_where ?P (ts_pos s) \<noteq> 0" using p by (intro count_where_pos [of "tk_po t"]) simp_all
  have "update_where ?P (\<lambda>q. q\<lparr>po_status := Sent, po_sentAt := Some (tk_sentAt t), po_expectedAt := tk_expectedAt t\<rparr>)
      (ts_pos s) = put_po (sent_po t) (ts_pos s)"
    unfolding sent_po_def by (rule update_is_put [OF ok, of "tk_po t"]) (use p in simp_all)
  then show ?thesis unfolding send_claim_def Let_def by (simp only: if_not_P [OF c])
qed

lemma sent_po_wf: "po_wf once (tk_po t) \<Longrightarrow> po_status (tk_po t) = Draft \<Longrightarrow> po_wf once (sent_po t)"
  by (auto simp: po_wf_def status_ok_def sent_po_def)

lemma claim_ok:
  assumes ok: "store_ok once s" and t: "send_read s X now = Inr t"
  shows "store_ok once (s\<lparr>ts_pos := put_po (sent_po t) (ts_pos s)\<rparr>)"
proof -
  note p = send_read_Some [OF t]
  have wf: "po_wf once (tk_po t)" using store_okD(5) [OF ok] p by blast
  show ?thesis
  proof (rule store_ok_update [OF ok, of "tk_po t" _ "sent_po t" "\<lambda>o'. o'"])
    show "po_wf once (sent_po t)" using sent_po_wf [OF wf] p by blast
  next
    fix o' assume "or_purchaseOrderId o' = Some (po_id (tk_po t))" "or_status o' \<noteq> OPending"
      "or_status o' \<in> {OOrdered, OCompleted} \<Longrightarrow> row_ok (tk_po t) o'"
    then show "order_ok [sent_po t] o'" by (auto simp: order_ok_def sent_po_def row_ok_def)
  qed (use p in \<open>auto simp: sent_po_def line_ids_def\<close>)
qed

lemma settle_ok:
  assumes ok: "store_ok once s" and t: "send_read s X now = Inr t"
  shows "store_ok once (snd (send_settle t outcome (s\<lparr>ts_pos := put_po (sent_po t) (ts_pos s)\<rparr>)))"
proof -
  let ?s1 = "s\<lparr>ts_pos := put_po (sent_po t) (ts_pos s)\<rparr>"
  note p = send_read_Some [OF t] and ok1 = claim_ok [OF ok t]
  have wf: "po_wf once (tk_po t)" using store_okD(5) [OF ok] p by blast
  have in1: "sent_po t \<in> set (ts_pos ?s1)"
    using set_put_po [OF ok, of "tk_po t" "sent_po t"] p by (simp add: sent_po_def)
  show ?thesis
  proof (cases "outcome = EmailThrew")
    case True
    let ?p = "(sent_po t)\<lparr>po_status := Draft, po_sentAt := None, po_expectedAt := None\<rparr>"
    have pos: "ts_pos (snd (send_settle t outcome ?s1)) = put_po ?p (ts_pos ?s1)"
      using True update_is_put [OF ok1 in1, of "\<lambda>q. po_id q = X \<and> po_status q = Sent"
          "\<lambda>q. q\<lparr>po_status := Draft, po_sentAt := None, po_expectedAt := None\<rparr>"] p
      by (simp add: send_settle_def Let_def sent_po_def)
    show ?thesis
    proof (rule store_ok_update [OF ok1 in1 pos, of "\<lambda>o'. o'"])
      show "po_wf once ?p" using wf p by (auto simp: po_wf_def status_ok_def sent_po_def)
    next
      fix o' assume "or_purchaseOrderId o' = Some (po_id (sent_po t))" "or_status o' \<noteq> OPending"
        "or_status o' \<in> {OOrdered, OCompleted} \<Longrightarrow> row_ok (sent_po t) o'"
      then show "order_ok [?p] o'" by (auto simp: order_ok_def row_ok_def)
    qed (use True in \<open>auto simp: line_ids_def send_settle_def Let_def\<close>)
  next
    case False
    let ?g = "\<lambda>o'. if tk_expectedAt t \<noteq> None \<and> ordered_on X o' then o'\<lparr>or_expectedArrivalAt := tk_expectedAt t\<rparr> else o'"
    have pos: "ts_pos (snd (send_settle t outcome ?s1)) = put_po (sent_po t) (ts_pos ?s1)"
      using False by (auto simp: send_settle_def Let_def log_def set_orders_def put_po_put_po split: option.split)
    have ord: "ts_orders (snd (send_settle t outcome ?s1)) = map ?g (ts_orders ?s1)"
      using False p by (cases "tk_expectedAt t")
        (simp_all add: send_settle_def Let_def log_def set_orders_def update_where_def)
    show ?thesis
    proof (rule store_ok_update [OF ok1 in1 pos _ _ _ _ ord])
      show "po_wf once (sent_po t)" using sent_po_wf [OF wf] p by blast
    next
      fix o' assume "or_purchaseOrderId o' = Some (po_id (sent_po t))" "or_status o' \<noteq> OPending"
        "or_status o' \<in> {OOrdered, OCompleted} \<Longrightarrow> row_ok (sent_po t) o'"
      then show "order_ok [sent_po t] (?g o')" by (auto simp: order_ok_def row_ok_def)
    qed (use p in \<open>auto simp: ordered_on_def sent_po_def\<close>)
  qed
qed

lemma send_ok: "store_ok once s \<Longrightarrow> store_ok once (snd (sendPoToSupplier X now outcome s))"
  using send_claim_eq settle_ok
  by (cases "send_read s X now") (auto simp: sendPoToSupplier_def split: prod.splits sum.splits)

section \<open>Editing a draft\<close>

lemma update_put:
  "P a \<Longrightarrow> (\<And>q. P q \<Longrightarrow> po_id q = po_id a) \<Longrightarrow> po_id (f a) = po_id a \<Longrightarrow>
   update_where P f (put_po a ps) = put_po (f a) ps"
proof -
  assume a: "P a" "\<And>q. P q \<Longrightarrow> po_id q = po_id a" "po_id (f a) = po_id a"
  have "(if P (if po_id q = po_id a then a else q) then f (if po_id q = po_id a then a else q)
      else (if po_id q = po_id a then a else q)) = (if po_id q = po_id (f a) then f a else q)" for q
  proof (cases "po_id q = po_id a")
    case True then show ?thesis using a(1,3) by simp
  next
    case False
    then have "\<not> P q" using a(2) by blast
    with False a(3) show ?thesis by simp
  qed
  then show ?thesis by (simp add: update_where_def comp_def)
qed

text \<open>A write to a line by its id reaches one order only.\<close>

lemma lines_put:
  assumes ok: "store_ok once s" and p: "p \<in> set (ts_pos s)" and l: "l \<in> set (po_lines p)"
    and F: "\<And>ls. pl_id l \<notin> pl_id ` set ls \<Longrightarrow> F ls = ls"
  shows "map (\<lambda>q. q\<lparr>po_lines := F (po_lines q)\<rparr>) (ts_pos s) = put_po (p\<lparr>po_lines := F (po_lines p)\<rparr>) (ts_pos s)"
proof -
  have "q\<lparr>po_lines := F (po_lines q)\<rparr> =
      (if po_id q = po_id p then p\<lparr>po_lines := F (po_lines p)\<rparr> else q)" if q: "q \<in> set (ts_pos s)" for q
  proof (cases "po_id q = po_id p")
    case True
    with po_unique [OF ok q p] show ?thesis by simp
  next
    case False
    have "pl_id l \<in> line_ids p" using l by (simp add: line_ids_def)
    with store_okD(4) [OF ok q p False] have "pl_id l \<notin> pl_id ` set (po_lines q)"
      unfolding line_ids_def by blast
    with F False show ?thesis by simp
  qed
  then show ?thesis by (simp add: update_where_def)
qed

lemma edit_read_Some:
  assumes "edit_read s X lid = Inr (p, l)"
  shows "p \<in> set (ts_pos s)" "po_id p = X" "po_status p = Draft" "l \<in> set (po_lines p)" "pl_id l = lid"
  using assms find_po_Some [of s X]
  by (auto simp: edit_read_def find_Some_iff split: option.splits if_splits)

lemma has_line_in: "p \<in> set (ts_pos s) \<Longrightarrow> l \<in> set (po_lines p) \<Longrightarrow> has_line (pl_id l) s"
  by (auto simp: has_line_def)

text \<open>The subtotal written is that of the given lines, on the order that holds them.\<close>

lemma rewrite_put:
  assumes "ts_pos s = put_po p' ps" and "p' \<in> set (put_po p' ps)" and "po_status p' = Draft"
  shows "rewrite_subtotal (po_id p') ls s =
    (Inr (subtotal (map (\<lambda>l. of_int (pl_quantity l) * pl_unitCostKes l) ls)),
     s\<lparr>ts_pos := put_po (p'\<lparr>po_subtotalKes := subtotal (map (\<lambda>l. of_int (pl_quantity l) * pl_unitCostKes l) ls)\<rparr>) ps\<rparr>)"
proof -
  let ?P = "\<lambda>q. po_id q = po_id p' \<and> po_status q = Draft"
  have "count_where ?P (put_po p' ps) \<noteq> 0" using assms(2,3) by (intro count_where_pos [of p']) simp_all
  moreover have "update_where ?P f (put_po p' ps) = put_po (f p') ps" if "\<And>q. po_id (f q) = po_id q" for f
    using assms(3) that by (intro update_put) simp_all
  ultimately show ?thesis unfolding rewrite_subtotal_def Let_def assms(1) by simp
qed

lemma lines_subtotal:
  "(\<And>l. l \<in> set ls \<Longrightarrow> pl_lineTotalKes l = of_int (pl_quantity l) * pl_unitCostKes l) \<Longrightarrow>
   sum_list (map pl_lineTotalKes ls) = subtotal (map (\<lambda>l. of_int (pl_quantity l) * pl_unitCostKes l) ls)"
  by (simp add: subtotal_def cong: map_cong)

definition repriced :: "purchase_order \<Rightarrow> po_line list \<Rightarrow> purchase_order" where
  "repriced p ls = p\<lparr>po_lines := ls,
     po_subtotalKes := subtotal (map (\<lambda>l. of_int (pl_quantity l) * pl_unitCostKes l) ls)\<rparr>"

lemma repriced_simps [simp]:
  "po_lines (repriced p ls) = ls" "po_id (repriced p ls) = po_id p" "po_status (repriced p ls) = po_status p"
  "po_poNumber (repriced p ls) = po_poNumber p"
  by (simp_all add: repriced_def)

text \<open>A draft whose lines are changed but still unreceived stays well formed once re-totalled.\<close>

lemma draft_lines_wf:
  assumes "po_wf once p" and "po_status p = Draft" and "ls \<noteq> []" and "distinct (map pl_id ls)"
    and "distinct (map pl_productId ls)" and "\<And>l. l \<in> set ls \<Longrightarrow> line_ok once l \<and> pl_receivedQty l = 0"
  shows "po_wf once (repriced p ls)"
proof -
  have "sum_list (map pl_lineTotalKes ls) = subtotal (map (\<lambda>l. of_int (pl_quantity l) * pl_unitCostKes l) ls)"
    by (rule lines_subtotal) (use assms(6) in \<open>auto simp: line_ok_def\<close>)
  with assms show ?thesis by (auto simp: po_wf_def status_ok_def nothing_in_def repriced_def)
qed

lemma draft_unreceived: "po_wf once p \<Longrightarrow> po_status p = Draft \<Longrightarrow> l \<in> set (po_lines p) \<Longrightarrow> pl_receivedQty l = 0"
  by (auto simp: po_wf_def status_ok_def nothing_in_def)

definition with_qty :: "string \<Rightarrow> int \<Rightarrow> po_line list \<Rightarrow> po_line list" where
  "with_qty lid q = update_where (\<lambda>l. pl_id l = lid)
     (\<lambda>l. l\<lparr>pl_quantity := q, pl_lineTotalKes := of_int q * pl_unitCostKes l\<rparr>)"

lemma qty_write_eq:
  assumes ok: "store_ok once s" and r: "edit_read s X lid = Inr (p, l)"
  shows "qty_write (p, l) q s =
    (Inr (length (po_lines p), po_subtotalKes (repriced p (with_qty lid q (po_lines p)))),
     log X (PoQtyChanged lid (pl_quantity l) q (po_subtotalKes (repriced p (with_qty lid q (po_lines p)))))
       (s\<lparr>ts_pos := put_po (repriced p (with_qty lid q (po_lines p))) (ts_pos s)\<rparr>))"
proof -
  note e = edit_read_Some [OF r]
  let ?f = "\<lambda>x. x\<lparr>pl_quantity := q, pl_lineTotalKes := of_int q * pl_unitCostKes l\<rparr>"
  let ?L = "update_where (\<lambda>x. pl_id x = pl_id l) ?f"
  have same: "?L (po_lines p) = with_qty lid q (po_lines p)"
  proof -
    have "x = l" if "x \<in> set (po_lines p)" "pl_id x = pl_id l" for x
      using that e(1,4) store_okD(5) [OF ok e(1)] by (auto simp: po_wf_def distinct_map dest: inj_onD)
    then show ?thesis by (auto simp: with_qty_def update_where_def e(5) [symmetric])
  qed
  have "?L ls = ls" if "pl_id l \<notin> pl_id ` set ls" for ls using that by (intro update_where_nop) (metis imageI)
  from lines_put [OF ok e(1,4) this]
  have pos: "ts_pos (update_line (pl_id l) ?f s) = put_po (p\<lparr>po_lines := with_qty lid q (po_lines p)\<rparr>) (ts_pos s)"
    by (simp add: update_line_def same)
  let ?p1 = "p\<lparr>po_lines := with_qty lid q (po_lines p)\<rparr>"
  have in1: "?p1 \<in> set (put_po ?p1 (ts_pos s))"
    using set_put_po [OF ok e(1), of ?p1] by simp
  have sub: "map (\<lambda>l. of_int (pl_quantity l) * pl_unitCostKes l) (update_where (\<lambda>x. pl_id x = lid) (\<lambda>x. x\<lparr>pl_quantity := q\<rparr>) (po_lines p)) =
      map (\<lambda>l. of_int (pl_quantity l) * pl_unitCostKes l) (with_qty lid q (po_lines p))"
    by (simp add: with_qty_def update_where_def)
  show ?thesis
    using rewrite_put [OF pos in1] e(2,3,5) has_line_in [OF e(1,4)]
    by (simp add: qty_write_def Let_def sub repriced_def update_line_def)
qed

lemma no_order_change:
  "or_status o' \<noteq> OPending \<Longrightarrow> (or_status o' \<in> {OOrdered, OCompleted} \<Longrightarrow> row_ok p o') \<Longrightarrow>
   or_purchaseOrderId o' = Some (po_id p) \<Longrightarrow> po_id p' = po_id p \<Longrightarrow>
   (row_ok p o' \<Longrightarrow> row_ok p' o') \<Longrightarrow> order_ok [p'] o'"
  by (auto simp: order_ok_def)

lemma set_qty_ok:
  assumes ok: "store_ok once s"
  shows "store_ok once (snd (setPoLineQuantity X lid q s))"
proof (cases "\<not> is_integer q \<or> q < 1")
  case True with ok show ?thesis by (simp add: setPoLineQuantity_def)
next
  case False
  then have q1: "1 \<le> \<lfloor>q\<rfloor>" by simp
  show ?thesis
  proof (cases "edit_read s X lid")
    case (Inl e) with False ok show ?thesis by (simp add: setPoLineQuantity_def)
  next
    case (Inr pl)
    then obtain p l where r: "edit_read s X lid = Inr (p, l)" by (metis surj_pair)
    note e = edit_read_Some [OF r]
    have wf: "po_wf once p" by (rule store_okD(5) [OF ok e(1)])
    let ?L = "with_qty lid \<lfloor>q\<rfloor> (po_lines p)"
    let ?p = "repriced p ?L"
    have s': "snd (setPoLineQuantity X lid q s) =
        log X (PoQtyChanged lid (pl_quantity l) \<lfloor>q\<rfloor> (po_subtotalKes ?p)) (s\<lparr>ts_pos := put_po ?p (ts_pos s)\<rparr>)"
      using False r qty_write_eq [OF ok r, of "\<lfloor>q\<rfloor>"] by (simp add: setPoLineQuantity_def)
    have L: "\<exists>x \<in> set (po_lines p). y = (if pl_id x = lid
        then x\<lparr>pl_quantity := \<lfloor>q\<rfloor>, pl_lineTotalKes := of_int \<lfloor>q\<rfloor> * pl_unitCostKes x\<rparr> else x)" if "y \<in> set ?L" for y
      using that by (auto simp: with_qty_def set_update_where)
    have lk: "line_ok once y \<and> pl_receivedQty y = 0" if "y \<in> set ?L" for y
      using L [OF that] q1 line_of_wf [OF wf] draft_unreceived [OF wf e(3)] by (auto simp: line_ok_def)
    have ids: "map pl_id ?L = map pl_id (po_lines p)" "map pl_productId ?L = map pl_productId (po_lines p)"
      unfolding with_qty_def by (simp_all add: map_update_where)
    show ?thesis
    proof (rule store_ok_update [OF ok e(1), of _ ?p "\<lambda>o'. o'"])
      have ne: "?L \<noteq> []" using wf by (simp add: with_qty_def po_wf_def update_where_def)
      have ds: "distinct (map pl_id ?L)" "distinct (map pl_productId ?L)"
        unfolding ids using wf by (simp_all add: po_wf_def)
      show "po_wf once ?p" by (rule draft_lines_wf [OF wf e(3) ne ds]) (rule lk)
      show "line_ids ?p \<subseteq> line_ids p" unfolding line_ids_def repriced_simps by (metis ids(1) order_refl set_map)
    next
      fix o' assume a: "or_purchaseOrderId o' = Some (po_id p)" "or_status o' \<noteq> OPending"
        "or_status o' \<in> {OOrdered, OCompleted} \<Longrightarrow> row_ok p o'"
      have "row_ok ?p o'" if k: "row_ok p o'"
      proof -
        have ni: "nothing_in (po_lines p)" using draft_unreceived [OF wf e(3)] by (simp add: nothing_in_def)
        from k obtain x where x: "x \<in> set (po_lines p)" "or_productId o' = Some (pl_productId x)"
          by (auto simp: row_ok_def)
        from x(1) have "pl_productId x \<in> set (map pl_productId ?L)" unfolding ids(2) by simp
        then obtain y where y: "y \<in> set ?L" "pl_productId y = pl_productId x" by auto
        have "\<not> full_line y" using lk [OF y(1)] by (auto simp: full_line_def line_ok_def)
        then show ?thesis using x y row_ordered [OF wf ni k] e(3)
          by (auto simp: row_ok_def intro!: bexI [of _ y])
      qed
      with a show "order_ok [?p] o'" by (intro no_order_change [of o' p ?p]) auto
    qed (use s' in \<open>simp_all add: log_def\<close>)
  qed
qed

end
