(* ===== verification/PoLifecycle.thy ===== *)
theory PoLifecycle
  imports PoInvariant
begin

text \<open>
  The rest of the invariant's preservation (removing a line, creating an order, receiving and
  reversing). A batch that names a line twice keeps the weaker invariant only.
\<close>

section \<open>Removing a line\<close>

lemma remove_write_eq:
  assumes ok: "store_ok once s" and r: "edit_read s X lid = Inr (p, l)"
  defines "ls \<equiv> filter (\<lambda>x. pl_id x \<noteq> lid) (po_lines p)"
    and "g \<equiv> \<lambda>o'. if ordered_on X o' \<and> or_productId o' = Some (pl_productId l) then requeue o' else o'"
  shows "remove_write (p, l) s =
    (Inr (length ls, po_subtotalKes (repriced p ls)),
     log X (PoLineRemoved lid (length ls) (po_subtotalKes (repriced p ls)))
       (s\<lparr>ts_orders := map g (ts_orders s), ts_pos := put_po (repriced p ls) (ts_pos s)\<rparr>))"
proof -
  note e = edit_read_Some [OF r]
  let ?F = "filter (\<lambda>x. pl_id x \<noteq> pl_id l)"
  have "?F xs = xs" if "pl_id l \<notin> pl_id ` set xs" for xs using that by (intro filter_True) (metis imageI)
  from lines_put [OF ok e(1,4) this]
  have "ts_pos (delete_line (pl_id l) s) = put_po (p\<lparr>po_lines := ls\<rparr>) (ts_pos s)"
    by (simp add: delete_line_def ls_def e(5))
  then have pos: "ts_pos (set_orders P f (delete_line (pl_id l) s)) = put_po (p\<lparr>po_lines := ls\<rparr>) (ts_pos s)" for P f
    by (simp add: set_orders_def)
  have in1: "p\<lparr>po_lines := ls\<rparr> \<in> set (put_po (p\<lparr>po_lines := ls\<rparr>) (ts_pos s))"
    using set_put_po [OF ok e(1), of "p\<lparr>po_lines := ls\<rparr>"] by simp
  show ?thesis
    using rewrite_put [OF pos in1] e(2,3,5) has_line_in [OF e(1,4)]
    by (simp add: remove_write_def Let_def repriced_def ls_def [symmetric] g_def set_orders_def
        delete_line_def update_where_def)
qed

lemma filter_one_left:
  assumes "distinct (map pl_id xs)" and "filter (\<lambda>x. pl_id x \<noteq> i) xs = []" and "xs \<noteq> []"
  shows "length xs = 1"
proof -
  have "set (map pl_id xs) \<subseteq> {i}" using assms(2) by (auto simp: filter_empty_conv)
  then have "card (set (map pl_id xs)) \<le> card {i}" by (rule card_mono [rotated]) simp
  then have "length xs \<le> 1" using distinct_card [OF assms(1)] by simp
  with assms(3) show ?thesis by (cases xs) auto
qed

lemma remove_ok:
  assumes ok: "store_ok once s"
  shows "store_ok once (snd (removePoLine X lid s))"
proof (cases "edit_read s X lid")
  case (Inl e) with ok show ?thesis by (simp add: removePoLine_def)
next
  case (Inr pl)
  then obtain p l where r: "edit_read s X lid = Inr (p, l)" by (metis surj_pair)
  note e = edit_read_Some [OF r]
  have wf: "po_wf once p" by (rule store_okD(5) [OF ok e(1)])
  show ?thesis
  proof (cases "length (po_lines p) = 1")
    case True with ok r show ?thesis by (simp add: removePoLine_def)
  next
    case False
    let ?ls = "filter (\<lambda>x. pl_id x \<noteq> lid) (po_lines p)"
    let ?g = "\<lambda>o'. if ordered_on X o' \<and> or_productId o' = Some (pl_productId l) then requeue o' else o'"
    have s': "snd (removePoLine X lid s) = log X (PoLineRemoved lid (length ?ls) (po_subtotalKes (repriced p ?ls)))
        (s\<lparr>ts_orders := map ?g (ts_orders s), ts_pos := put_po (repriced p ?ls) (ts_pos s)\<rparr>)"
      using False r remove_write_eq [OF ok r] by (simp add: removePoLine_def)
    have ne: "?ls \<noteq> []" using wf False filter_one_left [of "po_lines p" lid] by (auto simp: po_wf_def)
    have ds: "distinct (map pl_id ?ls)" "distinct (map pl_productId ?ls)"
      using wf by (simp_all add: po_wf_def distinct_map_filter)
    show ?thesis
    proof (rule store_ok_update [OF ok e(1), of _ "repriced p ?ls" ?g])
      show "po_wf once (repriced p ?ls)"
        by (rule draft_lines_wf [OF wf e(3) ne ds]) (simp add: line_of_wf [OF wf] draft_unreceived [OF wf e(3)])
    next
      fix o' assume a: "or_purchaseOrderId o' = Some (po_id p)" "or_status o' \<noteq> OPending"
        "or_status o' \<in> {OOrdered, OCompleted} \<Longrightarrow> row_ok p o'"
      have ni: "nothing_in (po_lines p)" using draft_unreceived [OF wf e(3)] by (simp add: nothing_in_def)
      show "order_ok [repriced p ?ls] (?g o')"
      proof (cases "ordered_on X o' \<and> or_productId o' = Some (pl_productId l)")
        case True then show ?thesis by (simp add: order_ok_def requeue_def)
      next
        case False
        have "row_ok (repriced p ?ls) o'" if k: "row_ok p o'" and st: "or_status o' \<in> {OOrdered, OCompleted}"
        proof -
          from k obtain x where x: "x \<in> set (po_lines p)" "or_productId o' = Some (pl_productId x)"
            "or_status o' = OCompleted \<longleftrightarrow> full_line x" by (auto simp: row_ok_def)
          have "or_status o' \<noteq> OCompleted" by (rule row_ordered [OF wf ni k])
          with False st a(1) e(2) x(2) have "pl_productId x \<noteq> pl_productId l" by (auto simp: ordered_on_def)
          then have "pl_id x \<noteq> lid"
            using e(4,5) x(1) wf by (auto simp: po_wf_def distinct_map dest: inj_onD)
          with x k show ?thesis by (auto simp: row_ok_def)
        qed
        with a e(2) show ?thesis unfolding if_not_P [OF False] by (auto simp: order_ok_def)
      qed
    qed (use s' e(2) in \<open>auto simp: log_def line_ids_def ordered_on_def requeue_def\<close>)
  qed
qed

section \<open>Creating\<close>

lemma order_ok_mono: "order_ok ps o' \<Longrightarrow> set ps \<subseteq> set qs \<Longrightarrow> order_ok qs o'"
  unfolding order_ok_def by blast

lemma store_ok_append:
  assumes ok: "store_ok once s" and wf: "po_wf once p'"
    and new: "po_id p' \<notin> po_id ` set (ts_pos s)" "po_poNumber p' \<notin> po_poNumber ` set (ts_pos s)"
      "\<And>q. q \<in> set (ts_pos s) \<Longrightarrow> line_ids p' \<inter> line_ids q = {}"
    and pos: "ts_pos s' = ts_pos s @ [p']"
    and ord: "ts_orders s' = map g (ts_orders s) @ news" and ids: "distinct (map or_id (ts_orders s'))"
    and old: "\<And>o'. o' \<in> set (ts_orders s) \<Longrightarrow> g o' = o' \<or> order_ok [p'] (g o')"
    and news: "\<And>o'. o' \<in> set news \<Longrightarrow> order_ok [p'] o'"
  shows "store_ok once s'"
proof -
  have "order_ok (ts_pos s') o2" if "o2 \<in> set (ts_orders s')" for o2
  proof -
    from that consider o1 where "o1 \<in> set (ts_orders s)" "o2 = g o1" | "o2 \<in> set news" by (auto simp: ord)
    then show ?thesis
    proof cases
      case 1
      with old [OF 1(1)] store_okD(6) [OF ok 1(1)] show ?thesis by (auto simp: pos intro: order_ok_mono)
    next
      case 2
      from order_ok_mono [OF news [OF 2]] show ?thesis by (simp add: pos)
    qed
  qed
  moreover have "line_ids a \<inter> line_ids b = {}"
    if "a \<in> set (ts_pos s')" "b \<in> set (ts_pos s')" "po_id a \<noteq> po_id b" for a b
    using that new(3) store_okD(4) [OF ok, of a b] unfolding pos by (auto simp: Int_commute)
  ultimately show ?thesis
    using store_okD(1,2,5) [OF ok] new(1,2) wf ids unfolding store_ok_def by (auto simp: pos)
qed

text \<open>The ids the database hands out for an order and its lines.\<close>

definition fresh_po :: "tenant_store \<Rightarrow> string \<Rightarrow> string list \<Rightarrow> nat \<Rightarrow> bool" where
  "fresh_po s poId lineIds n \<longleftrightarrow> poId \<notin> po_id ` set (ts_pos s) \<and> distinct lineIds \<and> length lineIds = n \<and>
     (\<forall>p \<in> set (ts_pos s). set lineIds \<inter> line_ids p = {})"

lemma stored_lines:
  assumes "length ids = length ls"
  shows "map pl_id (map2 stored_line ids ls) = ids"
    "map pl_productId (map2 stored_line ids ls) = map lp_productId ls"
    "map pl_lineTotalKes (map2 stored_line ids ls) = map lp_lineTotalKes ls"
    "\<And>x. x \<in> set (map2 stored_line ids ls) \<Longrightarrow> \<exists>i. \<exists>l \<in> set ls. x = stored_line i l"
proof -
  show "map pl_id (map2 stored_line ids ls) = ids"
    "map pl_productId (map2 stored_line ids ls) = map lp_productId ls"
    "map pl_lineTotalKes (map2 stored_line ids ls) = map lp_lineTotalKes ls"
    using assms by (induction ids ls rule: list_induct2) (simp_all add: stored_line_def)
  show "\<And>x. x \<in> set (map2 stored_line ids ls) \<Longrightarrow> \<exists>i. \<exists>l \<in> set ls. x = stored_line i l"
    by (auto dest: set_zip_rightD)
qed

lemma draft_po_wf:
  assumes "length ids = length (buildPoLines is' moq)" and "distinct ids" and "is' \<noteq> []"
  shows "po_wf once (draft_po poId ids now actor supp num cur (buildPoLines is' moq))"
proof -
  let ?ls = "buildPoLines is' moq"
  have "?ls \<noteq> []" using buildPoLines_products [of is' moq] assms(3) by fastforce
  then have ne: "map2 stored_line ids ?ls \<noteq> []" using stored_lines(2) [OF assms(1)] by (metis list.map_disc_iff)
  have "line_ok once (stored_line i l)" if "l \<in> set ?ls" for i l
    using buildPoLines_line [OF that] applyMoq_ge(1) [of "qty_of_product is' (lp_productId l)" moq]
    by (simp add: line_ok_def stored_line_def)
  then have lk: "line_ok once x \<and> pl_receivedQty x = 0" if "x \<in> set (map2 stored_line ids ?ls)" for x
    using stored_lines(4) [OF assms(1) that] by (auto simp: stored_line_def)
  show ?thesis
    using ne lk assms(2) buildPoLines_distinct [of is' moq] stored_lines(1-3) [OF assms(1)]
    by (simp add: po_wf_def status_ok_def draft_po_def nothing_in_def subtotal_def)
qed

lemma draft_po_line_ids: "length ids = length ls \<Longrightarrow> line_ids (draft_po poId ids now actor supp num cur ls) = set ids"
  using stored_lines(1) [of ids ls] unfolding line_ids_def by (metis draft_po_def purchase_order.select_convs(15) set_map)

text \<open>A row with a product on the draft finds an unreceived line there.\<close>

lemma draft_row_ok:
  assumes "length ids = length (buildPoLines is' moq)" and "p \<in> ln_productId ` set is'"
    and "or_productId o' = Some p" and "or_status o' = OOrdered"
  shows "row_ok (draft_po poId ids now actor supp num cur (buildPoLines is' moq)) o'"
proof -
  let ?ls = "map2 stored_line ids (buildPoLines is' moq)"
  have "p \<in> set (map pl_productId ?ls)"
    unfolding stored_lines(2) [OF assms(1)] using assms(2) buildPoLines_products [of is' moq] by simp
  then obtain x where x: "x \<in> set ?ls" "pl_productId x = p" by auto
  then obtain i l where l: "l \<in> set (buildPoLines is' moq)" "x = stored_line i l"
    using stored_lines(4) [OF assms(1)] by blast
  have "\<not> full_line x"
    using buildPoLines_line [OF l(1)] applyMoq_ge(1) [of "qty_of_product is' (lp_productId l)" moq]
    by (simp add: full_line_def l(2) stored_line_def)
  with x assms(3,4) show ?thesis unfolding row_ok_def draft_po_def
    by (intro conjI bexI [of _ x]) simp_all
qed

lemma link_rows_map:
  "\<exists>g. link_rows poId ops rows = map g rows \<and>
    (\<forall>o'. or_id (g o') = or_id o' \<and> or_status (g o') = or_status o' \<and> or_productId (g o') = or_productId o' \<and>
      (if or_id o' \<in> (or_id \<circ> fst) ` set ops then or_purchaseOrderId (g o') = Some poId else g o' = o'))"
proof (induction ops arbitrary: rows)
  case Nil show ?case by (rule exI [of _ "\<lambda>o'. o'"]) (simp add: link_rows_def)
next
  case (Cons op ops)
  let ?f = "\<lambda>o'. if or_id o' = or_id (fst op)
    then o'\<lparr>or_purchaseOrderId := Some poId, or_stockAtOrder := Some (pw_currentStock (snd op))\<rparr> else o'"
  obtain g where g: "link_rows poId ops (map ?f rows) = map g (map ?f rows)"
    "\<forall>o'. or_id (g o') = or_id o' \<and> or_status (g o') = or_status o' \<and> or_productId (g o') = or_productId o' \<and>
      (if or_id o' \<in> (or_id \<circ> fst) ` set ops then or_purchaseOrderId (g o') = Some poId else g o' = o')"
    using Cons.IH [of "map ?f rows"] by blast
  have "link_rows poId (op # ops) rows = map (g \<circ> ?f) rows"
    using g(1) by (simp add: link_rows_def update_where_def)
  moreover have "or_id ((g \<circ> ?f) o') = or_id o' \<and> or_status ((g \<circ> ?f) o') = or_status o' \<and>
      or_productId ((g \<circ> ?f) o') = or_productId o' \<and>
      (if or_id o' \<in> (or_id \<circ> fst) ` set (op # ops) then or_purchaseOrderId ((g \<circ> ?f) o') = Some poId
       else (g \<circ> ?f) o' = o')" for o'
    using spec [OF g(2), of "?f o'"] by (cases "or_id o' \<in> (or_id \<circ> fst) ` set ops") (auto split: if_splits)
  ultimately show ?case by blast
qed

lemma plan_po_Some:
  assumes "plan_po s orderIds = Inr plan"
  shows "cp_orders plan \<noteq> []"
    "cp_lines plan = buildPoLines (map order_input (cp_orders plan)) (of_int (su_moq (cp_supplier plan)))"
    "\<And>op. op \<in> set (cp_orders plan) \<Longrightarrow> fst op \<in> set (ts_orders s) \<and> or_status (fst op) = OPending \<and>
       or_productId (fst op) = Some (pw_id (snd op)) \<and> pw_supplierId (snd op) = Some (su_id (cp_supplier plan))"
proof -
  define orders where "orders = with_products s (queued_rows s orderIds)"
  define sids where "sids = js_set (map (pw_supplierId \<circ> snd) orders)"
  obtain sup where ne: "orders \<noteq> []" and one: "\<not> 1 < length sids"
    and sup: "find (\<lambda>u. Some (su_id u) = pw_supplierId (snd (hd orders))) (ts_suppliers s) = Some sup"
    and plan: "plan = \<lparr>cp_orders = orders, cp_supplier = sup, cp_lines = buildPoLines (map order_input orders) (of_int (su_moq sup))\<rparr>"
    using assms by (auto simp: plan_po_def Let_def orders_def [symmetric] sids_def [symmetric] split: if_splits option.splits)
  show "cp_orders plan \<noteq> []" "cp_lines plan = buildPoLines (map order_input (cp_orders plan)) (of_int (su_moq (cp_supplier plan)))"
    using ne by (simp_all add: plan)
  fix op assume "op \<in> set (cp_orders plan)"
  then have op: "op \<in> set orders" by (simp add: plan)
  have in1: "pw_supplierId (snd op) \<in> set sids" "pw_supplierId (snd (hd orders)) \<in> set sids"
    using op hd_in_set [OF ne] by (simp_all add: sids_def)
  have "length sids \<le> 1" using one by simp
  then have "sids = [] \<or> (\<exists>a. sids = [a])" by (cases sids) auto
  with in1 have "pw_supplierId (snd op) = pw_supplierId (snd (hd orders))" by auto
  moreover have "Some (su_id sup) = pw_supplierId (snd (hd orders))" using find_SomeD [OF sup] by simp
  moreover have "fst op \<in> set (queued_rows s orderIds) \<and> find_product s (or_productId (fst op)) = Some (snd op)"
    using op by (auto simp: orders_def with_products_def split: option.splits)
  ultimately show "fst op \<in> set (ts_orders s) \<and> or_status (fst op) = OPending \<and>
       or_productId (fst op) = Some (pw_id (snd op)) \<and> pw_supplierId (snd op) = Some (su_id (cp_supplier plan))"
    by (auto simp: plan queued_rows_def find_product_def dest: find_SomeD)
qed

lemma create_ok:
  assumes ok: "store_ok once s"
    and fresh: "\<And>plan. plan_po s orderIds = Inr plan \<Longrightarrow> fresh_po s poId lineIds (length (cp_lines plan))"
  shows "store_ok once (snd (createPoFromOrders orderIds poId lineIds now actor s))"
proof (cases "plan_po s orderIds")
  case (Inl e) with ok show ?thesis by (simp add: createPoFromOrders_def)
next
  case (Inr plan)
  note pp = plan_po_Some [OF Inr] and fr = fresh [OF Inr]
  define ids where "ids = map (or_id \<circ> fst) (cp_orders plan)"
  define po where "po = draft_po poId lineIds now actor (su_id (cp_supplier plan)) (issued_number s) (ts_currency s) (cp_lines plan)"
  show ?thesis
  proof (cases "count_where (pending_in ids) (ts_orders s) \<noteq> length (cp_orders plan) \<or> issued_number s \<in> po_poNumber ` set (ts_pos s)")
    case True with ok Inr show ?thesis
      by (auto simp: createPoFromOrders_def commit_po_def Let_def ids_def)
  next
    case False
    obtain g where g: "link_rows poId (cp_orders plan) (update_where (pending_in ids) (claim_row now) (ts_orders s)) =
        map g (update_where (pending_in ids) (claim_row now) (ts_orders s))"
      "\<And>o'. or_id (g o') = or_id o' \<and> or_status (g o') = or_status o' \<and> or_productId (g o') = or_productId o' \<and>
        (if or_id o' \<in> set ids then or_purchaseOrderId (g o') = Some poId else g o' = o')"
      using link_rows_map [of poId "cp_orders plan" "update_where (pending_in ids) (claim_row now) (ts_orders s)"]
      by (auto simp: ids_def)
    let ?h = "\<lambda>o'. g (if pending_in ids o' then claim_row now o' else o')"
    have rows: "link_rows poId (cp_orders plan) (update_where (pending_in ids) (claim_row now) (ts_orders s)) =
        map ?h (ts_orders s)" unfolding g(1) by (simp add: update_where_def comp_def)
    have s': "snd (createPoFromOrders orderIds poId lineIds now actor s) =
        log poId (PoCreated (issued_number s) (Some (su_name (cp_supplier plan))) (length (cp_lines plan)))
          (s\<lparr>ts_orders := map ?h (ts_orders s), ts_pos := ts_pos s @ [po]\<rparr>)"
      using False Inr rows by (simp add: createPoFromOrders_def commit_po_def Let_def ids_def [symmetric] po_def)
    have len: "length lineIds = length (cp_lines plan)" "distinct lineIds" using fr by (simp_all add: fresh_po_def)
    have wf: "po_wf once po" unfolding po_def pp(2) by (rule draft_po_wf) (use len pp(1,2) in simp_all)
    have hid: "or_id (?h o') = or_id o'" for o' using g(2) by (simp add: claim_row_def)
    show ?thesis
    proof (rule store_ok_append [OF ok wf, of _ ?h "[]"])
      show "line_ids po \<inter> line_ids q = {}" if "q \<in> set (ts_pos s)" for q
        using fr that draft_po_line_ids [OF len(1)] by (simp add: po_def fresh_po_def)
      show "distinct (map or_id (ts_orders (snd (createPoFromOrders orderIds poId lineIds now actor s))))"
        using store_okD(3) [OF ok] by (simp add: s' log_def comp_def hid)
    next
      fix o' assume o': "o' \<in> set (ts_orders s)"
      show "?h o' = o' \<or> order_ok [po] (?h o')"
      proof (cases "or_id o' \<in> set ids")
        case False
        then show ?thesis using g(2) [of o'] by (simp add: pending_in_def)
      next
        case True
        then obtain op where op: "op \<in> set (cp_orders plan)" "or_id (fst op) = or_id o'" by (auto simp: ids_def)
        then have eq: "fst op = o'" using pp(3) [OF op(1)] o' store_okD(3) [OF ok]
          by (auto simp: distinct_map dest: inj_onD)
        have pend: "pending_in ids o'" using True pp(3) [OF op(1)] by (simp add: eq pending_in_def)
        have h: "or_status (?h o') = OOrdered" "or_purchaseOrderId (?h o') = Some poId" "or_productId (?h o') = or_productId o'"
          using pend True g(2) [of "claim_row now o'"] by (simp_all add: claim_row_def)
        have prod: "or_productId o' = Some (pw_id (snd op))" using pp(3) [OF op(1)] by (simp add: eq)
        have "pw_id (snd op) \<in> ln_productId ` set (map order_input (cp_orders plan))"
          using op(1) by (force simp: order_input_def)
        then have "row_ok po (?h o')" unfolding po_def pp(2)
          by (rule draft_row_ok [rotated]) (use len(1) pp(2) h prod in simp_all)
        with h show ?thesis by (simp add: order_ok_def po_def draft_po_def)
      qed
    qed (use s' False fr in \<open>simp_all add: log_def po_def draft_po_def fresh_po_def\<close>)
  qed
qed

lemma plan_manual_Some:
  assumes "plan_manual s supplierId items = Inr plan"
  shows "\<exists>is'. is' \<noteq> [] \<and> snd plan = buildPoLines is' (of_int (su_moq (fst plan)))"
proof -
  let ?w = "filter (\<lambda>i. 0 < mi_qty i) items"
  have "?w \<noteq> []" "snd plan = buildPoLines (map (manual_input s) ?w) (of_int (su_moq (fst plan)))"
    using assms by (auto simp: plan_manual_def Let_def split: if_splits option.splits)
  then show ?thesis by (intro exI [of _ "map (manual_input s) ?w"]) simp
qed

lemma manual_rows:
  assumes "length rowIds = length ls"
  shows "map or_id (map2 (manual_row s poId now) rowIds ls) = rowIds"
    "\<And>o'. o' \<in> set (map2 (manual_row s poId now) rowIds ls) \<Longrightarrow> \<exists>i. \<exists>l \<in> set ls. o' = manual_row s poId now i l"
proof -
  show "map or_id (map2 (manual_row s poId now) rowIds ls) = rowIds"
    using assms by (induction rowIds ls rule: list_induct2) (simp_all add: manual_row_def)
  show "\<And>o'. o' \<in> set (map2 (manual_row s poId now) rowIds ls) \<Longrightarrow> \<exists>i. \<exists>l \<in> set ls. o' = manual_row s poId now i l"
    by (auto dest: set_zip_rightD)
qed

lemma manual_ok:
  assumes ok: "store_ok once s"
    and fresh: "\<And>plan. plan_manual s supplierId items = Inr plan \<Longrightarrow>
      fresh_po s poId lineIds (length (snd plan)) \<and> length rowIds = length (snd plan) \<and> distinct rowIds \<and>
      set rowIds \<inter> or_id ` set (ts_orders s) = {}"
  shows "store_ok once (snd (createManualPo supplierId items poId lineIds rowIds now actor s))"
proof (cases "plan_manual s supplierId items")
  case (Inl e) with ok show ?thesis by (simp add: createManualPo_def)
next
  case (Inr plan)
  note fr = fresh [OF Inr]
  obtain is' where is': "is' \<noteq> []" "snd plan = buildPoLines is' (of_int (su_moq (fst plan)))"
    using plan_manual_Some [OF Inr] by blast
  define po where "po = draft_po poId lineIds now actor (su_id (fst plan)) (issued_number s) (ts_currency s) (snd plan)"
  let ?news = "map2 (manual_row s poId now) rowIds (snd plan)"
  show ?thesis
  proof (cases "issued_number s \<in> po_poNumber ` set (ts_pos s)")
    case True with ok Inr show ?thesis by (simp add: createManualPo_def commit_manual_def Let_def)
  next
    case False
    have s': "snd (createManualPo supplierId items poId lineIds rowIds now actor s) =
        log poId (PoCreated (issued_number s) None (length (snd plan)))
          (s\<lparr>ts_pos := ts_pos s @ [po], ts_orders := ts_orders s @ ?news\<rparr>)"
      using False Inr by (simp add: createManualPo_def commit_manual_def Let_def po_def)
    have len: "length lineIds = length (snd plan)" "distinct lineIds" "length rowIds = length (snd plan)"
      using fr by (simp_all add: fresh_po_def)
    have wf: "po_wf once po" unfolding po_def is'(2) by (rule draft_po_wf) (use len is' in simp_all)
    have oids: "map or_id (ts_orders (snd (createManualPo supplierId items poId lineIds rowIds now actor s))) =
        map or_id (ts_orders s) @ rowIds"
      unfolding s' log_def by (simp add: manual_rows(1) [OF len(3)] del: map_map)
    show ?thesis
    proof (rule store_ok_append [OF ok wf, of _ "\<lambda>o'. o'" ?news])
      show "line_ids po \<inter> line_ids q = {}" if "q \<in> set (ts_pos s)" for q
        using fr that draft_po_line_ids [OF len(1)] by (simp add: po_def fresh_po_def)
      show "distinct (map or_id (ts_orders (snd (createManualPo supplierId items poId lineIds rowIds now actor s))))"
        unfolding oids using store_okD(3) [OF ok] fr by (auto simp: distinct_append)
    next
      fix o' assume "o' \<in> set ?news"
      then obtain i l where l: "l \<in> set (snd plan)" "o' = manual_row s poId now i l"
        using manual_rows(2) [OF len(3)] by blast
      have "lp_productId l \<in> ln_productId ` set is'"
        using l(1) buildPoLines_products [of is' "of_int (su_moq (fst plan))"] unfolding is'(2) by blast
      then have "row_ok po o'" unfolding po_def is'(2)
        by (rule draft_row_ok [rotated]) (use len(1) is'(2) in \<open>simp_all add: l(2) manual_row_def\<close>)
      then show "order_ok [po] o'" by (simp add: order_ok_def l(2) manual_row_def po_def draft_po_def)
    qed (use s' False fr in \<open>simp_all add: log_def po_def draft_po_def fresh_po_def\<close>)
  qed
qed

lemma remove_queued_ok: "store_ok once s \<Longrightarrow> store_ok once (snd (removeQueuedOrder X s))"
  by (auto simp: removeQueuedOrder_def Let_def store_ok_def log_def distinct_map_filter split: option.split)

section \<open>Receiving and reversing\<close>

lemma check_entries_None:
  "check_entries room ls es = None \<Longrightarrow> e \<in> set es \<Longrightarrow>
   \<exists>l. line_by_id ls (re_lineId e) = Some l \<and> is_integer (re_qty e) \<and> re_qty e \<le> of_int (room l)"
  by (induction es) (auto split: option.splits if_splits)

lemma booked_distinct:
  "distinct (map re_lineId es) \<Longrightarrow> e \<in> set es \<Longrightarrow> booked es (re_lineId e) = \<lfloor>re_qty e\<rfloor>"
proof (induction es)
  case (Cons a es)
  show ?case
  proof (cases "e = a")
    case True
    with Cons.prems have "\<not> named es (re_lineId e)" by (auto simp: named_def)
    with True show ?thesis by (simp add: booked_Cons not_named_booked)
  next
    case False
    with Cons show ?thesis by (auto simp: booked_Cons)
  qed
qed simp

text \<open>A checked batch books at least a unit on every line it names, and with one entry per line at most its room.\<close>

lemma booked_ge:
  "(\<And>e. e \<in> set es \<Longrightarrow> 0 < re_qty e) \<Longrightarrow> e \<in> set es \<Longrightarrow> \<lfloor>re_qty e\<rfloor> \<le> booked es (re_lineId e)"
proof (induction es)
  case (Cons a es)
  have "0 \<le> booked es i" for i using Cons.prems(1) by (intro booked_nonneg) simp
  moreover have "0 \<le> \<lfloor>re_qty a\<rfloor>" using Cons.prems(1) [of a] by simp
  ultimately show ?case using Cons by (cases "e = a") (auto simp: booked_Cons add_increasing)
qed simp

lemma booked_some:
  assumes "check_entries room ls es = None" and "\<And>e. e \<in> set es \<Longrightarrow> 0 < re_qty e" and "named es i"
  shows "1 \<le> booked es i"
proof -
  have int: "1 \<le> \<lfloor>re_qty e\<rfloor>" if "e \<in> set es" for e
    using check_entries_None [OF assms(1) that] assms(2) [OF that] unfolding is_integer_def by linarith
  then show ?thesis using assms(3)
  proof (induction es)
    case (Cons e es)
    have r: "\<And>x. x \<in> set es \<Longrightarrow> 1 \<le> \<lfloor>re_qty x\<rfloor>" using Cons.prems(1) by simp
    have "0 < re_qty x" if "x \<in> set es" for x using r [OF that] by linarith
    then have nn: "0 \<le> booked es i" by (rule booked_nonneg)
    show ?case
    proof (cases "re_lineId e = i")
      case True
      then show ?thesis using Cons.prems(1) [of e] nn unfolding booked_Cons by simp linarith
    next
      case False
      then show ?thesis using Cons.IH [OF r] Cons.prems(2) by (simp add: booked_Cons named_Cons)
    qed
  qed (simp add: named_def)
qed

lemma booked_room:
  assumes "check_entries room ls es = None" and "distinct (map re_lineId es)"
    and "\<And>e. e \<in> set es \<Longrightarrow> 0 < re_qty e" and "distinct (map pl_id ls)" and "l \<in> set ls" and "named es (pl_id l)"
  shows "1 \<le> booked es (pl_id l) \<and> booked es (pl_id l) \<le> room l"
proof -
  obtain e where e: "e \<in> set es" "re_lineId e = pl_id l" using assms(6) by (auto simp: named_def)
  have b: "booked es (pl_id l) = \<lfloor>re_qty e\<rfloor>" using booked_distinct [OF assms(2) e(1)] e(2) by simp
  have "is_integer (re_qty e)" "re_qty e \<le> of_int (room l)"
    using check_entries_None [OF assms(1) e(1)] line_by_id_in [OF assms(4,5)] e(2) by auto
  with assms(3) [OF e(1)] show ?thesis unfolding b is_integer_def by linarith
qed

definition loop_start :: "purchase_order \<Rightarrow> tenant_store \<Rightarrow> receive_state" where
  "loop_start p s = \<lparr>rs_lines = po_lines p, rs_store = s, rs_units = 0, rs_crossed = []\<rparr>"

lemma loop_start_simps [simp]:
  "rs_lines (loop_start p s) = po_lines p" "rs_store (loop_start p s) = s" "rs_crossed (loop_start p s) = []"
  "rs_units (loop_start p s) = 0"
  by (simp_all add: loop_start_def)

context crossing_loop
begin

lemma loop_store:
  assumes ok: "store_ok once s" and p: "p \<in> set (ts_pos s)" and pos: "\<And>e. e \<in> set es \<Longrightarrow> 0 < re_qty e"
  shows "rs_lines (fold step es (loop_start p s)) = map (book es) (po_lines p)"
    and "ts_pos (rs_store (fold step es (loop_start p s))) = put_po (p\<lparr>po_lines := map (book es) (po_lines p)\<rparr>) (ts_pos s)"
    and "ts_orders (rs_store (fold step es (loop_start p s))) = ts_orders s"
    and "set (rs_crossed (fold step es (loop_start p s))) = pl_productId ` {l \<in> set (po_lines p). crosses es l}"
proof -
  let ?st = "fold step es (loop_start p s)"
  have d: "distinct (map pl_id (rs_lines (loop_start p s)))"
    using store_okD(5) [OF ok p] by (simp add: po_wf_def)
  show lines: "rs_lines ?st = map (book es) (po_lines p)" using loop_lines [OF d] by simp
  have "(if po_id q = po_id p then q\<lparr>po_lines := po_lines p\<rparr> else q) = q" if "q \<in> set (ts_pos s)" for q
    using po_unique [OF ok that p] by auto
  then have "synced (po_id p) s (loop_start p s)" by (simp add: synced_def update_where_def map_idI)
  moreover have "pl_id l \<notin> pl_id ` set (rs_lines (loop_start p s))"
    if "q \<in> set (ts_pos s)" "po_id q \<noteq> po_id p" "l \<in> set (po_lines q)" for q l
    using store_okD(4) [OF ok that(1) p that(2)] that(3) by (auto simp: line_ids_def)
  ultimately have syn: "synced (po_id p) s ?st" by (rule loop_synced [OF _ d])
  then show "ts_orders (rs_store ?st) = ts_orders s" by (simp add: synced_def)
  have "(if po_id q = po_id p then q\<lparr>po_lines := ls\<rparr> else q) = (if po_id q = po_id p then p\<lparr>po_lines := ls\<rparr> else q)"
    if "q \<in> set (ts_pos s)" for q ls using po_unique [OF ok that p] by auto
  with syn lines show "ts_pos (rs_store ?st) = put_po (p\<lparr>po_lines := map (book es) (po_lines p)\<rparr>) (ts_pos s)"
    by (simp add: synced_def update_where_def)
  show "set (rs_crossed ?st) = pl_productId ` {l \<in> set (po_lines p). crosses es l}"
    using loop_crossed [OF d pos] by simp
qed

lemma book_ids: "map pl_id (map (book es) ls) = map pl_id ls" "map pl_productId (map (book es) ls) = map pl_productId ls"
  by simp_all

lemma booked_line_ok:
  "line_ok once l \<Longrightarrow> (once \<Longrightarrow> 0 \<le> pl_receivedQty (book es l)) \<Longrightarrow> (once \<Longrightarrow> pl_receivedQty (book es l) \<le> pl_quantity l) \<Longrightarrow>
   line_ok once (book es l)"
  by (simp add: line_ok_def)

text \<open>The rows of an order after a loop: the lines keep their products, so a row finds its line again.\<close>

lemma booked_row:
  assumes "row_ok p o1" and "po_wf once p" and "po_lines p' = map (book es) (po_lines p)" and "po_status p' \<noteq> Cancelled"
    and "or_productId o2 = or_productId o1"
    and "\<And>l. l \<in> set (po_lines p) \<Longrightarrow> or_productId o1 = Some (pl_productId l) \<Longrightarrow>
      (or_status o1 = OCompleted \<longleftrightarrow> full_line l) \<Longrightarrow> or_status o2 = OCompleted \<longleftrightarrow> full_line (book es l)"
  shows "row_ok p' o2"
  using assms by (auto simp: row_ok_def)

end

lemma recompute_frame [simp]:
  "ts_pos (recomputeSellableStock ids s) = ts_pos s" "ts_orders (recomputeSellableStock ids s) = ts_orders s"
  "ts_levels (recomputeSellableStock ids s) = ts_levels s" "ts_locations (recomputeSellableStock ids s) = ts_locations s"
  by (simp_all add: recomputeSellableStock_def)

definition received_po :: "purchase_order \<Rightarrow> date \<Rightarrow> receive_entry list \<Rightarrow> purchase_order" where
  "received_po p now es =
    (let ls = map (receipt.book now es) (po_lines p); p1 = p\<lparr>po_lines := ls\<rparr>
     in if all_full ls then p1\<lparr>po_status := Received, po_receivedAt := Some now\<rparr>
        else p1\<lparr>po_status := PartiallyReceived\<rparr>)"

definition completed_row :: "purchase_order \<Rightarrow> date \<Rightarrow> receive_entry list \<Rightarrow> order_row \<Rightarrow> order_row" where
  "completed_row p now es o' =
    (if or_purchaseOrderId o' = Some (po_id p) \<and> or_status o' = OOrdered \<and>
        (\<exists>l \<in> set (po_lines p). receipt.crosses now es l \<and> or_productId o' = Some (pl_productId l))
     then o'\<lparr>or_status := OCompleted, or_receivedAt := Some now\<rparr> else o')"

lemma receive_body_effect:
  assumes ok: "store_ok once s" and p: "p \<in> set (ts_pos s)" and pos: "\<And>e. e \<in> set es \<Longrightarrow> 0 < re_qty e"
  shows "ts_pos (snd (receive_body p sf es loc now s)) = put_po (received_po p now es) (ts_pos s)"
    and "ts_orders (snd (receive_body p sf es loc now s)) = map (completed_row p now es) (ts_orders s)"
proof -
  let ?st = "fold (receipt.step now sf loc) es (loop_start p s)"
  let ?ls = "map (receipt.book now es) (po_lines p)"
  note st = receipt.loop_store [OF ok p pos, where now = now and sf = sf and loc = loc]
  have step: "receive_entry_step sf loc now = receipt.step now sf loc"
    by (simp add: receive_entry_step_def receipt.step_def)
  note body = receive_body_def [of p sf es loc now s, folded loop_start_def, unfolded step Let_def]
  have "update_where (\<lambda>q. po_id q = po_id p) (\<lambda>q. if all_full ?ls then q\<lparr>po_status := Received, po_receivedAt := Some now\<rparr>
      else q\<lparr>po_status := PartiallyReceived\<rparr>) (put_po (p\<lparr>po_lines := ?ls\<rparr>) (ts_pos s)) =
      put_po (received_po p now es) (ts_pos s)"
    by (subst update_put) (simp_all add: received_po_def)
  then show "ts_pos (snd (receive_body p sf es loc now s)) = put_po (received_po p now es) (ts_pos s)"
    by (simp add: body log_def set_po_def set_orders_def st(1,2))
  have "product_row_of (po_id p) OOrdered (rs_crossed ?st) o' \<longleftrightarrow> or_purchaseOrderId o' = Some (po_id p) \<and>
      or_status o' = OOrdered \<and> (\<exists>l \<in> set (po_lines p). receipt.crosses now es l \<and> or_productId o' = Some (pl_productId l))" for o'
    using st(4) by (auto simp: product_row_of_def)
  then show "ts_orders (snd (receive_body p sf es loc now s)) = map (completed_row p now es) (ts_orders s)"
    by (simp add: body log_def set_po_def set_orders_def st(3) update_where_def completed_row_def [abs_def])
qed

lemma receive_lines_ok:
  assumes wf: "po_wf once p" and chk: "check_entries (\<lambda>l. pl_quantity l - pl_receivedQty l) (po_lines p) es = None"
    and d: "once \<Longrightarrow> distinct (map re_lineId es)" and pos: "\<And>e. e \<in> set es \<Longrightarrow> 0 < re_qty e" and l: "l \<in> set (po_lines p)"
  shows "line_ok once (receipt.book now es l)" "pl_receivedQty l \<le> pl_receivedQty (receipt.book now es l)"
    "named es (pl_id l) \<Longrightarrow> once \<Longrightarrow> 1 \<le> pl_receivedQty (receipt.book now es l)"
proof -
  have lk: "0 \<le> pl_receivedQty l \<and> pl_receivedQty l \<le> pl_quantity l" if once
    using line_of_wf [OF wf l] that unfolding line_ok_def by blast
  have dl: "distinct (map pl_id (po_lines p))" using wf by (simp add: po_wf_def)
  have nn: "0 \<le> booked es (pl_id l)" using pos by (rule booked_nonneg)
  have b: "pl_receivedQty l + booked es (pl_id l) \<le> pl_quantity l" if o: once
    using booked_room [OF chk d [OF o] pos dl l] lk [OF o] not_named_booked [of es "pl_id l"]
    by (cases "named es (pl_id l)") auto
  show "line_ok once (receipt.book now es l)"
    using line_of_wf [OF wf l] lk nn b by (intro receipt.booked_line_ok) (simp_all add: receipt.book_received)
  show "pl_receivedQty l \<le> pl_receivedQty (receipt.book now es l)" using nn by (simp add: receipt.book_received)
  show "named es (pl_id l) \<Longrightarrow> once \<Longrightarrow> 1 \<le> pl_receivedQty (receipt.book now es l)"
    using booked_some [OF chk pos] lk by (fastforce simp: receipt.book_received)
qed

lemma received_po_wf:
  assumes wf: "po_wf once p" and st: "po_status p = Sent \<or> po_status p = PartiallyReceived"
    and chk: "check_entries (\<lambda>l. pl_quantity l - pl_receivedQty l) (po_lines p) es = None"
    and d: "once \<Longrightarrow> distinct (map re_lineId es)" and pos: "\<And>e. e \<in> set es \<Longrightarrow> 0 < re_qty e" and ne: "es \<noteq> []"
  shows "po_wf once (received_po p now es)"
proof -
  let ?ls = "map (receipt.book now es) (po_lines p)"
  have lo1: "line_ok once (receipt.book now es l)" if "l \<in> set (po_lines p)" for l
    by (rule receive_lines_ok(1) [OF wf chk d _ that]) (assumption | rule pos)+
  have lo3: "1 \<le> pl_receivedQty (receipt.book now es l)" if "l \<in> set (po_lines p)" "named es (pl_id l)" once for l
    by (rule receive_lines_ok(3) [OF wf chk d _ that]) (assumption | rule pos)+
  obtain e where e: "e \<in> set es" using ne by (cases es) auto
  then obtain l where l: "l \<in> set (po_lines p)" "pl_id l = re_lineId e"
    using check_entries_None [OF chk e] line_by_id_Some by blast
  then have "once \<Longrightarrow> \<not> nothing_in ?ls" using lo3 [OF l(1)] l e by (force simp: nothing_in_def named_def)
  moreover have "sum_list (map pl_lineTotalKes ?ls) = sum_list (map pl_lineTotalKes (po_lines p))" by (simp add: comp_def)
  ultimately show ?thesis
    using wf st lo1
    unfolding po_wf_def status_ok_def received_po_def Let_def
    by (auto simp: receipt.book_ids simp del: map_map)
qed

lemma row_line:
  assumes "po_wf once p" and "l \<in> set (po_lines p)" and "or_productId o' = Some (pl_productId l)"
  shows "(\<exists>x \<in> set (po_lines p). P x \<and> or_productId o' = Some (pl_productId x)) \<longleftrightarrow> P l"
proof -
  have "x = l" if "x \<in> set (po_lines p)" "pl_productId x = pl_productId l" for x
    using that assms(1,2) by (auto simp: po_wf_def distinct_map dest: inj_onD)
  with assms(2,3) show ?thesis by fastforce
qed

lemma receive_body_ok:
  assumes ok: "store_ok once s" and p: "p \<in> set (ts_pos s)" and st: "po_status p = Sent \<or> po_status p = PartiallyReceived"
    and chk: "check_entries (\<lambda>l. pl_quantity l - pl_receivedQty l) (po_lines p) es = None"
    and d: "once \<Longrightarrow> distinct (map re_lineId es)" and pos: "\<And>e. e \<in> set es \<Longrightarrow> 0 < re_qty e" and ne: "es \<noteq> []"
  shows "store_ok once (snd (receive_body p sf es loc now s))"
proof -
  have wf: "po_wf once p" by (rule store_okD(5) [OF ok p])
  note eff = receive_body_effect [OF ok p pos, where now = now and sf = sf and loc = loc]
  have lo2: "pl_receivedQty l \<le> pl_receivedQty (receipt.book now es l)" if "l \<in> set (po_lines p)" for l
    by (rule receive_lines_ok(2) [OF wf chk d _ that]) (assumption | rule pos)+
  have po: "po_id (received_po p now es) = po_id p" "po_poNumber (received_po p now es) = po_poNumber p"
    "po_lines (received_po p now es) = map (receipt.book now es) (po_lines p)"
    "po_status (received_po p now es) \<noteq> Cancelled"
    by (simp_all add: received_po_def Let_def)
  show ?thesis
  proof (rule store_ok_update [OF ok p, of _ "received_po p now es" "completed_row p now es"])
    show "po_wf once (received_po p now es)" by (rule received_po_wf [OF wf st chk d pos ne])
    show "ts_pos (snd (receive_body p sf es loc now s)) =
        update_where (\<lambda>q. po_id q = po_id (received_po p now es)) (\<lambda>_. received_po p now es) (ts_pos s)"
      using eff(1) .
  next
    fix o' assume a: "or_purchaseOrderId o' = Some (po_id p)" "or_status o' \<noteq> OPending"
      "or_status o' \<in> {OOrdered, OCompleted} \<Longrightarrow> row_ok p o'"
    show "order_ok [received_po p now es] (completed_row p now es o')"
    proof (cases "or_status o' \<in> {OOrdered, OCompleted}")
      case False then show ?thesis by (cases "or_status o'") (auto simp: completed_row_def order_ok_def a)
    next
      case True
      have "row_ok (received_po p now es) (completed_row p now es o')"
      proof (rule receipt.booked_row [OF a(3) [OF True] wf po(3,4)])
        fix l assume l: "l \<in> set (po_lines p)" "or_productId o' = Some (pl_productId l)"
          "or_status o' = OCompleted \<longleftrightarrow> full_line l"
        show "or_status (completed_row p now es o') = OCompleted \<longleftrightarrow> full_line (receipt.book now es l)"
        proof (cases "or_status o' = OCompleted")
          case True
          with l(3) lo2 [OF l(1)] have "full_line (receipt.book now es l)" by (simp add: full_line_def)
          with True show ?thesis by (simp add: completed_row_def)
        next
          case False
          then have ord: "or_status o' = OOrdered" using \<open>or_status o' \<in> _\<close> by simp
          have "full_line (receipt.book now es l) \<longleftrightarrow> receipt.crosses now es l"
            using False l(3) by (cases "named es (pl_id l)") (auto simp: receipt.crosses_def full_line_def receipt.book_received not_named_booked)
          with ord a(1) show ?thesis by (simp add: completed_row_def row_line [OF wf l(1,2)])
        qed
      qed (simp add: completed_row_def)
      then show ?thesis using a(1) True po(1) by (auto simp: order_ok_def completed_row_def)
    qed
  qed (use eff(2) po in \<open>auto simp: line_ids_def completed_row_def\<close>)
qed

lemma store_ok_same: "store_ok once s \<Longrightarrow> ts_pos s' = ts_pos s \<Longrightarrow> ts_orders s' = ts_orders s \<Longrightarrow> store_ok once s'"
  by (simp add: store_ok_def)

text \<open>A batch is either refused, with the store as it was, or booked whole.\<close>

lemma receivePoLines_cases:
  fixes es :: "receive_entry list"
  defines "r \<equiv> filter (\<lambda>e. 0 < re_qty e) es"
  obtains (refused) e where "receivePoLines X es loc now s = (Inl e, s)"
  | (booked) p sf where "p \<in> set (ts_pos s)" "po_id p = X" "po_status p = Sent \<or> po_status p = PartiallyReceived"
      "r \<noteq> []" "check_entries (\<lambda>l. pl_quantity l - pl_receivedQty l) (po_lines p) r = None"
      "receivePoLines X es loc now s = (Inr (fst (receive_body p sf r loc now s)), snd (receive_body p sf r loc now s))"
proof (cases "find_po s X")
  case None
  then have "\<exists>e. receivePoLines X es loc now s = (Inl e, s)" by (simp add: receivePoLines_def Let_def)
  then show ?thesis using refused by blast
next
  case (Some p)
  note p = find_po_Some [OF Some]
  let ?c = "check_entries (\<lambda>l. pl_quantity l - pl_receivedQty l) (po_lines p) r"
  show ?thesis
  proof (cases "r \<noteq> [] \<and> (po_status p = Sent \<or> po_status p = PartiallyReceived) \<and> find_location s loc \<noteq> None \<and> ?c = None")
    case True
    then obtain l where l: "find_location s loc = Some l" by auto
    show ?thesis
      by (rule booked [of p "lo_shopifyLocationId l \<noteq> None"])
        (use p True Some l in \<open>auto simp: receivePoLines_def Let_def r_def split: prod.split\<close>)
  next
    case False
    then have "\<exists>e. receivePoLines X es loc now s = (Inl e, s)" using Some
      by (auto simp: receivePoLines_def Let_def r_def split: option.split)
    then show ?thesis using refused by blast
  qed
qed

lemma receive_ok:
  assumes ok: "store_ok once s" and d: "once \<Longrightarrow> distinct (map re_lineId es)"
  shows "store_ok once (snd (receivePoLines X es loc now s))"
proof (cases rule: receivePoLines_cases [of X es loc now s])
  case (refused e) then show ?thesis using ok by simp
next
  case (booked p sf)
  have "store_ok once (snd (receive_body p sf (filter (\<lambda>e. 0 < re_qty e) es) loc now s))"
    by (rule receive_body_ok [OF ok booked(1,3,5) distinct_map_filter [OF d] _ booked(4)]) simp_all
  then show ?thesis by (simp add: booked(6))
qed

end
