(* ===== verification/PoSystem.thy ===== *)
theory PoSystem
  imports PoReverse
begin

text \<open>
  The order tables as a state machine: one step per operation of \<^verbatim>\<open>apps/web/lib/po\<close> and of
  the queue, run one after the other, with sending split at the point where the email goes out, so
  that other operations may run between the claim and its outcome. Receiving and reversing take any
  batch; with the flag \<open>once\<close> the relation is restricted to batches that name a line at most once.
  Reachable stores, their invariant, and the statuses an order can move between.
\<close>

section \<open>Sending, interleaved\<close>

lemma update_where_id: "(\<And>r. r \<in> set rows \<Longrightarrow> P r \<Longrightarrow> f r = r) \<Longrightarrow> update_where P f rows = rows"
  by (simp add: update_where_def map_idI)

text \<open>The claim and its settlement keep the invariant whatever the ticket was read from.\<close>

lemma claim_any_ok:
  assumes ok: "store_ok once s"
  shows "store_ok once (snd (send_claim t s))"
proof (cases "\<exists>p \<in> set (ts_pos s). po_id p = po_id (tk_po t) \<and> po_status p = Draft \<and> po_deletedAt p = None")
  case False
  then have "count_where (\<lambda>p. po_id p = po_id (tk_po t) \<and> po_status p = Draft \<and> po_deletedAt p = None) (ts_pos s) = 0"
    by (auto simp: count_where_def filter_empty_conv)
  with ok show ?thesis by (simp add: send_claim_def Let_def)
next
  case True
  then obtain p where p: "p \<in> set (ts_pos s)" "po_id p = po_id (tk_po t)" "po_status p = Draft" "po_deletedAt p = None" by blast
  let ?P = "\<lambda>p. po_id p = po_id (tk_po t) \<and> po_status p = Draft \<and> po_deletedAt p = None"
  let ?f = "\<lambda>p. p\<lparr>po_status := Sent, po_sentAt := Some (tk_sentAt t), po_expectedAt := tk_expectedAt t\<rparr>"
  have c: "count_where ?P (ts_pos s) \<noteq> 0" by (rule count_where_pos [of p]) (use p in simp_all)
  have wf: "po_wf once p" by (rule store_okD(5) [OF ok p(1)])
  have s': "ts_pos (snd (send_claim t s)) = put_po (?f p) (ts_pos s)"
    using c update_is_put [OF ok p(1), of ?P ?f] p by (simp add: send_claim_def Let_def)
  have ords: "ts_orders (snd (send_claim t s)) = ts_orders s" by (simp add: send_claim_def Let_def)
  show ?thesis
  proof (rule store_ok_update [OF ok p(1) s', of "\<lambda>o'. o'"])
    show "po_wf once (?f p)" using wf p(3) by (auto simp: po_wf_def status_ok_def)
  next
    fix o' assume "or_purchaseOrderId o' = Some (po_id p)" "or_status o' \<noteq> OPending"
      "or_status o' \<in> {OOrdered, OCompleted} \<Longrightarrow> row_ok p o'"
    then show "order_ok [?f p] o'" by (auto simp: order_ok_def row_ok_def)
  qed (simp_all add: line_ids_def ords)
qed

lemma settle_any_ok:
  assumes ok: "store_ok once s"
  shows "store_ok once (snd (send_settle t outcome s))"
proof (cases "outcome = EmailThrew")
  case True
  let ?P = "\<lambda>p. po_id p = po_id (tk_po t) \<and> po_status p = Sent"
  let ?f = "\<lambda>p. p\<lparr>po_status := Draft, po_sentAt := None, po_expectedAt := None\<rparr>"
  let ?s = "snd (send_settle t outcome s)"
  have pos: "ts_pos ?s = update_where ?P ?f (ts_pos s)" and ords: "ts_orders ?s = ts_orders s"
    using True by (simp_all add: send_settle_def Let_def)
  show ?thesis
  proof (cases "\<exists>p \<in> set (ts_pos s). ?P p")
    case False
    then have "ts_pos ?s = ts_pos s" unfolding pos by (intro update_where_id) auto
    with ords show ?thesis by (rule store_ok_same [OF ok, rotated])
  next
    case True
    then obtain p where p: "p \<in> set (ts_pos s)" "po_id p = po_id (tk_po t)" "po_status p = Sent" by blast
    have wf: "po_wf once p" by (rule store_okD(5) [OF ok p(1)])
    have put: "ts_pos ?s = put_po (?f p) (ts_pos s)"
      unfolding pos by (rule update_is_put [OF ok p(1)]) (use p in simp_all)
    show ?thesis
    proof (rule store_ok_update [OF ok p(1) put, of "\<lambda>o'. o'"])
      show "po_wf once (?f p)" using wf p(3) by (auto simp: po_wf_def status_ok_def)
    next
      fix o' assume "or_purchaseOrderId o' = Some (po_id p)" "or_status o' \<noteq> OPending"
        "or_status o' \<in> {OOrdered, OCompleted} \<Longrightarrow> row_ok p o'"
      then show "order_ok [?f p] o'" by (auto simp: order_ok_def row_ok_def)
    qed (simp_all add: line_ids_def ords)
  qed
next
  case False
  let ?s = "snd (send_settle t outcome s)"
  let ?g = "\<lambda>o'. if tk_expectedAt t \<noteq> None \<and> ordered_on (po_id (tk_po t)) o' then o'\<lparr>or_expectedArrivalAt := tk_expectedAt t\<rparr> else o'"
  have pos: "ts_pos ?s = ts_pos s" using False
    by (simp add: send_settle_def Let_def log_def set_orders_def split: option.split)
  have ord: "ts_orders ?s = map ?g (ts_orders s)" using False
    by (cases "tk_expectedAt t") (simp_all add: send_settle_def Let_def log_def set_orders_def update_where_def)
  have "order_ok (ts_pos s) (?g o')" if "o' \<in> set (ts_orders s)" for o'
    using store_okD(6) [OF ok that] by (auto simp: order_ok_def row_ok_def)
  then show ?thesis using ok unfolding store_ok_def pos ord by (auto simp: comp_def if_distrib cong: if_cong)
qed

section \<open>The steps\<close>

text \<open>What the rest of the program does to the tables: it queues rows, and it changes the
  catalogue, the stock and the settings.\<close>

definition enqueue :: "order_row \<Rightarrow> tenant_store \<Rightarrow> tenant_store" where
  "enqueue o' s = s\<lparr>ts_orders := ts_orders s @ [o']\<rparr>"

definition world :: "tenant_store \<Rightarrow> tenant_store \<Rightarrow> bool" where
  "world s s' \<longleftrightarrow> ts_pos s' = ts_pos s \<and> ts_orders s' = ts_orders s"

definition empty_tables :: "tenant_store \<Rightarrow> bool" where
  "empty_tables s \<longleftrightarrow> ts_pos s = [] \<and> ts_orders s = []"

inductive po_step :: "bool \<Rightarrow> tenant_store \<Rightarrow> tenant_store \<Rightarrow> bool" for once where
  step_world: "world s s' \<Longrightarrow> po_step once s s'"
| step_enqueue: "or_status o' = OPending \<Longrightarrow> or_purchaseOrderId o' = None \<Longrightarrow> or_id o' \<notin> or_id ` set (ts_orders s) \<Longrightarrow>
    po_step once s (enqueue o' s)"
| step_unqueue: "po_step once s (snd (removeQueuedOrder i s))"
| step_create: "(\<And>plan. plan_po s ids = Inr plan \<Longrightarrow> fresh_po s X lineIds (length (cp_lines plan))) \<Longrightarrow>
    po_step once s (snd (createPoFromOrders ids X lineIds now actor s))"
| step_manual: "(\<And>plan. plan_manual s supp items = Inr plan \<Longrightarrow>
      fresh_po s X lineIds (length (snd plan)) \<and> length rowIds = length (snd plan) \<and> distinct rowIds \<and>
      set rowIds \<inter> or_id ` set (ts_orders s) = {}) \<Longrightarrow>
    po_step once s (snd (createManualPo supp items X lineIds rowIds now actor s))"
| step_quantity: "po_step once s (snd (setPoLineQuantity X lineId q s))"
| step_remove_line: "po_step once s (snd (removePoLine X lineId s))"
| step_claim: "po_step once s (snd (send_claim t s))"
| step_settle: "po_step once s (snd (send_settle t outcome s))"
| step_cancel: "po_step once s (snd (cancelPo X now actor s))"
| step_receive: "(once \<Longrightarrow> distinct (map re_lineId es)) \<Longrightarrow> po_step once s (snd (receivePoLines X es loc now s))"
| step_unreceive: "(once \<Longrightarrow> distinct (map re_lineId es)) \<Longrightarrow> po_step once s (snd (unreceivePoLines X es loc now s))"

inductive po_reachable :: "bool \<Rightarrow> tenant_store \<Rightarrow> bool" for once where
  reach_empty: "empty_tables s \<Longrightarrow> po_reachable once s"
| reach_step: "po_reachable once s \<Longrightarrow> po_step once s s' \<Longrightarrow> po_reachable once s'"

inductive_cases po_stepE: "po_step once s s'"

lemma enqueue_ok:
  assumes "store_ok once s" and "or_status o' = OPending" "or_purchaseOrderId o' = None" "or_id o' \<notin> or_id ` set (ts_orders s)"
  shows "store_ok once (enqueue o' s)"
  using assms by (auto simp: store_ok_def enqueue_def order_ok_def)

lemma po_step_ok: "po_step once s s' \<Longrightarrow> store_ok once s \<Longrightarrow> store_ok once s'"
proof (induction rule: po_step.induct)
  case (step_world s s') then show ?case by (auto simp: world_def intro: store_ok_same)
next
  case (step_enqueue o' s) then show ?case by (intro enqueue_ok)
next
  case (step_create s ids X lineIds now actor) then show ?case by (intro create_ok)
next
  case (step_manual s supp items X lineIds rowIds now actor)
  show ?case by (rule manual_ok [OF step_manual(2)]) (rule step_manual(1))
qed (simp_all only: remove_queued_ok set_qty_ok remove_ok claim_any_ok settle_any_ok cancel_ok receive_ok unreceive_ok)

lemma po_reachable_ok: "po_reachable once s \<Longrightarrow> store_ok once s"
proof (induction rule: po_reachable.induct)
  case (reach_empty s) then show ?case by (simp add: store_ok_def empty_tables_def)
next
  case (reach_step s s') from po_step_ok [OF reach_step(2,3)] show ?case .
qed

section \<open>The statuses an order moves between\<close>

inductive po_edge :: "po_status \<Rightarrow> po_status \<Rightarrow> bool" where
  edge_edit: "po_edge Draft Draft"
| edge_send: "po_edge Draft Sent"
| edge_bounce: "po_edge Sent Draft"
| edge_cancel: "x \<in> {Draft, Sent} \<Longrightarrow> po_edge x Cancelled"
| edge_receive: "x \<in> {Sent, PartiallyReceived} \<Longrightarrow> y \<in> {PartiallyReceived, Received} \<Longrightarrow> po_edge x y"
| edge_reverse: "x \<in> {Received, PartiallyReceived} \<Longrightarrow> y \<in> {PartiallyReceived, Sent} \<Longrightarrow> po_edge x y"

inductive_simps po_edge_simps: "po_edge x y"
inductive_cases po_edge_CancelledE: "po_edge Cancelled y"

lemma no_edge_Cancelled: "\<not> po_edge Cancelled y"
  by (auto elim: po_edge_CancelledE)

text \<open>An over-received order can stay received through a reversal. Going on is moving anywhere but back to draft.\<close>

definition po_moves :: "bool \<Rightarrow> po_status \<Rightarrow> po_status \<Rightarrow> bool" where
  "po_moves once x y \<longleftrightarrow> po_edge x y \<or> \<not> once \<and> x = Received \<and> y = Received"

definition onward :: "bool \<Rightarrow> po_status \<Rightarrow> po_status \<Rightarrow> bool" where
  "onward once x y \<longleftrightarrow> po_moves once x y \<and> (y = Draft \<longrightarrow> x = Draft)"

lemma onwardI: "po_edge x y \<Longrightarrow> y \<noteq> Draft \<or> x = Draft \<Longrightarrow> onward once x y"
  by (auto simp: onward_def po_moves_def)

definition evolves :: "(po_status \<Rightarrow> po_status \<Rightarrow> bool) \<Rightarrow> tenant_store \<Rightarrow> tenant_store \<Rightarrow> bool" where
  "evolves E s s' \<longleftrightarrow> (\<forall>p \<in> set (ts_pos s). p \<in> set (ts_pos s') \<or>
     (\<exists>q \<in> set (ts_pos s'). po_id q = po_id p \<and> po_poNumber q = po_poNumber p \<and> E (po_status p) (po_status q)))"

lemma evolves_same: "set (ts_pos s) \<subseteq> set (ts_pos s') \<Longrightarrow> evolves E s s'"
  by (auto simp: evolves_def)

lemma evolves_put:
  assumes "store_ok once s" and "p \<in> set (ts_pos s)" and "ts_pos s' = put_po q (ts_pos s)"
    and "po_id q = po_id p" and "po_poNumber q = po_poNumber p" and "E (po_status p) (po_status q)"
  shows "evolves E s s'"
proof -
  have "set (ts_pos s') = insert q (set (ts_pos s) - {p})" using set_put_po [OF assms(1,2,4)] by (simp add: assms(3))
  with assms(4-6) show ?thesis unfolding evolves_def by blast
qed

lemma evolves_create: "evolves E s (snd (createPoFromOrders ids X lineIds now actor s))"
  by (rule evolves_same) (auto simp: createPoFromOrders_def commit_po_def Let_def log_def split: sum.split)

lemma evolves_manual: "evolves E s (snd (createManualPo supp items X lineIds rowIds now actor s))"
  by (rule evolves_same) (auto simp: createManualPo_def commit_manual_def Let_def log_def split: sum.split)

lemma evolves_quantity: "store_ok once s \<Longrightarrow> evolves (onward once) s (snd (setPoLineQuantity X lid q s))"
proof (cases "(\<not> is_integer q \<or> q < 1) \<or> (\<exists>e. edit_read s X lid = Inl e)")
  case True then show ?thesis by (intro evolves_same) (auto simp: setPoLineQuantity_def)
next
  case False
  assume ok: "store_ok once s"
  obtain pl where "edit_read s X lid = Inr pl" using False by (cases "edit_read s X lid") auto
  then obtain p l where r: "edit_read s X lid = Inr (p, l)" by (metis surj_pair)
  note e = edit_read_Some [OF r]
  show ?thesis
    by (rule evolves_put [OF ok e(1), of _ "repriced p (with_qty lid \<lfloor>q\<rfloor> (po_lines p))"])
      (use False r qty_write_eq [OF ok r, of "\<lfloor>q\<rfloor>"] e(3) in \<open>simp_all add: setPoLineQuantity_def log_def edge_edit onwardI\<close>)
qed

lemma evolves_remove_line: "store_ok once s \<Longrightarrow> evolves (onward once) s (snd (removePoLine X lid s))"
proof (cases "edit_read s X lid")
  case (Inl e) then show ?thesis by (intro evolves_same) (simp add: removePoLine_def)
next
  case (Inr pl)
  assume ok: "store_ok once s"
  obtain p l where r: "edit_read s X lid = Inr (p, l)" using Inr by (metis surj_pair)
  note e = edit_read_Some [OF r]
  show ?thesis
  proof (cases "length (po_lines p) = 1")
    case True with r show ?thesis by (intro evolves_same) (simp add: removePoLine_def)
  next
    case False
    show ?thesis
      by (rule evolves_put [OF ok e(1), of _ "repriced p (filter (\<lambda>x. pl_id x \<noteq> lid) (po_lines p))"])
        (use False r remove_write_eq [OF ok r] e(3) in \<open>simp_all add: removePoLine_def log_def edge_edit onwardI\<close>)
  qed
qed

text \<open>An update of one order under a guard either finds it or changes nothing.\<close>

lemma evolves_update:
  assumes ok: "store_ok once s" and pos: "ts_pos s' = update_where P f (ts_pos s)" and P: "\<And>q. P q \<Longrightarrow> po_id q = X"
    and f: "\<And>q. P q \<Longrightarrow> po_id (f q) = po_id q \<and> po_poNumber (f q) = po_poNumber q \<and> E (po_status q) (po_status (f q))"
  shows "evolves E s s'"
  unfolding evolves_def
proof
  fix p assume p: "p \<in> set (ts_pos s)"
  have s': "set (ts_pos s') = (\<lambda>r. if P r then f r else r) ` set (ts_pos s)" unfolding pos by (rule set_update_where)
  show "p \<in> set (ts_pos s') \<or> (\<exists>q \<in> set (ts_pos s'). po_id q = po_id p \<and> po_poNumber q = po_poNumber p \<and> E (po_status p) (po_status q))"
  proof (cases "P p")
    case True
    then have "f p \<in> set (ts_pos s')" unfolding s' using p by (intro image_eqI [of _ _ p]) simp_all
    with f [OF True] show ?thesis by blast
  next
    case False
    then have "p \<in> set (ts_pos s')" unfolding s' using p by (intro image_eqI [of _ _ p]) simp_all
    then show ?thesis ..
  qed
qed

lemma evolves_claim: "store_ok once s \<Longrightarrow> evolves (onward once) s (snd (send_claim t s))"
proof (cases "fst (send_claim t s)")
  case (Inl e)
  then show ?thesis by (intro evolves_same) (simp add: send_claim_def Let_def split: if_splits)
next
  case (Inr u)
  assume ok: "store_ok once s"
  show ?thesis
    by (rule evolves_update [OF ok, of _ "\<lambda>p. po_id p = po_id (tk_po t) \<and> po_status p = Draft \<and> po_deletedAt p = None"
        "\<lambda>p. p\<lparr>po_status := Sent, po_sentAt := Some (tk_sentAt t), po_expectedAt := tk_expectedAt t\<rparr>" "po_id (tk_po t)"])
      (use Inr in \<open>auto simp: send_claim_def Let_def edge_send onwardI split: if_splits\<close>)
qed

lemma evolves_settle: "store_ok once s \<Longrightarrow> evolves (po_moves once) s (snd (send_settle t outcome s))"
proof (cases "outcome = EmailThrew")
  case False
  then show ?thesis
    by (intro evolves_same) (simp add: send_settle_def Let_def log_def set_orders_def split: option.split)
next
  case True
  assume ok: "store_ok once s"
  show ?thesis
    by (rule evolves_update [OF ok, of _ "\<lambda>p. po_id p = po_id (tk_po t) \<and> po_status p = Sent"
        "\<lambda>p. p\<lparr>po_status := Draft, po_sentAt := None, po_expectedAt := None\<rparr>" "po_id (tk_po t)"])
      (use True in \<open>simp_all add: send_settle_def Let_def edge_bounce po_moves_def\<close>)
qed

lemma evolves_cancel: "store_ok once s \<Longrightarrow> evolves (onward once) s (snd (cancelPo X now actor s))"
proof (cases "find_po s X")
  case None then show ?thesis by (intro evolves_same) (simp add: cancelPo_def)
next
  case (Some p)
  assume ok: "store_ok once s"
  note p = find_po_Some [OF Some]
  show ?thesis
  proof (cases "po_status p = Draft \<or> po_status p = Sent")
    case False with Some show ?thesis by (intro evolves_same) (simp add: cancelPo_def)
  next
    case True
    then have "ts_pos (snd (cancelPo X now actor s)) =
        update_where (\<lambda>q. po_id q = X) (\<lambda>q. q\<lparr>po_status := Cancelled, po_cancelledAt := Some now, po_cancelledByName := actor\<rparr>) (ts_pos s)"
      using Some by (auto simp: cancelPo_def store_frames)
    also have "\<dots> = put_po (p\<lparr>po_status := Cancelled, po_cancelledAt := Some now, po_cancelledByName := actor\<rparr>) (ts_pos s)"
      by (rule update_is_put [OF ok, of p]) (use p in simp_all)
    finally show ?thesis
      by (rule evolves_put [OF ok conjunct1 [OF p]]) (use True in \<open>auto intro!: onwardI edge_cancel\<close>)
  qed
qed

lemma evolves_receive: "store_ok once s \<Longrightarrow> evolves (onward once) s (snd (receivePoLines X es loc now s))"
proof (cases rule: receivePoLines_cases [of X es loc now s])
  case (refused e) then show ?thesis by (intro evolves_same) simp
next
  case (booked p sf)
  assume ok: "store_ok once s"
  let ?r = "filter (\<lambda>e. 0 < re_qty e) es"
  have "ts_pos (snd (receive_body p sf ?r loc now s)) = put_po (received_po p now ?r) (ts_pos s)"
    by (rule receive_body_effect(1) [OF ok booked(1)]) simp
  then have put: "ts_pos (snd (receivePoLines X es loc now s)) = put_po (received_po p now ?r) (ts_pos s)"
    by (simp add: booked(6))
  show ?thesis
    by (rule evolves_put [OF ok booked(1) put]) (use booked(3) in \<open>auto simp: received_po_def Let_def intro!: onwardI edge_receive\<close>)
qed

lemma evolves_unreceive:
  assumes ok: "store_ok once s" and d: "once \<Longrightarrow> distinct (map re_lineId es)"
  shows "evolves (onward once) s (snd (unreceivePoLines X es loc now s))"
proof (cases rule: unreceivePoLines_cases [of X es loc now s])
  case (refused e) then show ?thesis by (intro evolves_same) simp
next
  case (booked p sf)
  let ?r = "filter (\<lambda>e. 0 < re_qty e) es"
  have "ts_pos (snd (unreceive_body p sf ?r loc now s)) = put_po (reversed_po p now ?r) (ts_pos s)"
    by (rule unreceive_body_effect(1) [OF ok booked(1)]) simp
  then have put: "ts_pos (snd (unreceivePoLines X es loc now s)) = put_po (reversed_po p now ?r) (ts_pos s)"
    by (simp add: booked(6))
  have "po_status (reversed_po p now ?r) \<in> {Sent, PartiallyReceived} \<or>
      \<not> once \<and> po_status p = Received \<and> po_status (reversed_po p now ?r) = Received"
    by (rule reversed_po_wf(2) [OF store_okD(5) [OF ok booked(1)] booked(3,5) distinct_map_filter [OF d] _ booked(4)]) simp_all
  then have "onward once (po_status p) (po_status (reversed_po p now ?r))"
    using booked(3) by (auto simp: onward_def po_moves_def intro: edge_reverse)
  then show ?thesis by (rule evolves_put [OF ok booked(1) put, rotated 2]) (simp_all add: reversed_po_def Let_def)
qed

lemma onward_moves: "evolves (onward once) s s' \<Longrightarrow> evolves (po_moves once) s s'"
  unfolding evolves_def onward_def by blast

lemma po_step_evolves: "po_step once s s' \<Longrightarrow> store_ok once s \<Longrightarrow> evolves (po_moves once) s s'"
proof (induction rule: po_step.induct)
  case (step_world s s') then show ?case by (intro evolves_same) (simp add: world_def)
next
  case (step_enqueue o' s) then show ?case by (intro evolves_same) (simp add: enqueue_def)
next
  case (step_unqueue s i) then show ?case
    by (intro evolves_same) (auto simp: removeQueuedOrder_def Let_def log_def split: option.split)
qed (simp_all only: evolves_create evolves_manual onward_moves evolves_quantity evolves_remove_line evolves_claim evolves_settle
    evolves_cancel evolves_receive evolves_unreceive)

text \<open>Only an email that fails puts an order back to draft.\<close>

definition bounced :: "string \<Rightarrow> tenant_store \<Rightarrow> tenant_store \<Rightarrow> bool" where
  "bounced X s s' \<longleftrightarrow> s' \<noteq> s \<and> (\<exists>t. po_id (tk_po t) = X \<and> s' = snd (send_settle t EmailThrew s))"

lemma settle_others:
  assumes "p \<in> set (ts_pos s)" and "po_id p \<noteq> po_id (tk_po t) \<or> outcome \<noteq> EmailThrew"
  shows "p \<in> set (ts_pos (snd (send_settle t outcome s)))"
  using assms by (cases "outcome = EmailThrew")
    (force simp: send_settle_def Let_def set_update_where log_def set_orders_def split: option.split)+

lemma step_onward:
  assumes "po_step once s s'" and "store_ok once s" and "p \<in> set (ts_pos s)" and "\<not> bounced (po_id p) s s'"
  shows "\<exists>q \<in> set (ts_pos s'). po_id q = po_id p \<and> (q = p \<or> onward once (po_status p) (po_status q))"
proof -
  have e: "evolves (onward once) s s' \<Longrightarrow> ?thesis" using assms(3) unfolding evolves_def by blast
  show ?thesis using assms(1)
  proof (cases rule: po_step.cases)
    case step_world then show ?thesis by (intro e evolves_same) (simp add: world_def)
  next
    case (step_enqueue o') then show ?thesis by (intro e evolves_same) (simp add: enqueue_def)
  next
    case (step_unqueue i) then show ?thesis
      by (intro e evolves_same) (auto simp: removeQueuedOrder_def Let_def log_def split: option.split)
  next
    case (step_settle t outcome)
    show ?thesis
    proof (cases "po_id p = po_id (tk_po t) \<and> outcome = EmailThrew")
      case True
      then have "s' = s" using assms(4) step_settle unfolding bounced_def by metis
      then show ?thesis using assms(3) by blast
    next
      case False
      then have "p \<in> set (ts_pos s')" unfolding step_settle by (intro settle_others [OF assms(3)]) blast
      then show ?thesis by blast
    qed
  qed (rule e, simp add: assms(2) evolves_create evolves_manual evolves_quantity evolves_remove_line
    evolves_claim evolves_cancel evolves_receive evolves_unreceive)+
qed

text \<open>Over any number of steps a cancelled order stays in the tables as it is.\<close>

lemma steps_ok: "(po_step once)\<^sup>*\<^sup>* s s' \<Longrightarrow> store_ok once s \<Longrightarrow> store_ok once s'"
  by (induction rule: rtranclp_induct) (auto intro: po_step_ok)

lemma steps_keep_cancelled:
  "(po_step once)\<^sup>*\<^sup>* s s' \<Longrightarrow> store_ok once s \<Longrightarrow> p \<in> set (ts_pos s) \<Longrightarrow> po_status p = Cancelled \<Longrightarrow> p \<in> set (ts_pos s')"
proof (induction rule: rtranclp_induct)
  case (step y z)
  then have p: "p \<in> set (ts_pos y)" by simp
  have "evolves (po_moves once) y z" by (rule po_step_evolves [OF step(2) steps_ok [OF step(1) step.prems(1)]])
  with p step.prems(3) show ?case unfolding evolves_def po_moves_def by (metis no_edge_Cancelled po_status.distinct)
qed

text \<open>And an order never leaves the tables, nor changes its number.\<close>

lemma steps_keep_number:
  "(po_step once)\<^sup>*\<^sup>* s s' \<Longrightarrow> store_ok once s \<Longrightarrow> p \<in> set (ts_pos s) \<Longrightarrow>
   \<exists>q \<in> set (ts_pos s'). po_id q = po_id p \<and> po_poNumber q = po_poNumber p"
proof (induction rule: rtranclp_induct)
  case (step y z)
  then obtain q where q: "q \<in> set (ts_pos y)" "po_id q = po_id p" "po_poNumber q = po_poNumber p" by blast
  have "evolves (po_moves once) y z" by (rule po_step_evolves [OF step(2) steps_ok [OF step(1) step.prems(1)]])
  with q show ?case unfolding evolves_def by metis
qed blast

end
