(* ===== verification/PoRoundTrip.thy ===== *)
theory PoRoundTrip
  imports PoSystem
begin

text \<open>
  Receiving a delivery and then reversing the same delivery: the reversal is accepted, and
  every order's status and received quantities, and every queue row's status, are back where
  they were. This holds of any batch, also one that names a line twice and over-receives it.
\<close>

section \<open>A round trip\<close>

lemma check_entries_eq_None:
  "check_entries room ls es = None \<longleftrightarrow> (\<forall>e \<in> set es. \<exists>l. line_by_id ls (re_lineId e) = Some l \<and>
     is_integer (re_qty e) \<and> re_qty e \<le> of_int (room l))"
  by (induction es) (auto split: option.splits if_splits)

lemma find_po_in:
  assumes "store_ok once s" and "p \<in> set (ts_pos s)" and "po_deletedAt p = None"
  shows "find_po s (po_id p) = Some p"
proof (cases "find_po s (po_id p)")
  case None
  with assms(2,3) show ?thesis by (auto simp: find_po_def find_None_iff)
next
  case (Some q)
  with po_unique [OF assms(1), of q p] assms(2) find_po_Some [OF Some] show ?thesis by simp
qed

lemma receivePoLines_find:
  assumes "receivePoLines X es loc now s = (Inr r, s')"
  shows "\<exists>l. find_location s loc = Some l" "\<exists>p. find_po s X = Some p"
  using assms by (auto simp: receivePoLines_def Let_def split: if_splits option.splits)

text \<open>What a batch leaves alone: the tables the loop does not touch.\<close>

lemma loop_locations: "ts_locations (rs_store (fold (receive_entry_step sf loc now) es st)) = ts_locations (rs_store st)"
proof (induction es arbitrary: st)
  case (Cons e es)
  have "ts_locations (rs_store (receive_entry_step sf loc now e st)) = ts_locations (rs_store st)"
    by (auto simp: receive_entry_step_def entry_step_def Let_def put_line_def update_line_def receive_stock_def
        split: option.split)
  with Cons show ?case by simp
qed simp

lemma receive_body_locations: "ts_locations (snd (receive_body p sf es loc now s)) = ts_locations s"
  by (simp add: receive_body_def Let_def log_def set_po_def set_orders_def loop_locations)

lemma received_po_simps [simp]:
  "po_id (received_po p now es) = po_id p" "po_poNumber (received_po p now es) = po_poNumber p"
  "po_lines (received_po p now es) = map (receipt.book now es) (po_lines p)"
  "po_deletedAt (received_po p now es) = po_deletedAt p"
  "po_status (received_po p now es) =
     (if all_full (map (receipt.book now es) (po_lines p)) then Received else PartiallyReceived)"
  by (simp_all add: received_po_def Let_def)

lemma reversed_po_simps [simp]:
  "po_id (reversed_po p now es) = po_id p" "po_poNumber (reversed_po p now es) = po_poNumber p"
  "po_lines (reversed_po p now es) = map (reversal.book now es) (po_lines p)"
  "po_deletedAt (reversed_po p now es) = po_deletedAt p"
  by (simp_all add: reversed_po_def Let_def)

lemma booked_back: "pl_receivedQty (reversal.book t es (receipt.book u es l)) = pl_receivedQty l"
  by (simp add: reversal.book_received receipt.book_received)

lemma reverse_after_receive:
  assumes ok: "store_ok True s" and r: "receivePoLines X es loc now s = (Inr r, s1)"
  obtains p sf u where "p \<in> set (ts_pos s)" "po_id p = X" "po_status p = Sent \<or> po_status p = PartiallyReceived"
    "s1 = snd (receive_body p sf (filter (\<lambda>e. 0 < re_qty e) es) loc now s)"
    "unreceivePoLines X es loc later s1 =
       (Inr u, snd (unreceive_body (received_po p now (filter (\<lambda>e. 0 < re_qty e) es)) sf (filter (\<lambda>e. 0 < re_qty e) es) loc later s1))"
proof (cases rule: receivePoLines_cases [of X es loc now s])
  case (refused e) with r show ?thesis by simp
next
  case (booked p sf)
  let ?r = "filter (\<lambda>e. 0 < re_qty e) es"
  let ?p1 = "received_po p now ?r"
  obtain l where l: "find_location s loc = Some l" using receivePoLines_find [OF r] by blast
  have fp: "find_po s X = Some p"
  proof -
    obtain q where q: "find_po s X = Some q" using receivePoLines_find [OF r] by blast
    with find_po_Some [OF q] booked(1,2) po_unique [OF ok, of q p] show ?thesis by auto
  qed
  let ?sf = "lo_shopifyLocationId l \<noteq> None"
  have s1: "s1 = snd (receive_body p ?sf ?r loc now s)"
    using r fp l booked(3-5) by (auto simp: receivePoLines_def Let_def split: prod.splits)
  have pos: "\<And>e. e \<in> set ?r \<Longrightarrow> 0 < re_qty e" by simp
  have ok1: "store_ok False s1" unfolding s1 by (rule receive_body_ok [OF store_ok_weaken [OF ok] booked(1,3,5) _ pos booked(4)]) simp
  have put: "ts_pos s1 = put_po ?p1 (ts_pos s)"
    unfolding s1 by (rule receive_body_effect(1) [OF ok booked(1) pos])
  have p1: "?p1 \<in> set (ts_pos s1)" unfolding put
    using set_put_po [OF ok booked(1) received_po_simps(1)] by blast
  have "find_po s1 (po_id ?p1) = Some ?p1"
    by (rule find_po_in [OF ok1 p1]) (use find_po_Some [OF fp] in simp)
  then have fp1: "find_po s1 X = Some ?p1" using booked(2) by simp
  have fl1: "find_location s1 loc = Some l" using l receive_body_locations [of p ?sf ?r loc now s]
    by (simp add: find_location_def s1)
  note ls1 = received_po_simps(3) [of p now ?r]
  have wf: "po_wf True p" by (rule store_okD(5) [OF ok booked(1)])
  have chk1: "check_entries pl_receivedQty (po_lines ?p1) ?r = None"
    unfolding check_entries_eq_None
  proof
    fix e assume e: "e \<in> set ?r"
    obtain x where x: "line_by_id (po_lines p) (re_lineId e) = Some x" "is_integer (re_qty e)"
      using check_entries_None [OF booked(5) e] by blast
    note xi = line_by_id_Some [OF x(1)]
    have "distinct (map pl_id (po_lines ?p1))" using wf by (simp add: ls1 po_wf_def comp_def)
    moreover have "receipt.book now ?r x \<in> set (po_lines ?p1)" using xi by (simp add: ls1)
    ultimately have "line_by_id (po_lines ?p1) (pl_id (receipt.book now ?r x)) = Some (receipt.book now ?r x)"
      by (rule line_by_id_in)
    then have f: "line_by_id (po_lines ?p1) (re_lineId e) = Some (receipt.book now ?r x)" using xi by simp
    have "\<lfloor>re_qty e\<rfloor> \<le> booked ?r (re_lineId e)" by (rule booked_ge [OF pos e])
    moreover have "0 \<le> pl_receivedQty x" using line_of_wf [OF wf] xi unfolding line_ok_def by blast
    ultimately have "re_qty e \<le> of_int (pl_receivedQty (receipt.book now ?r x))"
      using xi x(2) unfolding is_integer_def receipt.book_received conjunct2 [OF xi] by linarith
    with f x(2) show "\<exists>l. line_by_id (po_lines ?p1) (re_lineId e) = Some l \<and> is_integer (re_qty e) \<and>
        re_qty e \<le> of_int (pl_receivedQty l)" by blast
  qed
  have st1: "po_status ?p1 = Received \<or> po_status ?p1 = PartiallyReceived" by simp
  have "unreceivePoLines X es loc later s1 =
      (Inr (fst (unreceive_body ?p1 ?sf ?r loc later s1)), snd (unreceive_body ?p1 ?sf ?r loc later s1))"
    using fp1 fl1 chk1 st1 booked(4) by (auto simp: unreceivePoLines_def Let_def split: prod.split)
  with booked(1-3) s1 show ?thesis by (rule that)
qed


lemma round_trip_lines: "map pl_receivedQty (map (reversal.book t es) (map (receipt.book u es) ls)) = map pl_receivedQty ls"
  by (simp add: booked_back)

lemma nothing_in_map: "nothing_in ls \<longleftrightarrow> set (map pl_receivedQty ls) \<subseteq> {0}"
  by (auto simp: nothing_in_def)

text \<open>A row that follows its order's line keeps its status when the line's receipt comes back to what it was.\<close>

lemma row_status_follows:
  assumes "row_ok p o1" and "row_ok q o2" and "or_productId o2 = or_productId o1" and "po_wf once p"
    and "\<And>l. l \<in> set (po_lines q) \<Longrightarrow> \<exists>x \<in> set (po_lines p). pl_productId x = pl_productId l \<and> (full_line x \<longleftrightarrow> full_line l)"
  shows "or_status o1 = OCompleted \<longleftrightarrow> or_status o2 = OCompleted"
proof -
  obtain l where l: "l \<in> set (po_lines p)" "or_productId o1 = Some (pl_productId l)" "or_status o1 = OCompleted \<longleftrightarrow> full_line l"
    using assms(1) by (auto simp: row_ok_def)
  obtain m where m: "m \<in> set (po_lines q)" "or_productId o2 = Some (pl_productId m)" "or_status o2 = OCompleted \<longleftrightarrow> full_line m"
    using assms(2) by (auto simp: row_ok_def)
  obtain x where x: "x \<in> set (po_lines p)" "pl_productId x = pl_productId m" "full_line x \<longleftrightarrow> full_line m"
    using assms(5) [OF m(1)] by blast
  have "x = l" using x l assms(3,4) m(2) by (auto simp: po_wf_def distinct_map dest: inj_onD)
  with l(3) m(3) x(3) show ?thesis by simp
qed

lemma completed_frame:
  "or_purchaseOrderId (completed_row p now es o') = or_purchaseOrderId o'" "or_productId (completed_row p now es o') = or_productId o'"
  "or_status o' \<notin> {OOrdered, OCompleted} \<Longrightarrow> or_status (completed_row p now es o') = or_status o'"
  "or_status o' \<in> {OOrdered, OCompleted} \<Longrightarrow> or_status (completed_row p now es o') \<in> {OOrdered, OCompleted}"
  "or_purchaseOrderId o' \<noteq> Some (po_id p) \<Longrightarrow> completed_row p now es o' = o'"
  by (auto simp: completed_row_def)

lemma reopened_frame:
  "or_purchaseOrderId (reopened_row p now es o') = or_purchaseOrderId o'" "or_productId (reopened_row p now es o') = or_productId o'"
  "or_status o' \<notin> {OOrdered, OCompleted} \<Longrightarrow> or_status (reopened_row p now es o') = or_status o'"
  "or_status o' \<in> {OOrdered, OCompleted} \<Longrightarrow> or_status (reopened_row p now es o') \<in> {OOrdered, OCompleted}"
  "or_purchaseOrderId o' \<noteq> Some (po_id p) \<Longrightarrow> reopened_row p now es o' = o'"
  by (auto simp: reopened_row_def)

text \<open>The status of an order that can be received is what its lines say.\<close>

lemma status_of_pile:
  assumes "po_wf True p" and "po_status p = Sent \<or> po_status p = PartiallyReceived"
  shows "po_status p = (if nothing_in (po_lines p) then Sent else if all_full (po_lines p) then Received else PartiallyReceived)"
  using assms by (auto simp: po_wf_def status_ok_def)

lemma booked_back_full: "full_line (reversal.book t es (receipt.book u es l)) \<longleftrightarrow> full_line l"
  by (simp add: full_line_def booked_back)

lemma own_row_ok:
  assumes "store_ok once s" and "p \<in> set (ts_pos s)" and "o' \<in> set (ts_orders s)"
    and "or_status o' = OOrdered \<or> or_status o' = OCompleted" and "or_purchaseOrderId o' = Some (po_id p)"
  shows "row_ok p o'"
proof -
  obtain q where "q \<in> set (ts_pos s)" "or_purchaseOrderId o' = Some (po_id q)" "row_ok q o'"
    using store_okD(6) [OF assms(1,3)] assms(4,5) by (auto simp: order_ok_def)
  with assms(5) po_unique [OF assms(1) _ assms(2), of q] show ?thesis by auto
qed

lemma round_trip:
  assumes ok: "store_ok True s" and r: "receivePoLines X es loc now s = (Inr r, s1)"
  shows "\<exists>u s2. unreceivePoLines X es loc later s1 = (Inr u, s2) \<and>
    (\<forall>p \<in> set (ts_pos s). \<exists>q \<in> set (ts_pos s2). po_id q = po_id p \<and> po_status q = po_status p \<and>
       map pl_receivedQty (po_lines q) = map pl_receivedQty (po_lines p)) \<and>
    map or_status (ts_orders s2) = map or_status (ts_orders s)"
proof -
  let ?r = "filter (\<lambda>e. 0 < re_qty e) es"
  obtain p sf u where p: "p \<in> set (ts_pos s)" "po_id p = X" and st: "po_status p = Sent \<or> po_status p = PartiallyReceived"
    and s1: "s1 = snd (receive_body p sf ?r loc now s)"
    and un: "unreceivePoLines X es loc later s1 = (Inr u, snd (unreceive_body (received_po p now ?r) sf ?r loc later s1))"
    by (rule reverse_after_receive [OF ok r])
  let ?p1 = "received_po p now ?r" and ?s2 = "snd (unreceive_body (received_po p now ?r) sf ?r loc later s1)"
  let ?p2 = "reversed_po ?p1 later ?r"
  have pos: "\<And>e. e \<in> set ?r \<Longrightarrow> 0 < re_qty e" by simp
  have ok1: "store_ok False s1" using receive_ok [OF store_ok_weaken [OF ok], of es X loc now] by (simp add: r)
  have ok2: "store_ok False ?s2" using unreceive_ok [OF ok1, of es X loc later] by (simp add: un)
  have e1: "ts_pos s1 = put_po ?p1 (ts_pos s)" "ts_orders s1 = map (completed_row p now ?r) (ts_orders s)"
    unfolding s1 by (rule receive_body_effect [OF ok p(1) pos]; simp)+
  have p1: "?p1 \<in> set (ts_pos s1)" unfolding e1(1) using set_put_po [OF ok p(1) received_po_simps(1)] by blast
  have e2: "ts_pos ?s2 = put_po ?p2 (ts_pos s1)" "ts_orders ?s2 = map (reopened_row ?p1 later ?r) (ts_orders s1)"
    by (rule unreceive_body_effect [OF ok1 p1 pos]; simp)+
  have set2: "set (ts_pos ?s2) = insert ?p2 (set (ts_pos s1) - {?p1})"
    unfolding e2(1) by (rule set_put_po [OF ok1 p1 reversed_po_simps(1)])
  have set1: "set (ts_pos s1) = insert ?p1 (set (ts_pos s) - {p})"
    unfolding e1(1) by (rule set_put_po [OF ok p(1) received_po_simps(1)])
  have lines: "map pl_receivedQty (po_lines ?p2) = map pl_receivedQty (po_lines p)"
    unfolding reversed_po_simps received_po_simps by (rule round_trip_lines)
  have wf: "po_wf True p" by (rule store_okD(5) [OF ok p(1)])
  have st2: "po_status ?p2 = po_status p"
  proof -
    have n: "nothing_in (po_lines ?p2) \<longleftrightarrow> nothing_in (po_lines p)" unfolding nothing_in_map lines ..
    have f: "all_full (po_lines ?p2) \<longleftrightarrow> all_full (po_lines p)" by (simp add: all_full_def booked_back)
    show ?thesis unfolding status_of_pile [OF wf st] n [symmetric] f [symmetric] by (simp add: reversed_po_def Let_def)
  qed
  have A: "\<exists>q \<in> set (ts_pos ?s2). po_id q = po_id a \<and> po_status q = po_status a \<and>
       map pl_receivedQty (po_lines q) = map pl_receivedQty (po_lines a)" if a: "a \<in> set (ts_pos s)" for a
  proof (cases "a = p")
    case True
    then show ?thesis using st2 lines unfolding set2 by (intro bexI [of _ ?p2]) simp_all
  next
    case False
    with a po_unique [OF ok a p(1)] have "a \<noteq> ?p1" by auto
    with False a show ?thesis unfolding set2 set1 by (intro bexI [of _ a]) simp_all
  qed
  have B: "or_status (reopened_row ?p1 later ?r (completed_row p now ?r o')) = or_status o'" if o': "o' \<in> set (ts_orders s)" for o'
  proof -
    let ?o1 = "completed_row p now ?r o'" and ?o2 = "reopened_row ?p1 later ?r (completed_row p now ?r o')"
    consider "or_purchaseOrderId o' \<noteq> Some X" | "or_status o' \<notin> {OOrdered, OCompleted}"
      | "or_purchaseOrderId o' = Some X" "or_status o' \<in> {OOrdered, OCompleted}" by blast
    then show ?thesis
    proof cases
      case 1 then show ?thesis using p(2) by (simp add: completed_frame(5) reopened_frame(5))
    next
      case 2 then show ?thesis by (simp add: completed_frame(3) reopened_frame(3))
    next
      case 3
      have in2: "?o2 \<in> set (ts_orders ?s2)" using o' by (simp add: e2(2) e1(2))
      have s12: "or_status ?o2 \<in> {OOrdered, OCompleted}" using 3(2) completed_frame(4) reopened_frame(4) by blast
      have k1: "row_ok p o'" by (rule own_row_ok [OF ok p(1) o']) (use 3 p(2) in auto)
      have k2: "row_ok ?p2 ?o2"
        by (rule own_row_ok [OF ok2 _ in2])
          (use s12 3(1) p(2) set2 in \<open>auto simp: completed_frame(1) reopened_frame(1)\<close>)
      have "or_status o' = OCompleted \<longleftrightarrow> or_status ?o2 = OCompleted"
        by (rule row_status_follows [OF k1 k2 _ wf])
          (auto simp: completed_frame(2) reopened_frame(2) full_line_def booked_back)
      with 3(2) s12 show ?thesis by auto
    qed
  qed
  have "map or_status (ts_orders ?s2) = map or_status (ts_orders s)"
    unfolding e2(2) e1(2) using B by simp
  with un A show ?thesis by blast
qed

end
