(* ===== verification/PoOverlap.thy ===== *)
theory PoOverlap
  imports PoRoundTrip
begin

text \<open>
  What the order code does not guard against and what it does: a batch that names one line several
  times, two edits of one draft whose reads both come before their writes, and later claims on an
  order that was sent.
\<close>

section \<open>A line named several times\<close>

definition entry_of :: "po_line \<Rightarrow> int \<Rightarrow> receive_entry" where
  "entry_of l n = \<lparr>re_lineId = pl_id l, re_qty = of_int n\<rparr>"

lemma entry_of_simps [simp]: "re_lineId (entry_of l n) = pl_id l" "re_qty (entry_of l n) = of_int n"
  by (simp_all add: entry_of_def)

lemma booked_replicate: "booked (replicate k e) (re_lineId e) = int k * \<lfloor>re_qty e\<rfloor>"
  by (induction k) (simp_all add: booked_Cons booked_def [of "[]"] algebra_simps)

lemma entries_fit:
  assumes "distinct (map pl_id ls)" and "l \<in> set ls" and "0 < k"
  shows "check_entries room ls (replicate k (entry_of l n)) = (if n \<le> room l then None else Some RecvBadQty)"
proof (cases "n \<le> room l")
  case True
  then show ?thesis using line_by_id_in [OF assms(1,2)] by (auto simp: check_entries_eq_None is_integer_def)
next
  case False
  then show ?thesis using line_by_id_in [OF assms(1,2)] assms(3) by (cases k) (auto simp: is_integer_def)
qed

lemma receive_repeated:
  assumes ok: "store_ok once s" and f: "find_po s X = Some p" "find_location s loc = Some w"
    and st: "po_status p = Sent \<or> po_status p = PartiallyReceived" and l: "l \<in> set (po_lines p)" and n: "0 < n" "0 < k"
  shows "receivePoLines X (replicate k (entry_of l n)) loc now s =
    (if n \<le> pl_quantity l - pl_receivedQty l
     then (let (r, s') = receive_body p (lo_shopifyLocationId w \<noteq> None) (replicate k (entry_of l n)) loc now s in (Inr r, s'))
     else (Inl RecvBadQty, s))"
proof -
  have "distinct (map pl_id (po_lines p))"
    using store_okD(5) [OF ok] find_po_Some [OF f(1)] by (auto simp: po_wf_def)
  note c = entries_fit [OF this l n(2), of "\<lambda>l. pl_quantity l - pl_receivedQty l" n]
  have "filter (\<lambda>e. 0 < re_qty e) (replicate k (entry_of l n)) = replicate k (entry_of l n)"
    using n(1) by (induction k) simp_all
  moreover have "replicate k (entry_of l n) \<noteq> []" using n(2) by simp
  ultimately show ?thesis using st f c unfolding receivePoLines_def by (auto simp: Let_def)
qed

lemma repeated_received:
  assumes ok: "store_ok once s" and p: "p \<in> set (ts_pos s)" and l: "l \<in> set (po_lines p)" and n: "0 < n"
  shows "\<exists>q \<in> set (ts_pos (snd (receive_body p sf (replicate k (entry_of l n)) loc now s))). po_id q = po_id p \<and>
    (\<exists>m \<in> set (po_lines q). pl_id m = pl_id l \<and> pl_quantity m = pl_quantity l \<and> pl_receivedQty m = pl_receivedQty l + int k * n)"
proof -
  let ?es = "replicate k (entry_of l n)" and ?q = "received_po p now (replicate k (entry_of l n))"
  have pos: "\<And>e. e \<in> set ?es \<Longrightarrow> 0 < re_qty e" using n by simp
  have "ts_pos (snd (receive_body p sf ?es loc now s)) = put_po ?q (ts_pos s)" by (rule receive_body_effect(1) [OF ok p pos])
  then have "?q \<in> set (ts_pos (snd (receive_body p sf ?es loc now s)))"
    using set_put_po [OF ok p received_po_simps(1)] by simp
  moreover have "receipt.book now ?es l \<in> set (po_lines ?q)" using l by simp
  moreover have "pl_receivedQty (receipt.book now ?es l) = pl_receivedQty l + int k * n"
    using booked_replicate [of k "entry_of l n"] by (simp add: receipt.book_received)
  ultimately show ?thesis by (intro bexI [of _ ?q] conjI bexI [of _ "receipt.book now ?es l"]) simp_all
qed

section \<open>Two edits of one draft\<close>

text \<open>The write of an edit on a store whose order has moved on since its read: the line is written where it is, the
  subtotal is that of the lines as they were read.\<close>

lemma stale_qty_write:
  assumes ok: "store_ok once s" and p1: "p1 \<in> set (ts_pos s)" "po_status p1 = Draft" "po_id p1 = po_id p"
    and l: "l \<in> set (po_lines p1)"
  shows "qty_write (p, l) q s =
    (let sub = subtotal (map (\<lambda>l. of_int (pl_quantity l) * pl_unitCostKes l) (with_qty (pl_id l) q (po_lines p)))
     in (Inr (length (po_lines p), sub),
         log (po_id p) (PoQtyChanged (pl_id l) (pl_quantity l) q sub)
           (s\<lparr>ts_pos := put_po (p1\<lparr>po_lines := with_qty (pl_id l) q (po_lines p1), po_subtotalKes := sub\<rparr>) (ts_pos s)\<rparr>)))"
proof -
  let ?f = "\<lambda>x. x\<lparr>pl_quantity := q, pl_lineTotalKes := of_int q * pl_unitCostKes l\<rparr>"
  let ?L = "update_where (\<lambda>x. pl_id x = pl_id l) ?f"
  have same: "?L (po_lines p1) = with_qty (pl_id l) q (po_lines p1)"
  proof -
    have "x = l" if "x \<in> set (po_lines p1)" "pl_id x = pl_id l" for x
      using that l store_okD(5) [OF ok p1(1)] by (auto simp: po_wf_def distinct_map dest: inj_onD)
    then show ?thesis by (auto simp: with_qty_def update_where_def)
  qed
  have "?L ls = ls" if "pl_id l \<notin> pl_id ` set ls" for ls using that by (intro update_where_nop) (metis imageI)
  from lines_put [OF ok p1(1) l this]
  have pos: "ts_pos (update_line (pl_id l) ?f s) = put_po (p1\<lparr>po_lines := with_qty (pl_id l) q (po_lines p1)\<rparr>) (ts_pos s)"
    by (simp add: update_line_def same)
  let ?p1 = "p1\<lparr>po_lines := with_qty (pl_id l) q (po_lines p1)\<rparr>"
  have in1: "?p1 \<in> set (put_po ?p1 (ts_pos s))" using set_put_po [OF ok p1(1), of ?p1] by simp
  have sub: "map (\<lambda>l. of_int (pl_quantity l) * pl_unitCostKes l)
      (update_where (\<lambda>x. pl_id x = pl_id l) (\<lambda>x. x\<lparr>pl_quantity := q\<rparr>) (po_lines p)) =
      map (\<lambda>l. of_int (pl_quantity l) * pl_unitCostKes l) (with_qty (pl_id l) q (po_lines p))"
    by (simp add: with_qty_def update_where_def)
  show ?thesis
    using rewrite_put [OF pos in1] p1(2,3) has_line_in [OF p1(1) l]
    by (simp add: qty_write_def Let_def sub update_line_def)
qed

lemma with_qty_total:
  assumes "distinct (map pl_id ls)" and "l \<in> set ls" and "\<And>x. x \<in> set ls \<Longrightarrow> pl_lineTotalKes x = of_int (pl_quantity x) * pl_unitCostKes x"
  shows "sum_list (map pl_lineTotalKes (with_qty (pl_id l) q ls)) =
    sum_list (map pl_lineTotalKes ls) + of_int (q - pl_quantity l) * pl_unitCostKes l"
  using assms
proof (induction ls)
  case (Cons a ls)
  show ?case
  proof (cases "a = l")
    case True
    with Cons.prems(1) have "pl_id l \<notin> pl_id ` set ls" by auto
    then have "with_qty (pl_id l) q ls = ls" unfolding with_qty_def by (intro update_where_nop) (metis imageI)
    with True Cons.prems(3) [of l] show ?thesis by (simp add: with_qty_def algebra_simps)
  next
    case False
    with Cons.prems have "l \<in> set ls" "pl_id a \<noteq> pl_id l" by auto
    with Cons show ?thesis by (simp add: with_qty_def)
  qed
qed simp

lemma with_qty_frame:
  "map pl_id (with_qty i q ls) = map pl_id ls"
  "(\<And>x. x \<in> set ls \<Longrightarrow> pl_lineTotalKes x = of_int (pl_quantity x) * pl_unitCostKes x) \<Longrightarrow> y \<in> set (with_qty i q ls) \<Longrightarrow>
   pl_lineTotalKes y = of_int (pl_quantity y) * pl_unitCostKes y"
  "l \<in> set ls \<Longrightarrow> pl_id l \<noteq> i \<Longrightarrow> l \<in> set (with_qty i q ls)"
  unfolding with_qty_def by (simp add: map_update_where, auto simp: set_update_where)

section \<open>Claims after a claim\<close>

lemma claim_refused:
  assumes "\<And>p. p \<in> set (ts_pos s) \<Longrightarrow> po_id p = po_id (tk_po t) \<Longrightarrow> po_status p \<noteq> Draft"
  shows "send_claim t s = (Inl NotSendable, s)"
proof -
  have "count_where (\<lambda>p. po_id p = po_id (tk_po t) \<and> po_status p = Draft \<and> po_deletedAt p = None) (ts_pos s) = 0"
    using assms by (auto simp: count_where_def filter_empty_conv)
  then show ?thesis by (simp add: send_claim_def Let_def)
qed

lemma stays_out_of_draft:
  assumes "(\<lambda>a b. po_step once a b \<and> \<not> bounced X a b)\<^sup>*\<^sup>* s s'" and "store_ok once s"
    and "p \<in> set (ts_pos s)" "po_id p = X" "po_status p \<noteq> Draft"
  shows "store_ok once s' \<and> (\<exists>q \<in> set (ts_pos s'). po_id q = X \<and> po_status q \<noteq> Draft)"
  using assms
proof (induction rule: rtranclp_induct)
  case (step y z)
  then obtain q where q: "store_ok once y" "q \<in> set (ts_pos y)" "po_id q = X" "po_status q \<noteq> Draft" by blast
  then obtain r where r: "r \<in> set (ts_pos z)" "po_id r = X" "r = q \<or> onward once (po_status q) (po_status r)"
    using step_onward [OF conjunct1 [OF step(2)] q(1,2)] step(2) by auto
  then have "po_status r \<noteq> Draft" using q(4) by (auto simp: onward_def)
  with r po_step_ok [OF conjunct1 [OF step(2)] q(1)] show ?case by blast
qed blast

end
