(* ===== verification/PoDemo.thy ===== *)
theory PoDemo
  imports PoSystem
begin

text \<open>
  A small workspace, run through the operations: a catalogue of two products, an order made
  by hand, its claim for sending, a partial delivery into a hand-counted warehouse, and a
  cancellation. Every store here is reachable by the steps, and the outcomes are evaluated.
\<close>

definition demo_product :: "string \<Rightarrow> real \<Rightarrow> product_row" where
  "demo_product i c = \<lparr>pw_id = i, pw_sku = i, pw_title = i, pw_costKes = c, pw_currentStock = 0, pw_supplierId = Some ''S''\<rparr>"

definition demo_supplier :: supplier_row where
  "demo_supplier = \<lparr>su_id = ''S'', su_name = ''Sup'', su_email = Some ''s@x'', su_country = None, su_leadTimeAvgDays = Some 7, su_moq = 0\<rparr>"

definition demo_shop :: tenant_store where
  "demo_shop = \<lparr>ts_orders = [], ts_pos = [], ts_products = [demo_product ''A'' 10, demo_product ''B'' 5],
     ts_suppliers = [demo_supplier], ts_levels = [],
     ts_locations = [\<lparr>lo_id = ''W'', lo_shopifyLocationId = None, lo_locationType = Some ''warehouse''\<rparr>],
     ts_poNumberFloor = 0, ts_currency = ''KES'', ts_name = ''Demo'', ts_audit = []\<rparr>"

definition demo_line :: "string \<Rightarrow> string \<Rightarrow> int \<Rightarrow> real \<Rightarrow> int \<Rightarrow> date option \<Rightarrow> po_line" where
  "demo_line i p q c r t = \<lparr>pl_id = i, pl_productId = p, pl_sku = p, pl_title = p, pl_quantity = q, pl_unitCostKes = c,
     pl_lineTotalKes = of_int q * c, pl_recommendedQty = Some q, pl_receivedQty = r, pl_receivedAt = t\<rparr>"

definition demo_row :: "string \<Rightarrow> string \<Rightarrow> int \<Rightarrow> order_row" where
  "demo_row i p q = \<lparr>or_id = i, or_status = OOrdered, or_productId = Some p, or_purchaseOrderId = Some ''X'',
     or_orderedQty = Some q, or_orderedAt = Some 0, or_expectedArrivalAt = None, or_receivedAt = None, or_stockAtOrder = Some 0\<rparr>"

definition demo_po :: purchase_order where
  "demo_po = \<lparr>po_id = ''X'', po_supplierId = Some ''S'', po_poNumber = ''PO-0001'', po_status = Draft,
     po_currency = ''KES'', po_subtotalKes = 65, po_createdAt = 0, po_sentAt = None, po_expectedAt = None, po_receivedAt = None,
     po_cancelledAt = None, po_cancelledByName = None, po_deletedAt = None, po_createdByName = Some ''Ann'',
     po_lines = [demo_line ''x1'' ''A'' 5 10 0 None, demo_line ''x2'' ''B'' 3 5 0 None]\<rparr>"

definition demo_draft :: tenant_store where
  "demo_draft = demo_shop\<lparr>ts_pos := [demo_po], ts_orders := [demo_row ''r1'' ''A'' 5, demo_row ''r2'' ''B'' 3],
     ts_audit := [(''X'', PoCreated ''PO-0001'' None 2)]\<rparr>"

definition demo_items :: "manual_item list" where
  "demo_items = [\<lparr>mi_productId = ''A'', mi_qty = 5\<rparr>, \<lparr>mi_productId = ''B'', mi_qty = 3\<rparr>]"

lemma demo_number: "nextPoNumber [] 0 = ''PO-0001''"
  by code_simp

lemma demo_manual_plan: "plan_manual demo_shop ''S'' demo_items = Inr (demo_supplier,
   [\<lparr>lp_productId = ''A'', lp_sku = ''A'', lp_title = ''A'', lp_quantity = 5, lp_unitCostKes = 10, lp_lineTotalKes = 50, lp_recommendedQty = 5\<rparr>,
    \<lparr>lp_productId = ''B'', lp_sku = ''B'', lp_title = ''B'', lp_quantity = 3, lp_unitCostKes = 5, lp_lineTotalKes = 15, lp_recommendedQty = 3\<rparr>])"
  by code_simp

lemma demo_created: "createManualPo ''S'' demo_items ''X'' [''x1'', ''x2''] [''r1'', ''r2''] 0 (Some ''Ann'') demo_shop = (Inr ''PO-0001'', demo_draft)"
  by code_simp

lemma demo_tables: "ts_pos demo_shop = []" "ts_orders demo_shop = []"
  by (simp_all add: demo_shop_def)

lemma demo_reachable: "po_reachable True demo_draft"
proof -
  have "po_reachable True demo_shop" by (rule reach_empty) (simp add: empty_tables_def demo_shop_def)
  moreover have "po_step True demo_shop (snd (createManualPo ''S'' demo_items ''X'' [''x1'', ''x2''] [''r1'', ''r2''] 0 (Some ''Ann'') demo_shop))"
    by (rule step_manual) (auto simp: demo_manual_plan fresh_po_def demo_tables)
  ultimately show ?thesis unfolding demo_created by (simp add: reach_step)
qed

definition demo_ticket :: send_ticket where
  "demo_ticket = \<lparr>tk_po = demo_po, tk_to = ''s@x'', tk_sentAt = 1, tk_expectedAt = Some (1 + 7 * DAY_MS)\<rparr>"

lemma demo_send_read: "send_read demo_draft ''X'' 1 = Inr demo_ticket"
  by code_simp

definition demo_sent :: tenant_store where
  "demo_sent = snd (send_claim demo_ticket demo_draft)"

lemma demo_claimed: "send_claim demo_ticket demo_draft = (Inr (), demo_sent)"
  by (simp add: demo_sent_def prod_eq_iff) code_simp

lemma demo_sent_reachable: "po_reachable True demo_sent"
  unfolding demo_sent_def by (rule reach_step [OF demo_reachable step_claim])

definition demo_batch :: "receive_entry list" where
  "demo_batch = [\<lparr>re_lineId = ''x1'', re_qty = 5\<rparr>, \<lparr>re_lineId = ''x2'', re_qty = 2\<rparr>]"

definition demo_result :: receive_result where
  "demo_result = \<lparr>rr_status = PartiallyReceived, rr_units = 7, rr_stockFollowsStore = False\<rparr>"

definition demo_partial :: tenant_store where
  "demo_partial = snd (receivePoLines ''X'' demo_batch ''W'' 2 demo_sent)"

lemma demo_batch_distinct: "distinct (map re_lineId demo_batch)"
  by (simp add: demo_batch_def)

lemma demo_received: "receivePoLines ''X'' demo_batch ''W'' 2 demo_sent = (Inr demo_result, demo_partial)"
  by (simp add: demo_partial_def prod_eq_iff) code_simp

lemma demo_partial_reachable: "po_reachable True demo_partial"
  unfolding demo_partial_def by (rule reach_step [OF demo_sent_reachable step_receive [OF demo_batch_distinct]])

definition demo_cancelled :: tenant_store where
  "demo_cancelled = snd (cancelPo ''X'' 3 (Some ''Ann'') demo_draft)"

lemma demo_cancelled_reachable: "po_reachable True demo_cancelled"
  unfolding demo_cancelled_def by (rule reach_step [OF demo_reachable step_cancel])

lemma demo_cancelled_pos: "map po_status (ts_pos demo_cancelled) = [Cancelled]"
  by code_simp
text \<open>A queue with one pending row, and the plan two callers may read from it.\<close>

definition demo_queue :: tenant_store where
  "demo_queue = enqueue ((demo_row ''q'' ''A'' 4)\<lparr>or_status := OPending, or_purchaseOrderId := None\<rparr>) demo_shop"

lemma demo_queue_reachable: "po_reachable True demo_queue"
  unfolding demo_queue_def
  by (rule reach_step [OF reach_empty step_enqueue]) (simp_all add: demo_row_def demo_tables empty_tables_def)

definition demo_plan :: create_plan where
  "demo_plan = (case plan_po demo_queue [''q''] of Inr plan \<Rightarrow> plan | Inl _ \<Rightarrow> \<lparr>cp_orders = [], cp_supplier = demo_supplier, cp_lines = []\<rparr>)"

lemma demo_planned: "plan_po demo_queue [''q''] = Inr demo_plan"
  by code_simp

definition demo_ordered :: tenant_store where
  "demo_ordered = snd (commit_po demo_plan ''X'' [''x1''] 8 None demo_queue)"

lemma demo_committed: "commit_po demo_plan ''X'' [''x1''] 8 None demo_queue = (Inr ''PO-0001'', demo_ordered)"
  by (simp add: demo_ordered_def prod_eq_iff) code_simp

end
