(* ===== verification/PoStock.thy ===== *)
theory PoStock
  imports PoSystem
begin

text \<open>
  What receipts and reversals do to the stock: the levels of the location they name move by
  the units booked, product by product, and the sellable stock on the catalogue row is
  recomputed as the sum over the levels that count.
\<close>

section \<open>Units at a location\<close>

definition level_units :: "(inventory_level \<Rightarrow> int) \<Rightarrow> string \<Rightarrow> string \<Rightarrow> inventory_level list \<Rightarrow> int" where
  "level_units f loc i levels = sum_list (map f (filter (at_level loc i) levels))"

text \<open>The table's key: one level for a product at a location.\<close>

definition unique_at :: "string \<Rightarrow> inventory_level list \<Rightarrow> bool" where
  "unique_at loc levels \<longleftrightarrow> (\<forall>i. length (filter (at_level loc i) levels) \<le> 1)"

definition stocked :: "string \<Rightarrow> string set \<Rightarrow> inventory_level list \<Rightarrow> bool" where
  "stocked loc P levels \<longleftrightarrow> unique_at loc levels \<and> (\<forall>p \<in> P. \<exists>l \<in> set levels. at_level loc p l)"

lemma at_level_upd [simp]:
  "at_level loc i (l\<lparr>il_onHand := x\<rparr>) = at_level loc i l" "at_level loc i (l\<lparr>il_available := y\<rparr>) = at_level loc i l"
  by (simp_all add: at_level_def)

lemma at_level_same: "at_level loc i l \<Longrightarrow> at_level loc p l \<longleftrightarrow> p = i"
  by (auto simp: at_level_def)

lemma filter_update:
  assumes "\<And>l. at_level loc i (g l) = at_level loc i l"
  shows "filter (at_level loc i) (update_where (at_level loc p) g lv) =
    map (if p = i then g else (\<lambda>l. l)) (filter (at_level loc i) lv)"
  using assms by (induction lv) (auto simp: at_level_same dest: at_level_same)

lemma filter_cases:
  assumes "unique_at loc lv"
  obtains "filter (at_level loc i) lv = []" | l where "filter (at_level loc i) lv = [l]"
proof (cases "filter (at_level loc i) lv")
  case Nil then show ?thesis by (rule that(1))
next
  case (Cons l ls)
  have "length (filter (at_level loc i) lv) \<le> 1" using assms by (simp add: unique_at_def)
  with Cons have "ls = []" by simp
  with Cons that(2) show ?thesis by simp
qed

lemma no_level: "\<not> (\<exists>l \<in> set lv. at_level loc i l) \<longleftrightarrow> filter (at_level loc i) lv = []"
  by (auto simp: filter_empty_conv)

lemma filter_received:
  "filter (at_level loc i) (add_available loc p q (upsert_level loc p q lv)) =
    (if p = i then (if filter (at_level loc i) lv = []
        then [\<lparr>il_locationId = loc, il_productId = p, il_onHand = q, il_available = Some q\<rparr>]
        else map (\<lambda>l. l\<lparr>il_onHand := il_onHand l + q, il_available := Some (sellableUnits l + q)\<rparr>) (filter (at_level loc i) lv))
     else filter (at_level loc i) lv)"
proof (cases "\<exists>l \<in> set lv. at_level loc p l")
  case True
  then have "filter (at_level loc p) lv \<noteq> []" by (auto simp: filter_empty_conv)
  with True show ?thesis
    by (auto simp: add_available_def upsert_level_def filter_update sellableUnits_def comp_def)
next
  case False
  then have "filter (at_level loc p) lv = []" by (auto simp: filter_empty_conv)
  with False show ?thesis
    by (auto simp: add_available_def upsert_level_def filter_update at_level_def)
qed

lemma filter_reversed:
  "filter (at_level loc i) (ts_levels (reverse_stock loc p q s)) =
    (if p = i then map (\<lambda>l. l\<lparr>il_onHand := il_onHand l - q, il_available := Some (sellableUnits l - q)\<rparr>) (filter (at_level loc i) (ts_levels s))
     else filter (at_level loc i) (ts_levels s))"
  by (simp add: reverse_stock_def filter_update sellableUnits_def comp_def)

section \<open>A loop that moves stock\<close>

locale level_mover =
  fixes stock :: "string \<Rightarrow> int \<Rightarrow> tenant_store \<Rightarrow> tenant_store"
    and J :: "inventory_level list \<Rightarrow> bool"
    and P :: "string set"
    and units :: "string \<Rightarrow> inventory_level list \<Rightarrow> int"
    and d :: "int \<Rightarrow> int"
  assumes keeps: "p \<in> P \<Longrightarrow> J (ts_levels s) \<Longrightarrow> J (ts_levels (stock p q s))"
    and moves: "p \<in> P \<Longrightarrow> J (ts_levels s) \<Longrightarrow> units i (ts_levels (stock p q s)) = units i (ts_levels s) + (if p = i then d q else 0)"
begin

end

definition entry_product :: "po_line list \<Rightarrow> receive_entry \<Rightarrow> string option" where
  "entry_product ls e = map_option pl_productId (line_by_id ls (re_lineId e))"

definition delivered :: "(int \<Rightarrow> int) \<Rightarrow> po_line list \<Rightarrow> receive_entry list \<Rightarrow> string \<Rightarrow> int" where
  "delivered d ls es i = sum_list (map (\<lambda>e. d \<lfloor>re_qty e\<rfloor>) (filter (\<lambda>e. entry_product ls e = Some i) es))"

lemma delivered_simps [simp]:
  "delivered d ls [] i = 0"
  "delivered d ls (e # es) i = (if entry_product ls e = Some i then d \<lfloor>re_qty e\<rfloor> else 0) + delivered d ls es i"
  by (simp_all add: delivered_def)

lemma entry_product_put: "entry_product (update_where (\<lambda>l. pl_id l = x) (\<lambda>l. l\<lparr>pl_receivedQty := a, pl_receivedAt := t\<rparr>) ls) = entry_product ls"
  by (rule ext, induction ls) (auto simp: entry_product_def line_by_id_def)

context level_mover begin

lemma step_units:
  assumes "J (ts_levels (rs_store st))" and "set (map pl_productId (rs_lines st)) \<subseteq> P"
  shows "J (ts_levels (rs_store (entry_step delta stamp crossed stock e st)))"
    and "units i (ts_levels (rs_store (entry_step delta stamp crossed stock e st))) =
      units i (ts_levels (rs_store st)) + (if entry_product (rs_lines st) e = Some i then d \<lfloor>re_qty e\<rfloor> else 0)"
proof -
  have k: "J (ts_levels (stock p q (update_line x f (rs_store st))))"
    "units i (ts_levels (stock p q (update_line x f (rs_store st)))) = units i (ts_levels (rs_store st)) + (if p = i then d q else 0)"
    if "p \<in> P" for p q x f
    using keeps [OF that, of "update_line x f (rs_store st)"] moves [OF that, of "update_line x f (rs_store st)"] assms(1)
    by (simp_all add: update_line_def)
  have p: "pl_productId l \<in> P" if "line_by_id (rs_lines st) (re_lineId e) = Some l" for l
    using line_by_id_Some [OF that] assms(2) by auto
  show "J (ts_levels (rs_store (entry_step delta stamp crossed stock e st)))"
    using assms(1) k(1) p by (auto simp: entry_step_def put_line_def Let_def split: option.split)
  show "units i (ts_levels (rs_store (entry_step delta stamp crossed stock e st))) =
      units i (ts_levels (rs_store st)) + (if entry_product (rs_lines st) e = Some i then d \<lfloor>re_qty e\<rfloor> else 0)"
    using k(2) p by (auto simp: entry_step_def put_line_def Let_def entry_product_def split: option.split)
qed

lemma step_products:
  "entry_product (rs_lines (entry_step delta stamp crossed stock e st)) = entry_product (rs_lines st)"
  "map pl_productId (rs_lines (entry_step delta stamp crossed stock e st)) = map pl_productId (rs_lines st)"
  by (auto simp: entry_step_def put_line_def Let_def entry_product_put map_update_where split: option.split)

lemma loop_units:
  assumes "J (ts_levels (rs_store st))" and "set (map pl_productId (rs_lines st)) \<subseteq> P"
  shows "units i (ts_levels (rs_store (fold (entry_step delta stamp crossed stock) es st))) =
    units i (ts_levels (rs_store st)) + delivered d (rs_lines st) es i"
  using assms
proof (induction es arbitrary: st)
  case (Cons e es)
  from step_units [OF Cons.prems, where delta = delta and stamp = stamp and crossed = crossed and e = e]
    Cons.IH [of "entry_step delta stamp crossed stock e st"] Cons.prems(2)
  show ?case by (simp add: step_products delivered_def del: set_map)
qed simp

end

lemma length_received_le: "unique_at loc lv \<Longrightarrow> unique_at loc (add_available loc p q (upsert_level loc p q lv))"
  by (auto simp: unique_at_def filter_received)

interpretation hand_in: level_mover "receive_stock loc" "unique_at loc" UNIV "level_units il_onHand loc" "\<lambda>q. q" for loc
proof (unfold_locales, goal_cases)
  case (1 p s q) then show ?case by (simp add: receive_stock_def length_received_le)
next
  case (2 p s i q)
  show ?case by (cases rule: filter_cases [OF 2(2), of i]) (auto simp: receive_stock_def level_units_def filter_received)
qed

interpretation sell_in: level_mover "receive_stock loc" "unique_at loc" UNIV "level_units sellableUnits loc" "\<lambda>q. q" for loc
proof (unfold_locales, goal_cases)
  case (1 p s q) then show ?case by (simp add: receive_stock_def length_received_le)
next
  case (2 p s i q)
  show ?case by (cases rule: filter_cases [OF 2(2), of i])
    (auto simp: receive_stock_def level_units_def filter_received sellableUnits_def [of "_\<lparr>il_available := _\<rparr>"] sellableUnits_def [of "\<lparr>il_locationId = _, il_productId = _, il_onHand = _, il_available = _\<rparr>"])
qed

lemma stocked_filter:
  "stocked loc P lv \<longleftrightarrow> (\<forall>i. length (filter (at_level loc i) lv) \<le> 1) \<and> (\<forall>p \<in> P. filter (at_level loc p) lv \<noteq> [])"
  by (auto simp: stocked_def unique_at_def filter_empty_conv)

lemma stocked_reversed: "stocked loc P (ts_levels s) \<Longrightarrow> stocked loc P (ts_levels (reverse_stock loc p q s))"
  by (auto simp: stocked_filter filter_reversed)

interpretation hand_out: level_mover "reverse_stock loc" "stocked loc P" P "level_units il_onHand loc" "\<lambda>q. - q" for loc P
proof (unfold_locales, goal_cases)
  case (1 p s q) show ?case by (rule stocked_reversed [OF 1(2)])
next
  case (2 p s i q)
  then have u: "unique_at loc (ts_levels s)" "filter (at_level loc p) (ts_levels s) \<noteq> []" by (auto simp: stocked_def filter_empty_conv)
  show ?case by (cases rule: filter_cases [OF u(1), of i]) (use u(2) in \<open>auto simp: level_units_def filter_reversed\<close>)
qed

section \<open>The sellable stock on the catalogue row\<close>

lemma set_stock_fold:
  "distinct (alist_keys m) \<Longrightarrow>
   fold (\<lambda>(i, v). update_where (\<lambda>p. pw_id p = i) (\<lambda>p. p\<lparr>pw_currentStock := of_int v\<rparr>)) m ps =
   map (\<lambda>p. case map_of m (pw_id p) of None \<Rightarrow> p | Some v \<Rightarrow> p\<lparr>pw_currentStock := of_int v\<rparr>) ps"
proof (induction m arbitrary: ps)
  case (Cons e m)
  obtain i v where e: "e = (i, v)" by (cases e)
  have "map_of m i = None" using Cons.prems by (auto simp: e map_of_eq_None_iff)
  with Cons show ?case by (auto simp: e update_where_def split: option.split)
qed simp

definition sellable_stock :: "tenant_store \<Rightarrow> string \<Rightarrow> int" where
  "sellable_stock s i = sum_list (map sellableUnits (filter (\<lambda>l. counts_as_sellable s l \<and> il_productId l = i) (ts_levels s)))"

lemma zero_start:
  "distinct (alist_keys m) \<Longrightarrow> distinct (alist_keys (fold (\<lambda>i. AList.update i (0::int)) ids m)) \<and>
   set (alist_keys (fold (\<lambda>i. AList.update i (0::int)) ids m)) = set ids \<union> set (alist_keys m)"
  by (induction ids arbitrary: m) (simp_all add: distinct_update keys_update del: set_map)

lemma zero_start_get0: "(\<And>k. get0 m k = 0) \<Longrightarrow> get0 (fold (\<lambda>i. AList.update i (0::int)) ids m) k = 0"
  by (induction ids arbitrary: m) (auto simp: get0_def update_conv')

lemma sellable_map_spec:
  "distinct (alist_keys (sellable_map s ids))" "set (alist_keys (sellable_map s ids)) = set ids"
  "i \<in> set ids \<Longrightarrow> map_of (sellable_map s ids) i = Some (sellable_stock s i)"
proof -
  have z: "distinct (alist_keys (fold (\<lambda>i. AList.update i (0::int)) ids []))"
    "set (alist_keys (fold (\<lambda>i. AList.update i (0::int)) ids [])) = set ids" using zero_start [of "[]" ids] by simp_all
  show d: "distinct (alist_keys (sellable_map s ids))" and k: "set (alist_keys (sellable_map s ids)) = set ids"
    unfolding sellable_map_def by (rule bump_all_distinct [OF z(1)]) (auto simp add: bump_all_keys z(2) simp del: set_map)
  assume i: "i \<in> set ids"
  then have "map_of (sellable_map s ids) i \<noteq> None" using k by (simp add: map_of_eq_None_iff)
  moreover have "get0 (sellable_map s ids) i = sellable_stock s i"
    using i zero_start_get0 [of "[]" ids i]
    by (simp add: sellable_map_def bump_all_get0 sellable_stock_def get0_def [of "[]"] conj_commute)
      (intro arg_cong [of _ _ "\<lambda>x. sum_list (map sellableUnits x)"] filter_cong refl, auto)
  ultimately show "map_of (sellable_map s ids) i = Some (sellable_stock s i)" by (auto simp: get0_def)
qed

lemma recompute_products:
  "ts_products (recomputeSellableStock ids s) =
    map (\<lambda>p. if pw_id p \<in> set ids then p\<lparr>pw_currentStock := of_int (sellable_stock s (pw_id p))\<rparr> else p) (ts_products s)"
proof -
  have "(case map_of (sellable_map s ids) (pw_id p) of None \<Rightarrow> p | Some v \<Rightarrow> p\<lparr>pw_currentStock := of_int v\<rparr>) =
      (if pw_id p \<in> set ids then p\<lparr>pw_currentStock := of_int (sellable_stock s (pw_id p))\<rparr> else p)" for p
  proof (cases "pw_id p \<in> set ids")
    case False
    then have "map_of (sellable_map s ids) (pw_id p) = None" using sellable_map_spec(2) [of s ids] by (simp add: map_of_eq_None_iff)
    with False show ?thesis by simp
  qed (simp add: sellable_map_spec(3))
  then have "fold (\<lambda>(i, v). update_where (\<lambda>p. pw_id p = i) (\<lambda>p. p\<lparr>pw_currentStock := of_int v\<rparr>)) (sellable_map s ids) (ts_products s) =
    map (\<lambda>p. if pw_id p \<in> set ids then p\<lparr>pw_currentStock := of_int (sellable_stock s (pw_id p))\<rparr> else p) (ts_products s)"
    unfolding set_stock_fold [OF sellable_map_spec(1)] by (intro map_cong refl)
  then show ?thesis unfolding recomputeSellableStock_def by simp
qed

section \<open>What a receipt and a reversal move\<close>

lemma receipt_step: "receive_entry_step sf loc now = entry_step (\<lambda>q. q) (\<lambda>_. Some now) (\<lambda>l n. pl_quantity l \<le> n)
    (\<lambda>p q s. if sf then s else receive_stock loc p q s)"
  by (simp add: receive_entry_step_def)

lemma body_levels: "ts_levels (snd (receive_body p sf es loc now s)) =
    ts_levels (rs_store (fold (receive_entry_step sf loc now) es (loop_start p s)))"
  by (simp add: receive_body_def Let_def loop_start_def log_def set_po_def set_orders_def)

lemma body_levels_back: "ts_levels (snd (unreceive_body p sf es loc now s)) =
    ts_levels (rs_store (fold (reverse_entry_step sf loc now) es (loop_start p s)))"
  by (simp add: unreceive_body_def Let_def loop_start_def log_def set_po_def set_orders_def)

lemma received_units:
  assumes "unique_at loc (ts_levels s)"
  shows "level_units il_onHand loc i (ts_levels (snd (receive_body p False es loc now s))) =
      level_units il_onHand loc i (ts_levels s) + delivered (\<lambda>q. q) (po_lines p) es i"
    and "level_units sellableUnits loc i (ts_levels (snd (receive_body p False es loc now s))) =
      level_units sellableUnits loc i (ts_levels s) + delivered (\<lambda>q. q) (po_lines p) es i"
  using hand_in.loop_units [of loc "loop_start p s"] sell_in.loop_units [of loc "loop_start p s"] assms
  by (simp_all add: body_levels receive_entry_step_def)

lemma followed_levels: "ts_levels (rs_store (fold (entry_step delta stamp crossed (\<lambda>p q s. s)) es st)) = ts_levels (rs_store st)"
  by (induction es arbitrary: st) (auto simp: entry_step_def put_line_def update_line_def Let_def split: option.split)

lemma followed: "ts_levels (snd (receive_body p True es loc now s)) = ts_levels s"
  by (simp add: body_levels receive_entry_step_def followed_levels)

lemma received_products:
  "ts_products (snd (receive_body p sf es loc now s)) =
   ts_products (recomputeSellableStock (touched_products sf (po_lines p) es)
     (rs_store (fold (receive_entry_step sf loc now) es (loop_start p s))))"
  by (simp add: receive_body_def Let_def loop_start_def log_def set_po_def set_orders_def)

lemma sellable_stock_cong:
  "ts_levels s = ts_levels s' \<Longrightarrow> ts_locations s = ts_locations s' \<Longrightarrow> sellable_stock s i = sellable_stock s' i"
  by (simp add: sellable_stock_def counts_as_sellable_def location_type_of_def)

end
