(* ===== verification/PoProperties.thy ===== *)
theory PoProperties
  imports PoOverlap PoDemo PoStock
begin

text \<open>
  The properties of the purchase-order component, each with a witness on the small workspace
  of \<^theory_text>\<open>PoDemo\<close>: what every reachable store satisfies, what a delivery books, what concurrent callers can
  and cannot do to one another.
\<close>


section \<open>Helpers\<close>

lemma demo_sent_po: "hd (ts_pos demo_sent) \<in> set (ts_pos demo_sent)" "po_id (hd (ts_pos demo_sent)) = ''X''"
  by code_simp+

lemma demo_cancelled_po: "hd (ts_pos demo_cancelled) \<in> set (ts_pos demo_cancelled)" "po_status (hd (ts_pos demo_cancelled)) = Cancelled"
  by code_simp+

lemma demo_receive_step: "po_step True demo_sent demo_partial"
  unfolding demo_partial_def by (rule step_receive [OF demo_batch_distinct])

lemma demo_late_step: "po_step True demo_cancelled (snd (receivePoLines ''X'' demo_batch ''W'' 4 demo_cancelled))"
  by (rule step_receive [OF demo_batch_distinct])

section \<open>The invariant, the life of an order\<close>

text \<open>C1. Every store the operations can reach, run one after the other in any order and with any arguments, each
  refusing or succeeding, is sound: subtotals are the sum of their lines, statuses agree with the lines and dates, and
  a queue row on an order finds its line there, full exactly when the row is completed. If moreover no batch received
  or reversed so far named a line twice (flag \<open>once\<close>; the code does not check it), every line is received between
  nought and what was ordered. Edits of one draft that overlap in time are not steps: C13 says what they do.\<close>

theorem reachable_tables_sound: "po_reachable once s \<Longrightarrow> store_ok once s"
  by (rule po_reachable_ok)

theorem reachable_tables_sound_witness: "po_reachable True demo_partial \<and> store_ok True demo_partial"
  using reachable_tables_sound [OF demo_partial_reachable] demo_partial_reachable by simp

text \<open>C2. One operation leaves an order as it is up to its contents, or moves it along an edge of the
  status machine: draft to sent and back on a bounced email, draft or sent to cancelled, and between sent,
  partially received and received as deliveries are booked and reversed. Its number and id stay. Only when batches may
  name a line twice, so that a line can hold more than was ordered, an order can also stay received through a reversal.\<close>

theorem status_moves_along_edges:
  assumes "po_reachable once s" and "po_step once s s'" and "p \<in> set (ts_pos s)"
  shows "\<exists>q \<in> set (ts_pos s'). po_id q = po_id p \<and> po_poNumber q = po_poNumber p \<and>
    (q = p \<or> po_edge (po_status p) (po_status q) \<or> \<not> once \<and> po_status p = Received \<and> po_status q = Received)"
  using po_step_evolves [OF assms(2) po_reachable_ok [OF assms(1)]] assms(3) unfolding evolves_def po_moves_def by blast

theorem status_moves_along_edges_witness:
  "\<exists>q \<in> set (ts_pos demo_partial). po_id q = ''X'' \<and> (q = hd (ts_pos demo_sent) \<or> po_edge (po_status (hd (ts_pos demo_sent))) (po_status q))"
  using status_moves_along_edges [OF demo_sent_reachable demo_receive_step demo_sent_po(1)] unfolding demo_sent_po(2) by blast

text \<open>C8. A cancelled order is final: whatever operations follow, the row stays exactly as the cancellation left it.\<close>

theorem cancelled_is_final:
  assumes "po_reachable once s" and "(po_step once)\<^sup>*\<^sup>* s s'" and "p \<in> set (ts_pos s)" and "po_status p = Cancelled"
  shows "p \<in> set (ts_pos s')"
  by (rule steps_keep_cancelled [OF assms(2) po_reachable_ok [OF assms(1)] assms(3,4)])

theorem cancelled_is_final_witness:
  "hd (ts_pos demo_cancelled) \<in> set (ts_pos (snd (receivePoLines ''X'' demo_batch ''W'' 4 demo_cancelled)))"
  by (rule cancelled_is_final [OF demo_cancelled_reachable r_into_rtranclp [of "po_step True", OF demo_late_step] demo_cancelled_po])

text \<open>C9. No order ever leaves the tables or changes its number, and it shares neither its id nor its number with another.\<close>

theorem orders_stay_under_their_number:
  assumes "po_reachable once s" and "(po_step once)\<^sup>*\<^sup>* s s'" and "p \<in> set (ts_pos s)"
  shows "\<exists>q \<in> set (ts_pos s'). po_id q = po_id p \<and> po_poNumber q = po_poNumber p \<and>
    (\<forall>r \<in> set (ts_pos s'). po_id r = po_id p \<or> po_poNumber r = po_poNumber p \<longrightarrow> r = q)"
proof -
  note ok = po_reachable_ok [OF assms(1)]
  obtain q where q: "q \<in> set (ts_pos s')" "po_id q = po_id p" "po_poNumber q = po_poNumber p"
    using steps_keep_number [OF assms(2) ok assms(3)] by blast
  note ok' = steps_ok [OF assms(2) ok]
  have inj: "inj_on po_poNumber (set (ts_pos s'))" using store_okD(2) [OF ok'] by (simp add: distinct_map)
  have "r = q" if r: "r \<in> set (ts_pos s')" "po_id r = po_id p \<or> po_poNumber r = po_poNumber p" for r
    using r(2)
  proof
    assume "po_id r = po_id p" then show ?thesis using po_unique [OF ok' r(1) q(1)] q(2) by simp
  next
    assume "po_poNumber r = po_poNumber p" then show ?thesis using inj_onD [OF inj _ r(1) q(1)] q(3) by simp
  qed
  note same = this
  show ?thesis
  proof (intro bexI [of _ q] conjI ballI impI)
    show "po_id q = po_id p" "po_poNumber q = po_poNumber p" "q \<in> set (ts_pos s')" by (rule q)+
    show "r = q" if "r \<in> set (ts_pos s')" "po_id r = po_id p \<or> po_poNumber r = po_poNumber p" for r by (rule same [OF that])
  qed
qed

theorem orders_stay_under_their_number_witness:
  "\<exists>q \<in> set (ts_pos demo_partial). po_id q = po_id (hd (ts_pos demo_sent)) \<and> po_poNumber q = po_poNumber (hd (ts_pos demo_sent)) \<and>
    (\<forall>r \<in> set (ts_pos demo_partial). po_id r = po_id (hd (ts_pos demo_sent)) \<or> po_poNumber r = po_poNumber (hd (ts_pos demo_sent)) \<longrightarrow> r = q)"
  by (rule orders_stay_under_their_number [OF demo_sent_reachable r_into_rtranclp [of "po_step True", OF demo_receive_step] demo_sent_po(1)])

section \<open>Receiving\<close>

lemma receive_body_result:
  assumes chk: "check_entries room (po_lines p) es = None"
  shows "rr_units (fst (receive_body p sf es loc now s)) = sum_list (map (\<lambda>e. \<lfloor>re_qty e\<rfloor>) es)"
proof -
  have "re_lineId e \<in> pl_id ` set (po_lines p)" if "e \<in> set es" for e
    using check_entries_None [OF chk that] line_by_id_None [of "po_lines p" "re_lineId e"] by auto
  then show ?thesis by (simp add: receive_body_def Let_def receive_entry_step_def entry_units)
qed

lemma receive_body_status:
  assumes ok: "store_ok once s" and p: "p \<in> set (ts_pos s)" and pos: "\<And>e. e \<in> set es \<Longrightarrow> 0 < re_qty e"
  shows "rr_status (fst (receive_body p sf es loc now s)) = po_status (received_po p now es)"
  using receipt.loop_store(1) [OF ok p pos, where now = now and sf = sf and loc = loc]
  by (simp add: receive_body_def Let_def receipt.step_def receive_entry_step_def loop_start_def)

text \<open>C3. A delivery that is accepted, whatever lines it names and however often, books exactly its quantities: on the one
  order it names, every line's received quantity grows by the sum of what the batch holds for it, the answer counts the
  units booked, the order is Received exactly when every line is full, and no other order changes. Every entry of it
  names a line and fits by itself in the room that line had before the batch; so when no line is named twice, in this
  batch or an earlier one, no line passes what was ordered.\<close>

theorem receipt_books_exactly:
  assumes "po_reachable once s" and "receivePoLines X es loc now s = (Inr r, s')"
  shows "\<exists>p \<in> set (ts_pos s). \<exists>q. po_id p = X \<and> po_id q = X \<and> set (ts_pos s') = insert q (set (ts_pos s) - {p}) \<and>
    list_all2 (\<lambda>l m. pl_id m = pl_id l \<and> pl_quantity m = pl_quantity l \<and>
        pl_receivedQty m = pl_receivedQty l + booked (filter (\<lambda>e. 0 < re_qty e) es) (pl_id l) \<and>
        (once \<and> distinct (map re_lineId es) \<longrightarrow> pl_receivedQty m \<le> pl_quantity l)) (po_lines p) (po_lines q) \<and>
    (\<forall>e \<in> set (filter (\<lambda>e. 0 < re_qty e) es). \<exists>l \<in> set (po_lines p). pl_id l = re_lineId e \<and>
        re_qty e \<le> of_int (pl_quantity l - pl_receivedQty l)) \<and>
    rr_units r = sum_list (map (\<lambda>e. \<lfloor>re_qty e\<rfloor>) (filter (\<lambda>e. 0 < re_qty e) es)) \<and>
    po_status q = rr_status r \<and> (rr_status r = Received \<longleftrightarrow> all_full (po_lines q))"
proof (cases rule: receivePoLines_cases [of X es loc now s])
  case (refused e) with assms(2) show ?thesis by simp
next
  case (booked p sf)
  let ?r = "filter (\<lambda>e. 0 < re_qty e) es" and ?q = "received_po p now (filter (\<lambda>e. 0 < re_qty e) es)"
  note ok = po_reachable_ok [OF assms(1)]
  have pos: "\<And>e. e \<in> set ?r \<Longrightarrow> 0 < re_qty e" by simp
  have e: "r = fst (receive_body p sf ?r loc now s)" "s' = snd (receive_body p sf ?r loc now s)" using booked(6) assms(2) by simp_all
  have S: "set (ts_pos s') = insert ?q (set (ts_pos s) - {p})"
  proof -
    have "ts_pos s' = put_po ?q (ts_pos s)" unfolding e(2) by (rule receive_body_effect(1) [OF ok booked(1) pos])
    then show ?thesis using set_put_po [OF ok booked(1) received_po_simps(1)] by simp
  qed
  have L: "list_all2 (\<lambda>l m. pl_id m = pl_id l \<and> pl_quantity m = pl_quantity l \<and>
      pl_receivedQty m = pl_receivedQty l + booked ?r (pl_id l) \<and>
      (once \<and> distinct (map re_lineId es) \<longrightarrow> pl_receivedQty m \<le> pl_quantity l)) (po_lines p) (po_lines ?q)"
  proof -
    have "pl_receivedQty (receipt.book now ?r l) \<le> pl_quantity l"
      if "once" "distinct (map re_lineId es)" "l \<in> set (po_lines p)" for l
      using receive_lines_ok(1) [OF store_okD(5) [OF ok booked(1)] booked(5) distinct_map_filter [OF that(2)] pos that(3), of now] that(1)
      by (simp add: line_ok_def)
    then show ?thesis by (auto simp: list_all2_map2 receipt.book_received intro!: list.rel_refl_strong)
  qed
  have R: "\<exists>l \<in> set (po_lines p). pl_id l = re_lineId e \<and> re_qty e \<le> of_int (pl_quantity l - pl_receivedQty l)" if "e \<in> set ?r" for e
    using check_entries_None [OF booked(5) that] line_by_id_Some by blast
  have "rr_status r = po_status ?q" unfolding e(1) by (rule receive_body_status [OF ok booked(1) pos])
  then show ?thesis
    by (intro bexI [OF _ booked(1)] exI [of _ ?q])
      (use booked(2) S L R receive_body_result [OF booked(5)] in \<open>simp add: e(1)\<close>)
qed

theorem receipt_books_exactly_witness:
  "\<exists>p \<in> set (ts_pos demo_sent). \<exists>q. set (ts_pos demo_partial) = insert q (set (ts_pos demo_sent) - {p}) \<and> po_status q = PartiallyReceived"
  using receipt_books_exactly [OF demo_sent_reachable demo_received] unfolding demo_result_def by auto

text \<open>C4. Reversing the same batch at the same location undoes a receipt, also of a batch that names a line twice: the
  reversal is accepted, every order is back at its status with its received quantities, and every queue row at its
  status. The store before was reached by batches that named no line twice.\<close>

theorem receipt_then_reversal_restores:
  assumes "po_reachable True s" and "receivePoLines X es loc now s = (Inr r, s1)"
  shows "\<exists>u s2. unreceivePoLines X es loc later s1 = (Inr u, s2) \<and>
    (\<forall>p \<in> set (ts_pos s). \<exists>q \<in> set (ts_pos s2). po_id q = po_id p \<and> po_status q = po_status p \<and>
       map pl_receivedQty (po_lines q) = map pl_receivedQty (po_lines p)) \<and>
    map or_status (ts_orders s2) = map or_status (ts_orders s)"
  by (rule round_trip [OF po_reachable_ok [OF assms(1)] assms(2)])

theorem receipt_then_reversal_restores_witness:
  "\<exists>u s2. unreceivePoLines ''X'' demo_batch ''W'' 5 demo_partial = (Inr u, s2) \<and> map or_status (ts_orders s2) = map or_status (ts_orders demo_sent)"
  using receipt_then_reversal_restores [OF demo_sent_reachable demo_received, of 5] by blast

section \<open>Stock\<close>

lemma receive_accepted:
  assumes "receivePoLines X es loc now s = (Inr r, s')"
  obtains p l where "find_po s X = Some p" "find_location s loc = Some l"
    "s' = snd (receive_body p (lo_shopifyLocationId l \<noteq> None) (filter (\<lambda>e. 0 < re_qty e) es) loc now s)"
  using assms by (auto simp: receivePoLines_def Let_def split: if_splits option.splits prod.splits)

lemma touched_in: "i \<in> set (touched_products False ls es) \<longleftrightarrow> (\<exists>e \<in> set es. entry_product ls e = Some i)"
  by (auto simp: touched_products_def entry_product_def split: option.splits) (metis option.sel)+

lemma received_current_stock:
  assumes "w \<in> set (ts_products (snd (receive_body p False es loc now s)))"
    and "\<exists>e \<in> set es. entry_product (po_lines p) e = Some (pw_id w)"
  shows "pw_currentStock w = of_int (sellable_stock (snd (receive_body p False es loc now s)) (pw_id w))"
proof -
  let ?st = "rs_store (fold (receive_entry_step False loc now) es (loop_start p s))"
  have "sellable_stock ?st i = sellable_stock (snd (receive_body p False es loc now s)) i" for i
    by (rule sellable_stock_cong) (simp_all add: body_levels receive_body_locations loop_locations loop_start_def)
  with assms show ?thesis
    unfolding received_products recompute_products by (auto simp: touched_in split: if_splits)
qed

lemma followed_products: "ts_products (snd (receive_body p True es loc now s)) = ts_products (rs_store (fold (receive_entry_step True loc now) es (loop_start p s)))"
  by (simp add: received_products touched_products_def recomputeSellableStock_def)

text \<open>C5. Receiving into a location the shop counts by hand raises that location's on-hand and sellable
  units, product by product, by exactly what the batch delivers, and leaves each delivered product's stock
  figure equal to the sum over the levels that sell; receiving where the store's own count is followed moves no level at all.\<close>

theorem receipt_moves_stock:
  assumes "receivePoLines X es loc now s = (Inr r, s')" and "unique_at loc (ts_levels s)"
  shows "\<exists>p l. find_po s X = Some p \<and> find_location s loc = Some l \<and>
    (if lo_shopifyLocationId l \<noteq> None then ts_levels s' = ts_levels s
     else (\<forall>i. level_units il_onHand loc i (ts_levels s') = level_units il_onHand loc i (ts_levels s) +
             delivered (\<lambda>q. q) (po_lines p) (filter (\<lambda>e. 0 < re_qty e) es) i \<and>
           level_units sellableUnits loc i (ts_levels s') = level_units sellableUnits loc i (ts_levels s) +
             delivered (\<lambda>q. q) (po_lines p) (filter (\<lambda>e. 0 < re_qty e) es) i) \<and>
          (\<forall>w \<in> set (ts_products s'). (\<exists>e \<in> set (filter (\<lambda>e. 0 < re_qty e) es). entry_product (po_lines p) e = Some (pw_id w)) \<longrightarrow>
             pw_currentStock w = of_int (sellable_stock s' (pw_id w))))"
proof -
  obtain p l where f: "find_po s X = Some p" "find_location s loc = Some l"
    and s': "s' = snd (receive_body p (lo_shopifyLocationId l \<noteq> None) (filter (\<lambda>e. 0 < re_qty e) es) loc now s)"
    by (rule receive_accepted [OF assms(1)])
  show ?thesis
  proof (cases "lo_shopifyLocationId l")
    case None
    then have s': "s' = snd (receive_body p False (filter (\<lambda>e. 0 < re_qty e) es) loc now s)" using s' by simp
    show ?thesis using f None received_units [OF assms(2)] received_current_stock
      unfolding s' by (intro exI [of _ p] exI [of _ l]) (simp del: set_filter)
  qed (use f s' in \<open>simp add: followed\<close>)
qed

theorem receipt_moves_stock_witness:
  "level_units il_onHand ''W'' ''A'' (ts_levels demo_partial) = 5"
proof -
  have u: "unique_at ''W'' (ts_levels demo_sent)" by (simp add: unique_at_def demo_sent_def send_claim_def Let_def demo_draft_def demo_shop_def)
  have "level_units il_onHand ''W'' ''A'' (ts_levels demo_partial) = level_units il_onHand ''W'' ''A'' (ts_levels demo_sent) +
      delivered (\<lambda>q. q) (po_lines (hd (ts_pos demo_sent))) (filter (\<lambda>e. 0 < re_qty e) demo_batch) ''A''"
  proof -
    have "find_po demo_sent ''X'' = Some (hd (ts_pos demo_sent))" by code_simp
    moreover have "map_option lo_shopifyLocationId (find_location demo_sent ''W'') = Some None" by code_simp
    ultimately show ?thesis using receipt_moves_stock [OF demo_received u] by auto
  qed
  also have "\<dots> = 5" by code_simp
  finally show ?thesis .
qed

section \<open>Claims\<close>

lemma with_products_fst: "map fst (with_products s rows) = filter (\<lambda>o'. find_product s (or_productId o') \<noteq> None) rows"
  by (induction rows) (auto simp: with_products_def split: option.split)

lemma plan_orders_distinct:
  assumes "plan_po s ids = Inr plan" and "distinct (map or_id (ts_orders s))"
  shows "distinct (map (or_id \<circ> fst) (cp_orders plan))"
proof -
  have "cp_orders plan = with_products s (queued_rows s ids)"
    using assms(1) by (auto simp: plan_po_def Let_def split: if_splits option.splits)
  then have "map (or_id \<circ> fst) (cp_orders plan) = map or_id (filter (\<lambda>o'. find_product s (or_productId o') \<noteq> None) (queued_rows s ids))"
    by (simp only: with_products_fst [symmetric] map_map)
  then show ?thesis using assms(2) by (simp add: queued_rows_def distinct_map_filter)
qed

lemma committed_rows:
  assumes "commit_po plan X ls now a s = (Inr n, s')"
  shows "map or_id (ts_orders s') = map or_id (ts_orders s)"
    and "r \<in> set (ts_orders s') \<Longrightarrow> or_id r \<in> set (map (or_id \<circ> fst) (cp_orders plan)) \<Longrightarrow> or_status r \<noteq> OPending"
proof -
  let ?ids = "map (or_id \<circ> fst) (cp_orders plan)"
  obtain g where g: "link_rows X (cp_orders plan) (update_where (pending_in ?ids) (claim_row now) (ts_orders s)) =
      map g (update_where (pending_in ?ids) (claim_row now) (ts_orders s))"
    "\<And>o'. or_id (g o') = or_id o' \<and> or_status (g o') = or_status o'"
    using link_rows_map [of X "cp_orders plan"] by metis
  have o: "ts_orders s' = map g (update_where (pending_in ?ids) (claim_row now) (ts_orders s))"
    using assms g(1) by (auto simp: commit_po_def Let_def log_def split: if_splits)
  show "map or_id (ts_orders s') = map or_id (ts_orders s)"
    unfolding o by (simp add: g(2) comp_def map_update_where claim_row_def)
  show "or_status r \<noteq> OPending" if r: "r \<in> set (ts_orders s')" "or_id r \<in> set ?ids"
  proof -
    obtain x where "r = g (if pending_in ?ids x then claim_row now x else x)"
      using r(1) unfolding o set_map set_update_where by blast
    with r(2) show ?thesis by (cases "pending_in ?ids x") (auto simp: g(2) claim_row_def pending_in_def simp del: set_map)
  qed
qed

lemma count_short:
  assumes "distinct (map k rows)" and "distinct ids" and "i \<in> set ids" and "\<And>r. r \<in> set rows \<Longrightarrow> P r \<Longrightarrow> k r \<in> set ids - {i}"
  shows "count_where P rows < length ids"
proof -
  have "count_where P rows = card (k ` set (filter P rows))"
    unfolding count_where_def using distinct_map_filter [OF assms(1), of P] by (metis distinct_card length_map set_map)
  also have "\<dots> \<le> card (set ids - {i})" using assms(4) by (intro card_mono) auto
  also have "\<dots> < length ids" using assms(2,3) by (metis card_Diff1_less distinct_card List.finite_set)
  finally show ?thesis .
qed

text \<open>C6. A queue row is claimed once: after one caller has turned it into an order, any other caller whose
  plan, read at any earlier time, names the same row is refused, and its transaction changes nothing.\<close>

theorem queue_row_claimed_once:
  assumes "po_reachable once s0" and "plan_po s0 ids = Inr plan2" and "po_reachable once' s" and "commit_po plan1 X ls now a s = (Inr n, s')"
    and "i \<in> set (map (or_id \<circ> fst) (cp_orders plan1))" and "i \<in> set (map (or_id \<circ> fst) (cp_orders plan2))"
  shows "commit_po plan2 Y ls' now' b s' = (Inl NoOrders, s')"
proof -
  note rows = committed_rows [OF assms(4)]
  have "distinct (map or_id (ts_orders s'))" unfolding rows(1) by (rule store_okD(3) [OF po_reachable_ok [OF assms(3)]])
  then have "count_where (pending_in (map (or_id \<circ> fst) (cp_orders plan2))) (ts_orders s') < length (map (or_id \<circ> fst) (cp_orders plan2))"
    by (rule count_short [OF _ plan_orders_distinct [OF assms(2) store_okD(3) [OF po_reachable_ok [OF assms(1)]]] assms(6)])
      (use rows(2) assms(5) in \<open>auto simp: pending_in_def\<close>)
  then show ?thesis by (simp add: commit_po_def Let_def)
qed

lemma demo_contested: "''q'' \<in> set (map (or_id \<circ> fst) (cp_orders demo_plan))"
  by code_simp

theorem queue_row_claimed_once_witness:
  "commit_po demo_plan ''Y'' [''y1''] 9 None demo_ordered = (Inl NoOrders, demo_ordered)"
  by (rule queue_row_claimed_once [OF demo_queue_reachable demo_planned demo_queue_reachable demo_committed demo_contested demo_contested])

text \<open>C7. A draft is sent once: after a caller has moved it out of draft, and whatever else happens then, every later
  claim on the same order is refused before any email leaves, until an email that fails puts the order back to draft.\<close>

theorem draft_sent_once:
  assumes "po_reachable once s" and "send_claim t s = (Inr (), s1)"
    and "(\<lambda>a b. po_step once a b \<and> \<not> bounced (po_id (tk_po t)) a b)\<^sup>*\<^sup>* s1 s2" and "po_id (tk_po t2) = po_id (tk_po t)"
  shows "send_claim t2 s2 = (Inl NotSendable, s2)"
proof -
  let ?X = "po_id (tk_po t)"
  have ok1: "store_ok once s1" using claim_any_ok [OF po_reachable_ok [OF assms(1)], of t] assms(2) by simp
  have "count_where (\<lambda>p. po_id p = ?X \<and> po_status p = Draft \<and> po_deletedAt p = None) (ts_pos s) \<noteq> 0"
    using assms(2) by (auto simp: send_claim_def Let_def split: if_splits)
  then obtain p where p: "p \<in> set (ts_pos s)" "po_id p = ?X \<and> po_status p = Draft \<and> po_deletedAt p = None"
    by (auto simp: count_where_def filter_empty_conv)
  let ?p1 = "p\<lparr>po_status := Sent, po_sentAt := Some (tk_sentAt t), po_expectedAt := tk_expectedAt t\<rparr>"
  have s1: "ts_pos s1 = update_where (\<lambda>p. po_id p = ?X \<and> po_status p = Draft \<and> po_deletedAt p = None)
      (\<lambda>p. p\<lparr>po_status := Sent, po_sentAt := Some (tk_sentAt t), po_expectedAt := tk_expectedAt t\<rparr>) (ts_pos s)"
    using assms(2) by (auto simp: send_claim_def Let_def split: if_splits)
  have "?p1 \<in> set (ts_pos s1)" unfolding s1 set_update_where using p by (intro image_eqI [of _ _ p]) simp_all
  from stays_out_of_draft [OF assms(3) ok1 this] p(2) obtain r where
    r: "store_ok once s2" "r \<in> set (ts_pos s2)" "po_id r = ?X" "po_status r \<noteq> Draft" by auto
  show ?thesis using r assms(4) po_unique [OF r(1) _ r(2)] by (intro claim_refused) auto
qed

theorem draft_sent_once_witness: "send_claim demo_ticket demo_partial = (Inl NotSendable, demo_partial)"
proof (rule draft_sent_once [OF demo_reachable demo_claimed])
  have "\<not> bounced (po_id (tk_po demo_ticket)) demo_sent demo_partial"
  proof
    assume "bounced (po_id (tk_po demo_ticket)) demo_sent demo_partial"
    then obtain t where "po_id (tk_po t) = ''X''" "demo_partial = snd (send_settle t EmailThrew demo_sent)"
      by (auto simp: bounced_def demo_ticket_def demo_po_def)
    moreover have "po_id (tk_po t) = ''X'' \<Longrightarrow> map po_status (ts_pos (snd (send_settle t EmailThrew demo_sent))) =
        map (\<lambda>p. if po_id p = ''X'' \<and> po_status p = Sent then Draft else po_status p) (ts_pos demo_sent)"
      for t by (simp add: send_settle_def Let_def update_where_def comp_def)
    moreover have "map (\<lambda>p. if po_id p = ''X'' \<and> po_status p = Sent then Draft else po_status p) (ts_pos demo_sent) = [Draft]" by code_simp
    moreover have "map po_status (ts_pos demo_partial) = [PartiallyReceived]" by code_simp
    ultimately show False by (metis po_status.distinct(1) po_status.distinct(3) po_status.distinct(5) list.inject)
  qed
  with demo_receive_step show "(\<lambda>a b. po_step True a b \<and> \<not> bounced (po_id (tk_po demo_ticket)) a b)\<^sup>*\<^sup>* demo_sent demo_partial"
    by (intro r_into_rtranclp) simp
qed simp

section \<open>Refusals\<close>

text \<open>C10. An operation that refuses leaves the workspace exactly as it met it: creating from the queue or by hand,
  changing a quantity, removing a line, cancelling, receiving and reversing either answer with an error and the store
  they were given, or succeed.\<close>

theorem refused_changes_nothing:
  "((\<exists>e. createPoFromOrders ids X ls now a s = (Inl e, s)) \<or> (\<exists>r s'. createPoFromOrders ids X ls now a s = (Inr r, s'))) \<and>
   ((\<exists>e. createManualPo supp items X ls rs now a s = (Inl e, s)) \<or> (\<exists>r s'. createManualPo supp items X ls rs now a s = (Inr r, s'))) \<and>
   ((\<exists>e. setPoLineQuantity X lid q s = (Inl e, s)) \<or> (\<exists>r s'. setPoLineQuantity X lid q s = (Inr r, s'))) \<and>
   ((\<exists>e. removePoLine X lid s = (Inl e, s)) \<or> (\<exists>r s'. removePoLine X lid s = (Inr r, s'))) \<and>
   ((\<exists>e. cancelPo X now a s = (Inl e, s)) \<or> (\<exists>r s'. cancelPo X now a s = (Inr r, s'))) \<and>
   ((\<exists>e. receivePoLines X es loc now s = (Inl e, s)) \<or> (\<exists>r s'. receivePoLines X es loc now s = (Inr r, s'))) \<and>
   ((\<exists>e. unreceivePoLines X es loc now s = (Inl e, s)) \<or> (\<exists>r s'. unreceivePoLines X es loc now s = (Inr r, s')))"
proof (intro conjI, goal_cases)
  case 1 show ?case by (auto simp: createPoFromOrders_def commit_po_def Let_def split: sum.split)
next
  case 2 show ?case by (auto simp: createManualPo_def commit_manual_def Let_def split: sum.split)
next
  case 3 show ?case by (auto simp: setPoLineQuantity_def qty_write_def Let_def split: sum.split prod.split)
next
  case 4 show ?case by (auto simp: removePoLine_def remove_write_def Let_def split: sum.split prod.split)
next
  case 5 show ?case by (auto simp: cancelPo_def split: option.split)
next
  case 6 show ?case by (cases rule: receivePoLines_cases [of X es loc now s]; simp)
next
  case 7 show ?case by (cases rule: unreceivePoLines_cases [of X es loc now s]; simp)
qed

text \<open>C11. When the email to the supplier fails, the order is a draft again and the caller hears of it: no queue
  row moved, and every order row is as before the attempt but for the expected date of this one, which is cleared.\<close>

theorem failed_email_returns_draft:
  assumes "po_reachable once s" and "send_read s X now = Inr t"
  shows "\<exists>s'. sendPoToSupplier X now EmailThrew s = (Inl EmailFailed, s') \<and> ts_orders s' = ts_orders s \<and>
    ts_pos s' = map (\<lambda>p. if po_id p = X then p\<lparr>po_expectedAt := None\<rparr> else p) (ts_pos s)"
proof -
  note ok = po_reachable_ok [OF assms(1)] and t = send_read_Some [OF assms(2)]
  have d: "po_status p = Draft \<and> po_sentAt p = None \<and> po_deletedAt p = None" if "p \<in> set (ts_pos s)" "po_id p = X" for p
    using t po_unique [OF ok that(1), of "tk_po t"] that(2) store_okD(5) [OF ok that(1)] by (auto simp: po_wf_def status_ok_def)
  have "count_where (\<lambda>p. po_id p = po_id (tk_po t) \<and> po_status p = Draft \<and> po_deletedAt p = None) (ts_pos s) \<noteq> 0"
    by (rule count_where_pos [of "tk_po t"]) (use t in simp_all)
  then show ?thesis
    using t d by (auto simp: sendPoToSupplier_def assms(2) send_claim_def send_settle_def Let_def update_where_def)
qed

theorem failed_email_returns_draft_witness:
  "\<exists>s'. sendPoToSupplier ''X'' 1 EmailThrew demo_draft = (Inl EmailFailed, s') \<and> ts_orders s' = ts_orders demo_draft"
  using failed_email_returns_draft [OF demo_reachable demo_send_read] by blast

section \<open>Interleavings and batches the code does not guard against\<close>

lemma demo_reads: "edit_read demo_draft ''X'' ''x1'' = Inr (demo_po, po_lines demo_po ! 0)"
  "edit_read demo_draft ''X'' ''x2'' = Inr (demo_po, po_lines demo_po ! 1)"
  by code_simp+

text \<open>C12. A batch that names one line several times is judged entry by entry, against the line as it stood before the
  batch: on every order that can be received, \<open>k\<close> entries of \<open>n\<close> units for one line are accepted exactly when one entry of
  \<open>n\<close> fits its room, and then book \<open>k\<close> times \<open>n\<close>, also past what was ordered; the same units in one entry are refused.\<close>

theorem duplicate_entries_over_receive:
  assumes "po_reachable once s" and "find_po s X = Some p" and "find_location s loc = Some w"
    and "po_status p = Sent \<or> po_status p = PartiallyReceived" and "l \<in> set (po_lines p)" and "0 < n" and "0 < k"
  shows "if n \<le> pl_quantity l - pl_receivedQty l
    then \<exists>r s'. receivePoLines X (replicate k (entry_of l n)) loc now s = (Inr r, s') \<and>
      (\<exists>q \<in> set (ts_pos s'). po_id q = X \<and> (\<exists>m \<in> set (po_lines q). pl_id m = pl_id l \<and> pl_quantity m = pl_quantity l \<and>
         pl_receivedQty m = pl_receivedQty l + int k * n)) \<and>
      (pl_quantity l < pl_receivedQty l + int k * n \<longrightarrow>
         receivePoLines X [entry_of l (int k * n)] loc now s = (Inl RecvBadQty, s))
    else receivePoLines X (replicate k (entry_of l n)) loc now s = (Inl RecvBadQty, s)"
proof -
  note ok = po_reachable_ok [OF assms(1)] and p = find_po_Some [OF assms(2)]
  note many = receive_repeated [OF ok assms(2-7), of now]
  have one: "receivePoLines X [entry_of l (int k * n)] loc now s = (Inl RecvBadQty, s)"
    if "pl_quantity l < pl_receivedQty l + int k * n"
    using receive_repeated [OF ok assms(2-5), of "int k * n" 1 now] assms(6,7) that by simp
  show ?thesis
  proof (cases "n \<le> pl_quantity l - pl_receivedQty l")
    case True
    let ?b = "receive_body p (lo_shopifyLocationId w \<noteq> None) (replicate k (entry_of l n)) loc now s"
    have "receivePoLines X (replicate k (entry_of l n)) loc now s = (Inr (fst ?b), snd ?b)"
      using many True by (simp add: case_prod_beta Let_def)
    moreover have "\<exists>q \<in> set (ts_pos (snd ?b)). po_id q = X \<and> (\<exists>m \<in> set (po_lines q). pl_id m = pl_id l \<and>
        pl_quantity m = pl_quantity l \<and> pl_receivedQty m = pl_receivedQty l + int k * n)"
      using repeated_received [OF ok conjunct1 [OF p] assms(5,6)] p by metis
    ultimately show ?thesis using True one by (simp only: if_True) blast
  qed (use many in simp)
qed

theorem duplicate_entries_over_receive_witness:
  "\<exists>r s'. receivePoLines ''X'' (replicate 2 (entry_of (po_lines demo_po ! 0) 5)) ''W'' 2 demo_sent = (Inr r, s') \<and>
    (\<exists>q \<in> set (ts_pos s'). \<exists>m \<in> set (po_lines q). pl_quantity m = 5 \<and> pl_receivedQty m = 10)"
proof -
  have p: "find_po demo_sent ''X'' = Some (hd (ts_pos demo_sent))" "find_location demo_sent ''W'' = Some (hd (ts_locations demo_sent))"
    "po_status (hd (ts_pos demo_sent)) = Sent" "po_lines (hd (ts_pos demo_sent)) = po_lines demo_po" by code_simp+
  have l: "po_lines demo_po ! 0 = demo_line ''x1'' ''A'' 5 10 0 None" "po_lines demo_po ! 0 \<in> set (po_lines (hd (ts_pos demo_sent)))"
    unfolding p(4) by (simp_all add: demo_po_def)
  have q: "pl_quantity (po_lines demo_po ! 0) = 5" "pl_receivedQty (po_lines demo_po ! 0) = 0" unfolding l(1) by (simp_all add: demo_line_def)
  from duplicate_entries_over_receive [OF demo_sent_reachable p(1,2) disjI1 [OF p(3)] l(2), of 5 2 2]
  show ?thesis unfolding q by (simp, blast)
qed

text \<open>C13. Two quantity edits of different lines of one draft whose reads both precede their writes both succeed; both lines
  are changed, but the subtotal left behind is the one the second writer worked out from the lines it had read, so it
  misses the first edit: it differs from the sum of the lines by the whole of what the first edit changed.\<close>

theorem interleaved_edits_stale_subtotal:
  assumes "po_reachable once s" and "edit_read s X i = Inr (p, a)" and "edit_read s X j = Inr (p, b)" and "i \<noteq> j"
    and "1 \<le> qa" and "qty_write (p, a) qa s = (r1, s1)" and "qty_write (p, b) qb s1 = (r2, s2)"
  shows "(\<exists>x. r1 = Inr x) \<and> (\<exists>y. r2 = Inr y) \<and> (\<exists>q \<in> set (ts_pos s2). po_id q = X \<and>
    po_lines q = with_qty j qb (with_qty i qa (po_lines p)) \<and>
    po_subtotalKes q = sum_list (map pl_lineTotalKes (with_qty j qb (po_lines p))) \<and>
    sum_list (map pl_lineTotalKes (po_lines q)) - po_subtotalKes q = of_int (qa - pl_quantity a) * pl_unitCostKes a)"
proof -
  note ok = po_reachable_ok [OF assms(1)] and e = edit_read_Some [OF assms(2)] and f = edit_read_Some [OF assms(3)]
  have wf: "po_wf once p" by (rule store_okD(5) [OF ok e(1)])
  have ids: "distinct (map pl_id (po_lines p))" and tot: "\<And>x. x \<in> set (po_lines p) \<Longrightarrow> pl_lineTotalKes x = of_int (pl_quantity x) * pl_unitCostKes x"
    using wf by (auto simp: po_wf_def line_ok_def)
  let ?p1 = "repriced p (with_qty i qa (po_lines p))"
  have s1: "r1 = Inr (length (po_lines p), po_subtotalKes ?p1)" "ts_pos s1 = put_po ?p1 (ts_pos s)"
    using qty_write_eq [OF ok assms(2), of qa] assms(6) by (auto simp: log_def)
  have "snd (setPoLineQuantity X i (of_int qa) s) = s1" using assms(2,5,6) by (simp add: setPoLineQuantity_def is_integer_def)
  then have ok1: "store_ok once s1" using set_qty_ok [OF ok, of X i "of_int qa"] by simp
  have in1: "?p1 \<in> set (ts_pos s1)" unfolding s1(2) using set_put_po [OF ok e(1), of ?p1] by simp
  have b1: "b \<in> set (po_lines ?p1)" using with_qty_frame(3) [OF f(4), of i qa] f(5) assms(4) by simp
  let ?sub = "subtotal (map (\<lambda>l. of_int (pl_quantity l) * pl_unitCostKes l) (with_qty j qb (po_lines p)))"
  let ?p2 = "?p1\<lparr>po_lines := with_qty j qb (po_lines ?p1), po_subtotalKes := ?sub\<rparr>"
  have s2: "\<exists>y. r2 = Inr y" "ts_pos s2 = put_po ?p2 (ts_pos s1)"
    using stale_qty_write [OF ok1 in1 _ _ b1, of p qb] e(3) f(5) assms(7) by (auto simp: log_def Let_def)
  have in2: "?p2 \<in> set (ts_pos s2)" unfolding s2(2) using set_put_po [OF ok1 in1, of ?p2] by simp
  have sub: "?sub = sum_list (map pl_lineTotalKes (with_qty j qb (po_lines p)))"
    by (rule lines_subtotal [symmetric]) (rule with_qty_frame(2) [OF tot])
  have T: "sum_list (map pl_lineTotalKes (with_qty j qb (with_qty i qa (po_lines p)))) =
      sum_list (map pl_lineTotalKes (with_qty j qb (po_lines p))) + of_int (qa - pl_quantity a) * pl_unitCostKes a"
    using with_qty_total [OF ids e(4) tot, of qa] with_qty_total [OF ids f(4) tot, of qb]
      with_qty_total [of "with_qty i qa (po_lines p)" b qb] b1 with_qty_frame(1) [of i qa "po_lines p"] ids
      with_qty_frame(2) [OF tot, where i = i and q = qa] e(5) f(5) by simp
  show ?thesis using s1(1) s2(1) e(2) sub T by (intro conjI bexI [OF _ in2]) (simp_all add: algebra_simps)
qed

theorem interleaved_edits_stale_subtotal_witness:
  "\<exists>q \<in> set (ts_pos (snd (qty_write (demo_po, po_lines demo_po ! 1) 6 (snd (qty_write (demo_po, po_lines demo_po ! 0) 10 demo_draft))))).
     sum_list (map pl_lineTotalKes (po_lines q)) - po_subtotalKes q = 50"
proof -
  let ?r = "qty_write (demo_po, po_lines demo_po ! 0) 10 demo_draft"
  have l: "po_lines demo_po ! 0 = demo_line ''x1'' ''A'' 5 10 0 None" by (simp add: demo_po_def)
  have "pl_quantity (po_lines demo_po ! 0) = 5" "pl_unitCostKes (po_lines demo_po ! 0) = 10" unfolding l by (simp_all add: demo_line_def)
  moreover have w: "?r = (fst ?r, snd ?r)" "qty_write (demo_po, po_lines demo_po ! 1) 6 (snd ?r) =
      (fst (qty_write (demo_po, po_lines demo_po ! 1) 6 (snd ?r)), snd (qty_write (demo_po, po_lines demo_po ! 1) 6 (snd ?r)))" by simp_all
  ultimately show ?thesis using interleaved_edits_stale_subtotal [OF demo_reachable demo_reads _ _ w] by auto
qed

text \<open>Two removals of the two lines of one draft whose reads both precede their writes both pass the guard that
  keeps the last line, and the draft is left without lines.\<close>

theorem interleaved_removals_empty_draft:
  "\<exists>s r1 r2 a b s1 s2. po_reachable True s \<and> edit_read s ''X'' ''x1'' = Inr r1 \<and> edit_read s ''X'' ''x2'' = Inr r2 \<and>
     length (po_lines (fst r1)) \<noteq> 1 \<and> length (po_lines (fst r2)) \<noteq> 1 \<and>
     remove_write r1 s = (Inr a, s1) \<and> remove_write r2 s1 = (Inr b, s2) \<and> list_ex (\<lambda>p. po_lines p = []) (ts_pos s2)"
proof -
  let ?r1 = "(demo_po, po_lines demo_po ! 0)" and ?r2 = "(demo_po, po_lines demo_po ! 1)"
  let ?s1 = "snd (remove_write ?r1 demo_draft)"
  let ?s2 = "snd (remove_write ?r2 ?s1)"
  have "fst (remove_write ?r1 demo_draft) = Inr (1, 15)" and "fst (remove_write ?r2 ?s1) = Inr (1, 50)" by code_simp+
  then have "remove_write ?r1 demo_draft = (Inr (1, 15), ?s1)" "remove_write ?r2 ?s1 = (Inr (1, 50), ?s2)"
    by (simp_all only: prod_eq_iff fst_conv snd_conv)
  moreover have "list_ex (\<lambda>p. length (po_lines p) = 0) (ts_pos ?s2)" by code_simp
  moreover have "length (po_lines demo_po) \<noteq> 1" by code_simp
  ultimately show ?thesis using demo_reachable demo_reads unfolding length_0_conv by (metis fst_conv)
qed

end
