(* ===== verification/Promo.thy ===== *)
theory Promo
  imports Layered
begin

text \<open>
  Demand that is not the run rate: \<^verbatim>\<open>promo-windows.ts\<close> (which days a promotion covers),
  \<^verbatim>\<open>spike-detect.ts\<close> (days that look like one nobody logged), \<^verbatim>\<open>owner-prior.ts\<close> (what the
  owner told the forecast) and \<^verbatim>\<open>cold-start.ts\<close> (borrowing from an established product), all
  in \<^verbatim>\<open>packages/forecast/src\<close>.
\<close>

section \<open>Promotion windows\<close>

record promo_window =
  pr_start :: date
  pr_end :: date
  pr_scope :: string
  pr_scopeValue :: "string option"

record product_match =
  pm_sku :: string
  pm_productType :: "string option"
  pm_vendor :: "string option"

definition promoMatchesProduct :: "promo_window \<Rightarrow> product_match \<Rightarrow> bool" where
  "promoMatchesProduct p product \<longleftrightarrow>
     pr_scope p = ''all'' \<or>
     (pr_scope p = ''sku'' \<and> pr_scopeValue p = Some (pm_sku product)) \<or>
     (pr_scope p = ''category'' \<and> nvl (pr_scopeValue p) [] \<noteq> [] \<and>
        js_upper (nvl (pr_scopeValue p) []) = js_upper (nvl (pm_productType product) [])) \<or>
     (pr_scope p = ''brand'' \<and> nvl (pr_scopeValue p) [] \<noteq> [] \<and>
        js_upper (nvl (pr_scopeValue p) []) = js_upper (nvl (pm_vendor product) []))"

type_synonym window = "date \<times> date"

definition windowsForProduct :: "promo_window list \<Rightarrow> product_match \<Rightarrow> window list" where
  "windowsForProduct promos product = map (\<lambda>p. (pr_start p, pr_end p)) (filter (\<lambda>p. promoMatchesProduct p product) promos)"

definition in_window :: "window list \<Rightarrow> date \<Rightarrow> bool" where
  "in_window windows d \<longleftrightarrow> (\<exists>w \<in> set windows. fst w \<le> d \<and> d \<le> snd w)"

definition excludePromoDays :: "sales_point list \<Rightarrow> window list \<Rightarrow> sales_point list" where
  "excludePromoDays history windows =
    (if windows = [] then history else filter (\<lambda>h. \<not> in_window windows (sp_date h)) history)"

definition MAX_PROMO_WINDOW_DAYS :: nat where "MAX_PROMO_WINDOW_DAYS = 366"

text \<open>The days the inner loop visits: from the start, while not past the end, at most the cap.\<close>

definition window_days :: "window \<Rightarrow> date list" where
  "window_days w =
    takeWhile (\<lambda>d. d \<le> dayKeyOf (snd w)) (map (\<lambda>i. dayKeyOf (fst w) + int i * DAY_MS) [0..<MAX_PROMO_WINDOW_DAYS])"

definition push_day :: "date option \<Rightarrow> date option \<Rightarrow> date \<Rightarrow> date list \<Rightarrow> date list" where
  "push_day since until d out =
    (if (case since of None \<Rightarrow> False | Some s \<Rightarrow> d < dayKeyOf s) \<or>
        (case until of None \<Rightarrow> False | Some u \<Rightarrow> dayKeyOf u < d) \<or> d \<in> set out then out else out @ [d])"

definition expandPromoWindowsToDays :: "window list \<Rightarrow> date option \<Rightarrow> date option \<Rightarrow> date list" where
  "expandPromoWindowsToDays windows since until =
     fold (\<lambda>w. fold (push_day since until) (window_days w)) windows []"

section \<open>Spikes\<close>

record spike =
  sk_date :: date
  sk_quantity :: real
  sk_baseline :: real
  sk_multiple :: real

definition SPIKE_MULTIPLE :: real where "SPIKE_MULTIPLE = 3"
definition SPIKE_MIN_UNITS :: real where "SPIKE_MIN_UNITS = 8"
definition BASELINE_WINDOW_DAYS :: int where "BASELINE_WINDOW_DAYS = 60"

definition spike_baseline :: "sales_point list \<Rightarrow> date \<Rightarrow> real" where
  "spike_baseline history asOf =
     median (map sp_quantity (filter (\<lambda>h. days_before asOf BASELINE_WINDOW_DAYS \<le> sp_date h \<and>
       sp_date h \<le> asOf \<and> 0 < sp_quantity h) history))"

definition is_spike :: "window list \<Rightarrow> date \<Rightarrow> int \<Rightarrow> real \<Rightarrow> sales_point \<Rightarrow> bool" where
  "is_spike windows asOf lookbackDays baseline h \<longleftrightarrow>
     \<not> (sp_date h < days_before asOf lookbackDays \<or> asOf < sp_date h) \<and>
     \<not> sp_quantity h < SPIKE_MIN_UNITS \<and> \<not> sp_quantity h < baseline * SPIKE_MULTIPLE \<and>
     \<not> in_window windows (sp_date h)"

definition spike_of :: "real \<Rightarrow> sales_point \<Rightarrow> spike" where
  "spike_of baseline h = \<lparr>sk_date = sp_date h, sk_quantity = sp_quantity h, sk_baseline = baseline,
     sk_multiple = round1 (sp_quantity h / baseline)\<rparr>"

definition by_surprise :: "spike \<Rightarrow> spike \<Rightarrow> bool" where
  "by_surprise = by_desc sk_multiple (\<lambda>_ _. True)"

definition detectSpikes :: "sales_point list \<Rightarrow> window list \<Rightarrow> date \<Rightarrow> int \<Rightarrow> spike list" where
  "detectSpikes history windows asOf lookbackDays =
    (let baseline = spike_baseline history asOf
     in if history = [] then [] else if baseline \<le> 0 then []
        else sort_by by_surprise (map (spike_of baseline) (filter (is_spike windows asOf lookbackDays baseline) history)))"

section \<open>Owner priors\<close>

datatype prior_scope = ProductScope | BrandScope

record owner_prior =
  op_scope :: prior_scope
  op_scopeValue :: string
  op_expectedUnits :: "real option"
  op_multiplier :: "real option"
  op_proxyProductId :: "string option"
  op_weeks :: real
  op_createdAt :: date
  op_revokedAt :: "date option"

definition OWNER_PRIOR_MAX_MULTIPLIER :: real where "OWNER_PRIOR_MAX_MULTIPLIER = 4"

definition norm_text :: "string option \<Rightarrow> string" where
  "norm_text v = js_lower (js_trim (nvl v []))"

definition prior_end :: "owner_prior \<Rightarrow> date" where
  "prior_end p = op_createdAt p + max 0 (js_round (op_weeks p)) * 7 * DAY_MS"

definition priorActive :: "owner_prior \<Rightarrow> date \<Rightarrow> bool" where
  "priorActive p asOf = (if op_revokedAt p \<noteq> None then False else asOf \<le> prior_end p)"

definition priorMatchesProduct :: "owner_prior \<Rightarrow> string \<Rightarrow> string option \<Rightarrow> bool" where
  "priorMatchesProduct p productId vendor =
    (if op_scope p = ProductScope then op_scopeValue p = productId
     else norm_text vendor \<noteq> [] \<and> norm_text (Some (op_scopeValue p)) = norm_text vendor)"

definition prior_beats :: "owner_prior \<Rightarrow> owner_prior \<Rightarrow> bool" where
  "prior_beats p best \<longleftrightarrow> (op_scope p = ProductScope \<and> op_scope best \<noteq> ProductScope) \<or>
     (op_scope p = op_scope best \<and> op_createdAt best < op_createdAt p)"

definition selectPriorForProduct :: "owner_prior list \<Rightarrow> string \<Rightarrow> string option \<Rightarrow> date \<Rightarrow> owner_prior option" where
  "selectPriorForProduct priors productId vendor asOf =
    (case filter (\<lambda>p. priorActive p asOf \<and> priorMatchesProduct p productId vendor) priors of
       [] \<Rightarrow> None | m # ms \<Rightarrow> Some (reduce_best prior_beats m ms))"

definition applyOwnerPrior :: "real \<Rightarrow> owner_prior \<Rightarrow> real" where
  "applyOwnerPrior base30d p =
    (let v = nvl (op_expectedUnits p) base30d;
         w = (case op_multiplier p of None \<Rightarrow> v | Some m \<Rightarrow> v * min m OWNER_PRIOR_MAX_MULTIPLIER)
     in max 0 w)"

section \<open>Cold start\<close>

record proxy_candidate =
  px_productId :: string
  px_vendor :: "string option"
  px_customCategory :: "string option"
  px_historyDays :: real
  px_dailyRate :: real
  px_priceKes :: "real option"

record proxy_target =
  pt_productId :: string
  pt_vendor :: "string option"
  pt_customCategory :: "string option"
  pt_priceKes :: "real option"

definition PROXY_MIN_HISTORY_DAYS :: int where "PROXY_MIN_HISTORY_DAYS = NEW_PRODUCT_DAYS"
definition BORROW_SCALE_MIN :: real where "BORROW_SCALE_MIN = 0.5"
definition BORROW_SCALE_MAX :: real where "BORROW_SCALE_MAX = 2"

definition same_text :: "string option \<Rightarrow> string option \<Rightarrow> bool" where
  "same_text a b \<longleftrightarrow> norm_text a \<noteq> [] \<and> norm_text a = norm_text b"

definition isEstablishedProxy :: "proxy_candidate \<Rightarrow> bool" where
  "isEstablishedProxy c \<longleftrightarrow> of_int PROXY_MIN_HISTORY_DAYS \<le> px_historyDays c \<and> 0 < px_dailyRate c"

definition steadier :: "proxy_candidate \<Rightarrow> proxy_candidate \<Rightarrow> bool" where
  "steadier c best \<longleftrightarrow> px_historyDays best < px_historyDays c"

definition eligible_proxies :: "proxy_target \<Rightarrow> proxy_candidate list \<Rightarrow> proxy_candidate list" where
  "eligible_proxies target candidates =
     filter (\<lambda>c. px_productId c \<noteq> pt_productId target \<and> isEstablishedProxy c) candidates"

definition selectProxy :: "proxy_target \<Rightarrow> proxy_candidate list \<Rightarrow> proxy_candidate option" where
  "selectProxy target candidates =
    (let eligible = eligible_proxies target candidates;
         brandMatches = filter (\<lambda>c. same_text (px_vendor c) (pt_vendor target)) eligible;
         categoryMatches = filter (\<lambda>c. same_text (px_customCategory c) (pt_customCategory target)) eligible
     in case (if brandMatches \<noteq> [] then brandMatches else categoryMatches) of
          [] \<Rightarrow> None | c # cs \<Rightarrow> Some (reduce_best steadier c cs))"

definition borrowedDailyRate :: "real \<Rightarrow> proxy_target \<Rightarrow> proxy_candidate \<Rightarrow> real" where
  "borrowedDailyRate proxyRate target proxy =
    (let tp = nvl (pt_priceKes target) 0; pp = nvl (px_priceKes proxy) 0
     in if 0 < tp \<and> 0 < pp then proxyRate * min BORROW_SCALE_MAX (max BORROW_SCALE_MIN (pp / tp)) else proxyRate)"

definition borrowedForecast30d :: "proxy_candidate \<Rightarrow> proxy_target \<Rightarrow> real" where
  "borrowedForecast30d proxy target = borrowedDailyRate (px_dailyRate proxy) target proxy * 30"

section \<open>Lemmas\<close>

text \<open>The spikes and the two choices keep their contracts.\<close>

interpretation surprise: comparator by_surprise
  unfolding by_surprise_def by (rule by_desc_comparator) (unfold_locales; simp)

interpretation prior: preference prior_beats
  by unfold_locales (auto simp: prior_beats_def)

interpretation proxy: preference steadier
  by unfold_locales (auto simp: steadier_def)

lemma push_day_set:
  "set (push_day since until d out) = (if (case since of None \<Rightarrow> True | Some s \<Rightarrow> dayKeyOf s \<le> d) \<and>
     (case until of None \<Rightarrow> True | Some u \<Rightarrow> d \<le> dayKeyOf u) then insert d (set out) else set out)"
  by (auto simp: push_day_def split: option.splits)

lemma push_day_distinct: "distinct out \<Longrightarrow> distinct (push_day since until d out)"
  by (simp add: push_day_def)

definition day_clamped :: "date option \<Rightarrow> date option \<Rightarrow> date \<Rightarrow> bool" where
  "day_clamped since until d \<longleftrightarrow> (case since of None \<Rightarrow> True | Some s \<Rightarrow> dayKeyOf s \<le> d) \<and>
     (case until of None \<Rightarrow> True | Some u \<Rightarrow> d \<le> dayKeyOf u)"

lemma push_days:
  "set (fold (push_day since until) ds out) = set out \<union> {d \<in> set ds. day_clamped since until d} \<and>
   (distinct out \<longrightarrow> distinct (fold (push_day since until) ds out))"
  by (induction ds arbitrary: out) (auto simp: push_day_set push_day_distinct day_clamped_def)

lemma push_windows:
  "set (fold (\<lambda>w. fold (push_day since until) (window_days w)) ws out) =
     set out \<union> {d \<in> (\<Union>w \<in> set ws. set (window_days w)). day_clamped since until d} \<and>
   (distinct out \<longrightarrow> distinct (fold (\<lambda>w. fold (push_day since until) (window_days w)) ws out))"
proof (induction ws arbitrary: out)
  case (Cons w ws)
  show ?case using Cons [of "fold (push_day since until) (window_days w) out"]
      push_days [of since until "window_days w" out] by auto
qed simp

text \<open>The days of a window are those between its two day keys, the first 366 of them.\<close>

lemma window_days_set:
  "d \<in> set (window_days w) \<longleftrightarrow> DAY_MS dvd d \<and> dayKeyOf (fst w) \<le> d \<and> d \<le> dayKeyOf (snd w) \<and>
     d < dayKeyOf (fst w) + 366 * DAY_MS"
proof -
  let ?s = "dayKeyOf (fst w)" and ?e = "dayKeyOf (snd w)"
  let ?xs = "map (\<lambda>i. ?s + int i * DAY_MS) [0..<366]"
  have sx: "sorted ?xs" by (simp add: sorted_map sorted_wrt_mono_rel [of _ "(\<le>)"])
  have tw: "set (takeWhile (\<lambda>d. d \<le> ?e) xs) = {d \<in> set xs. d \<le> ?e}" if "sorted xs" for xs
    using that by (induction xs) auto
  have "d \<in> set ?xs \<longleftrightarrow> DAY_MS dvd d \<and> ?s \<le> d \<and> d < ?s + 366 * DAY_MS"
  proof
    assume "d \<in> set ?xs"
    then obtain i where i: "i < 366" "d = ?s + int i * DAY_MS" by auto
    then show "DAY_MS dvd d \<and> ?s \<le> d \<and> d < ?s + 366 * DAY_MS" by simp
  next
    assume a: "DAY_MS dvd d \<and> ?s \<le> d \<and> d < ?s + 366 * DAY_MS"
    then have "DAY_MS dvd d - ?s" by simp
    then obtain k where k: "d - ?s = DAY_MS * k" by blast
    with a have "0 \<le> k" "k < 366" by linarith+
    with k show "d \<in> set ?xs" by (auto simp: image_iff intro!: bexI [of _ "nat k"])
  qed
  then show ?thesis unfolding window_days_def MAX_PROMO_WINDOW_DAYS_def tw [OF sx] by auto
qed

lemma expand_days:
  "set (expandPromoWindowsToDays ws since until) =
     {d. (\<exists>w \<in> set ws. DAY_MS dvd d \<and> dayKeyOf (fst w) \<le> d \<and> d \<le> dayKeyOf (snd w) \<and> d < dayKeyOf (fst w) + 366 * DAY_MS) \<and>
       day_clamped since until d}"
  "distinct (expandPromoWindowsToDays ws since until)"
  using push_windows [of since until ws "[]"] unfolding expandPromoWindowsToDays_def
  by (auto simp: window_days_set)

lemma detected_spikes:
  "set (detectSpikes history windows asOf lookback) =
    (if 0 < spike_baseline history asOf
     then spike_of (spike_baseline history asOf) ` {h \<in> set history. is_spike windows asOf lookback (spike_baseline history asOf) h}
     else {})"
proof (cases "history = []")
  case True then show ?thesis by (simp add: detectSpikes_def)
qed (auto simp: detectSpikes_def Let_def)

lemma selected_prior:
  assumes "selectPriorForProduct priors i v asOf = Some p"
  shows "p \<in> set priors" "priorActive p asOf" "priorMatchesProduct p i v"
    "\<And>q. q \<in> set priors \<Longrightarrow> priorActive q asOf \<Longrightarrow> priorMatchesProduct q i v \<Longrightarrow> \<not> prior_beats q p"
proof -
  let ?m = "filter (\<lambda>p. priorActive p asOf \<and> priorMatchesProduct p i v) priors"
  obtain m ms where m: "?m = m # ms" "p = reduce_best prior_beats m ms"
    using assms by (auto simp: selectPriorForProduct_def split: list.splits)
  have sm: "set (m # ms) = {q \<in> set priors. priorActive q asOf \<and> priorMatchesProduct q i v}"
    unfolding m(1) [symmetric] by auto
  have "p \<in> set (m # ms)" unfolding m(2) by (rule reduce_best_in)
  then show "p \<in> set priors" "priorActive p asOf" "priorMatchesProduct p i v" unfolding sm by auto
  fix q assume "q \<in> set priors" "priorActive q asOf" "priorMatchesProduct q i v"
  then have "q \<in> set (m # ms)" unfolding sm by simp
  then show "\<not> prior_beats q p" unfolding m(2) by (rule prior.reduce_best_unbeaten)
qed

lemma selected_proxy:
  assumes "selectProxy target cs = Some c"
  shows "c \<in> set cs" "isEstablishedProxy c" "px_productId c \<noteq> pt_productId target"
    "same_text (px_vendor c) (pt_vendor target) \<or> same_text (px_customCategory c) (pt_customCategory target)"
    "\<And>d. d \<in> set (eligible_proxies target cs) \<Longrightarrow> same_text (px_vendor d) (pt_vendor target) \<Longrightarrow>
      same_text (px_vendor c) (pt_vendor target) \<and> px_historyDays d \<le> px_historyDays c"
proof -
  let ?e = "eligible_proxies target cs"
  let ?b = "filter (\<lambda>c. same_text (px_vendor c) (pt_vendor target)) ?e"
  let ?k = "filter (\<lambda>c. same_text (px_customCategory c) (pt_customCategory target)) ?e"
  let ?p = "if ?b \<noteq> [] then ?b else ?k"
  obtain m ms where m: "?p = m # ms" "c = reduce_best steadier m ms"
    using assms by (auto simp: selectProxy_def Let_def split: list.splits if_splits)
  have cp: "c \<in> set ?p" unfolding m by (rule reduce_best_in)
  then have "c \<in> set ?e" by (auto split: if_splits)
  then show "c \<in> set cs" "isEstablishedProxy c" "px_productId c \<noteq> pt_productId target"
    by (simp_all add: eligible_proxies_def)
  show "same_text (px_vendor c) (pt_vendor target) \<or> same_text (px_customCategory c) (pt_customCategory target)"
    using cp by (auto split: if_splits)
  fix d assume d: "d \<in> set ?e" "same_text (px_vendor d) (pt_vendor target)"
  then have ne: "?b \<noteq> []" by (auto simp: filter_empty_conv)
  have "d \<in> set ?b" using d by simp
  moreover have "?b = m # ms" using m(1) ne by simp
  ultimately have "d \<in> set (m # ms)" by metis
  then have "\<not> steadier d c" unfolding m(2) by (rule proxy.reduce_best_unbeaten)
  with cp ne show "same_text (px_vendor c) (pt_vendor target) \<and> px_historyDays d \<le> px_historyDays c"
    by (auto simp: steadier_def split: if_splits)
qed

lemma borrowed_bounds:
  assumes "0 \<le> r"
  shows "BORROW_SCALE_MIN * r \<le> borrowedDailyRate r target proxy" "borrowedDailyRate r target proxy \<le> BORROW_SCALE_MAX * r"
proof -
  have "r * 0.5 \<le> r * x \<and> r * x \<le> r * 2" if "0.5 \<le> x" "x \<le> 2" for x
    using mult_left_mono [OF that(1) assms] mult_left_mono [OF that(2) assms] by simp
  from this [of "min 2 (max 0.5 (nvl (px_priceKes proxy) 0 / nvl (pt_priceKes target) 0))"] this [of 1]
  show "BORROW_SCALE_MIN * r \<le> borrowedDailyRate r target proxy" "borrowedDailyRate r target proxy \<le> BORROW_SCALE_MAX * r"
    by (auto simp: borrowedDailyRate_def Let_def BORROW_SCALE_MIN_def BORROW_SCALE_MAX_def mult.commute)
qed

end
