(* ===== verification/Health.thy ===== *)
theory Health
  imports Prelude
begin

text \<open>
  \<^verbatim>\<open>packages/forecast/src/ingest-health.ts\<close>: the gate before a forecast run, which tells a
  broken feed from a quiet shop. Hours are reals and \<open>Infinity\<close> is \<open>None\<close>; a reason is
  a datatype with one constructor per sentence, holding what the sentence interpolates.
\<close>

record daily_point =
  dp_dayKey :: date
  dp_units :: real

record health_config =
  hc_maxStaleHours :: real
  hc_lowFrac :: real
  hc_minNorm :: real
  hc_imputeLookback :: nat
  hc_maxImputeDays :: nat

definition DEFAULT_INGEST_HEALTH :: health_config where
  "DEFAULT_INGEST_HEALTH = \<lparr>hc_maxStaleHours = 60, hc_lowFrac = 0.2, hc_minNorm = 10,
     hc_imputeLookback = 7, hc_maxImputeDays = 2\<rparr>"

datatype age = Hours int | Days int | Weeks int | Months int

datatype health_reason =
    NeverSold
  | NewestSale age
  | TooManyGaps nat nat int int \<comment> \<open>gap days, lookback, threshold, usual\<close>
  | IgnoredGaps nat int int     \<comment> \<open>gap days, percent, usual\<close>

record verdict =
  vd_ok :: bool
  vd_stop :: bool
  vd_impute :: bool
  vd_gapDayKeys :: "date list"
  vd_reasons :: "health_reason list"
  vd_stale :: bool
  vd_trailingNorm :: real
  vd_latestSaleAt :: "date option"

definition describeAge :: "real \<Rightarrow> age" where
  "describeAge hours =
    (if hours < 48 then Hours (js_round hours)
     else let days = js_round (hours / 24)
          in if days < 14 then Days days
             else let weeks = js_round (of_int days / 7)
                  in if weeks < 9 then Weeks weeks else Months (js_round (of_int days / 30)))"

definition quantile :: "real list \<Rightarrow> real \<Rightarrow> real" where
  "quantile xs f =
    (if xs = [] then 0
     else let s = sort_by le_num xs
          in s ! nat (min (int (length s) - 1) \<lfloor>of_nat (length s) * f\<rfloor>))"

definition stale_hours :: "date option \<Rightarrow> date \<Rightarrow> real option" where
  "stale_hours latestSaleAt now = map_option (\<lambda>l. of_int (now - l) / 3600000) latestSaleAt"

definition is_stale :: "health_config \<Rightarrow> date option \<Rightarrow> date \<Rightarrow> bool" where
  "is_stale cfg latestSaleAt now =
    (case stale_hours latestSaleAt now of None \<Rightarrow> True | Some h \<Rightarrow> hc_maxStaleHours cfg < h)"

definition trailing_norm :: "daily_point list \<Rightarrow> real" where
  "trailing_norm daily =
    (let prior = map dp_units (butlast daily)
     in quantile (if prior \<noteq> [] then prior else map dp_units daily) 0.75)"

text \<open>\<open>slice(-n)\<close>, which is the whole array for \<open>n = 0\<close>.\<close>

definition lookback_days :: "health_config \<Rightarrow> daily_point list \<Rightarrow> daily_point list" where
  "lookback_days cfg daily = (if hc_imputeLookback cfg = 0 then daily else slice_last (hc_imputeLookback cfg) daily)"

definition gap_keys :: "health_config \<Rightarrow> daily_point list \<Rightarrow> date list" where
  "gap_keys cfg daily =
    (let norm = trailing_norm daily; lowThreshold = hc_lowFrac cfg * norm
     in if hc_minNorm cfg \<le> norm
        then map dp_dayKey (filter (\<lambda>d. dp_units d < lowThreshold) (lookback_days cfg daily)) else [])"

definition assessIngestHealth :: "daily_point list \<Rightarrow> date option \<Rightarrow> date \<Rightarrow> health_config \<Rightarrow> verdict" where
  "assessIngestHealth daily latestSaleAt now cfg =
    (let stale = is_stale cfg latestSaleAt now;
         r1 = (if stale then [case stale_hours latestSaleAt now of None \<Rightarrow> NeverSold | Some h \<Rightarrow> NewestSale (describeAge h)] else []);
         norm = trailing_norm daily;
         lowThreshold = hc_lowFrac cfg * norm;
         gaps = gap_keys cfg daily;
         broken = (\<not> stale \<and> hc_maxImputeDays cfg < length gaps);
         impute = (\<not> broken \<and> \<not> stale \<and> 0 < length gaps);
         stop = (stale \<or> broken);
         r2 = (if broken then [TooManyGaps (length gaps) (hc_imputeLookback cfg) (js_round lowThreshold) (js_round norm)]
               else if impute then [IgnoredGaps (length gaps) (js_round (hc_lowFrac cfg * 100)) (js_round norm)] else [])
     in \<lparr>vd_ok = \<not> stop, vd_stop = stop, vd_impute = impute, vd_gapDayKeys = gaps, vd_reasons = r1 @ r2,
         vd_stale = stale, vd_trailingNorm = norm, vd_latestSaleAt = latestSaleAt\<rparr>)"

section \<open>Lemmas\<close>

text \<open>A sorted list has at least \<open>k\<close> elements from \<open>u\<close> up, so its \<open>k\<close>-th from the end is one.\<close>

lemma sorted_suffix_ge:
  fixes xs :: "real list"
  assumes "sorted xs" and "i < length xs" and "length xs - i \<le> length (filter (\<lambda>x. u \<le> x) xs)"
  shows "u \<le> xs ! i"
proof (rule ccontr)
  assume "\<not> u \<le> xs ! i"
  then have "x < u" if xin: "x \<in> set (take (Suc i) xs)" for x
  proof -
    obtain j where "j < length (take (Suc i) xs)" "x = take (Suc i) xs ! j"
      using xin unfolding in_set_conv_nth by blast
    then have j: "j < Suc i" "x = xs ! j" by simp_all
    then have "xs ! j \<le> xs ! i" using sorted_nth_mono [OF assms(1), of j i] assms(2) by simp
    with j \<open>\<not> u \<le> xs ! i\<close> show ?thesis by simp
  qed
  then have "filter (\<lambda>x. u \<le> x) (take (Suc i) xs) = []" by (force simp: filter_empty_conv)
  then have "length (filter (\<lambda>x. u \<le> x) xs) = length (filter (\<lambda>x. u \<le> x) (drop (Suc i) xs))"
    by (metis append_self_conv2 append_take_drop_id filter_append)
  also have "\<dots> \<le> length xs - Suc i" by (metis length_drop length_filter_le)
  finally show False using assms(2,3) by linarith
qed

lemma quantile_ge:
  assumes "xs \<noteq> []" and "0 \<le> f" and "f < 1"
    and "real (length xs) - real_of_int \<lfloor>real (length xs) * f\<rfloor> \<le> real (length (filter (\<lambda>x. u \<le> x) xs))"
  shows "u \<le> quantile xs f"
proof -
  let ?s = "sort_by le_num xs"
  let ?i = "nat \<lfloor>real (length xs) * f\<rfloor>"
  have n: "0 < real (length xs)" using assms(1) by simp
  have fl: "0 \<le> \<lfloor>real (length xs) * f\<rfloor>" using assms(2) by simp
  have "real (length xs) * f < real (length xs)" using n assms(3) by simp
  then have lt: "\<lfloor>real (length xs) * f\<rfloor> < int (length xs)" by linarith
  then have idx: "nat (min (int (length ?s) - 1) \<lfloor>real (length ?s) * f\<rfloor>) = ?i" by simp
  have "mset (filter (\<lambda>x. u \<le> x) ?s) = mset (filter (\<lambda>x. u \<le> x) xs)" by simp
  then have cnt: "length (filter (\<lambda>x. u \<le> x) ?s) = length (filter (\<lambda>x. u \<le> x) xs)" by (metis size_mset)
  have "u \<le> ?s ! ?i"
  proof (rule sorted_suffix_ge)
    show "sorted ?s" using num.sorted_sort_by sorted_le_num by blast
    show "?i < length ?s" using fl lt unfolding length_sort_by by (simp only: nat_less_iff)
    show "length ?s - ?i \<le> length (filter (\<lambda>x. u \<le> x) ?s)" using assms(4) fl lt unfolding cnt by simp
  qed
  then show ?thesis using assms(1) idx by (simp add: quantile_def Let_def)
qed

lemma verdict_fields:
  "vd_stale (assessIngestHealth daily l now cfg) = is_stale cfg l now"
  "vd_stop (assessIngestHealth daily l now cfg) = (is_stale cfg l now \<or> hc_maxImputeDays cfg < length (gap_keys cfg daily))"
  "vd_impute (assessIngestHealth daily l now cfg) =
     (\<not> is_stale cfg l now \<and> 0 < length (gap_keys cfg daily) \<and> length (gap_keys cfg daily) \<le> hc_maxImputeDays cfg)"
  "vd_ok (assessIngestHealth daily l now cfg) = (\<not> vd_stop (assessIngestHealth daily l now cfg))"
  "vd_gapDayKeys (assessIngestHealth daily l now cfg) = gap_keys cfg daily"
  "vd_trailingNorm (assessIngestHealth daily l now cfg) = trailing_norm daily"
  by (auto simp: assessIngestHealth_def Let_def)

text \<open>A gap day is one of the recent days, and below the fraction of the norm.\<close>

lemma gap_keys_sound:
  "k \<in> set (gap_keys cfg daily) \<Longrightarrow> hc_minNorm cfg \<le> trailing_norm daily \<and>
     (\<exists>d \<in> set (lookback_days cfg daily). dp_dayKey d = k \<and> dp_units d < hc_lowFrac cfg * trailing_norm daily)"
  by (auto simp: gap_keys_def Let_def split: if_splits)

end
