(* ===== verification/Backtest.thy ===== *)
theory Backtest
  imports Layered
begin

text \<open>
  \<^verbatim>\<open>packages/forecast/src/accuracy.ts\<close> and \<^verbatim>\<open>backtest.ts\<close>: scoring a demand method on the
  shop's own history, walk-forward, and choosing the champion of each class. A nested \<open>Map\<close>
  is an association list of association lists, in insertion order. The loop over cutoffs does
  not end for a step that is not positive, so it is a \<open>partial_function\<close>.
\<close>

section \<open>Accuracy\<close>

definition EPS :: real where "EPS = 1 / 1000000000"
definition SEASON_DAYS :: nat where "SEASON_DAYS = 7"

definition lag_diffs :: "nat \<Rightarrow> real list \<Rightarrow> real list" where
  "lag_diffs m daily = map (\<lambda>i. daily ! i - daily ! (i - m)) [m..<length daily]"

definition positive_scale :: "real \<Rightarrow> real option" where
  "positive_scale scale = (if EPS < scale then Some scale else None)"

definition naiveMaeScale :: "real list \<Rightarrow> nat \<Rightarrow> real option" where
  "naiveMaeScale daily m =
    (if length daily < m + 1 then None
     else positive_scale (sum_list (map abs (lag_diffs m daily)) / real (length daily - m)))"

definition naiveMseScale :: "real list \<Rightarrow> nat \<Rightarrow> real option" where
  "naiveMseScale daily m =
    (if length daily < m + 1 then None
     else positive_scale (sum_list (map (\<lambda>d. d * d) (lag_diffs m daily)) / real (length daily - m)))"

definition pinballLoss :: "real \<Rightarrow> real \<Rightarrow> real \<Rightarrow> real" where
  "pinballLoss actual predicted tau =
    (let d = actual - predicted in if 0 \<le> d then tau * d else (tau - 1) * d)"

definition scaleWithFallback :: "real list \<Rightarrow> (real list \<Rightarrow> nat \<Rightarrow> real option) \<Rightarrow> real option" where
  "scaleWithFallback daily scale_of =
    (case scale_of daily SEASON_DAYS of Some s \<Rightarrow> Some s | None \<Rightarrow> scale_of daily 1)"

record window_error =
  we_said :: real
  we_happened :: real

record scale_free =
  sf_mase :: "real option"
  sf_rmsse :: "real option"
  sf_pinball :: "real option"

definition abs_error :: "window_error list \<Rightarrow> real" where
  "abs_error windows = sum_list (map (\<lambda>w. \<bar>we_said w - we_happened w\<bar>) windows)"

definition sq_error :: "window_error list \<Rightarrow> real" where
  "sq_error windows = sum_list (map (\<lambda>w. (we_said w - we_happened w) * (we_said w - we_happened w)) windows)"

definition scaleFreeAccuracy :: "window_error list \<Rightarrow> real list \<Rightarrow> real \<Rightarrow> scale_free" where
  "scaleFreeAccuracy windows daily tau =
    (if windows = [] then \<lparr>sf_mase = None, sf_rmsse = None, sf_pinball = None\<rparr>
     else let n = real (length windows)
          in \<lparr>sf_mase = map_option (\<lambda>s. abs_error windows / n / s) (scaleWithFallback daily naiveMaeScale),
              sf_rmsse = map_option (\<lambda>s. sqrt (sq_error windows / n / s)) (scaleWithFallback daily naiveMseScale),
              sf_pinball = Some (sum_list (map (\<lambda>w. pinballLoss (we_happened w) (we_said w) tau) windows) / n)\<rparr>)"

section \<open>The walk-forward backtest\<close>

definition DEMAND_METHODS :: "demand_method list" where "DEMAND_METHODS = [RunRate, RecentHeavy]"
definition CHALLENGER_WIN_MARGIN :: real where "CHALLENGER_WIN_MARGIN = 0.1"
definition PINBALL_TAU :: real where "PINBALL_TAU = 0.95"

record backtest_product =
  bp_productId :: string
  bp_abcClass :: "abc option"
  bp_history :: "sales_point list"

datatype lean = Over | Under | Even
datatype bt_class = Cls abc | AllClasses

record class_accuracy =
  ca_abcClass :: bt_class
  ca_method :: demand_method
  ca_saidUnits :: real
  ca_happenedUnits :: real
  ca_mae :: real
  ca_bias :: real
  ca_mape :: "real option"
  ca_sampleSize :: nat
  ca_leans :: lean
  ca_scaleFree :: scale_free

definition methodDailyRate :: "demand_method \<Rightarrow> sales_point list \<Rightarrow> date \<Rightarrow> baseline_method option \<Rightarrow> bool \<Rightarrow> real" where
  "methodDailyRate meth history cutoff baselineMethod bigBuyerDamping =
     demandRateFor meth (filter (\<lambda>p. sp_date p < cutoff) history) cutoff [] [] None baselineMethod bigBuyerDamping"

definition actualUnits :: "sales_point list \<Rightarrow> date \<Rightarrow> int \<Rightarrow> real" where
  "actualUnits history cutoff horizonDays =
     sum_list (map sp_quantity (filter (\<lambda>p. cutoff \<le> sp_date p \<and> sp_date p < cutoff + horizonDays * DAY_MS) history))"

definition earliest_of :: "sales_point list \<Rightarrow> date" where
  "earliest_of history = fold (\<lambda>p e. if sp_date p < e then sp_date p else e) history (sp_date (hd history))"

definition latest_of :: "sales_point list \<Rightarrow> date" where
  "latest_of history = fold (\<lambda>p e. if e < sp_date p then sp_date p else e) history (sp_date (hd history))"

partial_function (option) cutoff_loop :: "int \<Rightarrow> date \<Rightarrow> date \<Rightarrow> date list option" where
  "cutoff_loop stepMs last' t =
    (if t \<le> last' then Option.bind (cutoff_loop stepMs last' (t + stepMs)) (\<lambda>ts. Some (t # ts)) else Some [])"

definition walkForwardCutoffs :: "sales_point list \<Rightarrow> int \<Rightarrow> int \<Rightarrow> int \<Rightarrow> nat \<Rightarrow> date list option" where
  "walkForwardCutoffs history horizonDays minTrainDays step maxWindows =
    (if history = [] then Some []
     else let first = earliest_of history + minTrainDays * DAY_MS;
              last' = latest_of history - horizonDays * DAY_MS + DAY_MS
          in case cutoff_loop (step * DAY_MS) last' first of
               None \<Rightarrow> None
             | Some cutoffs \<Rightarrow> Some (if maxWindows < length cutoffs then drop (length cutoffs - maxWindows) cutoffs else cutoffs))"

definition lean_of :: "real \<Rightarrow> real \<Rightarrow> nat \<Rightarrow> lean" where
  "lean_of bias happenedUnits sampleSize =
    (if sampleSize = 0 then Even
     else let scale = (if 0 < happenedUnits then happenedUnits / real sampleSize else 1);
              rel = bias / (if scale = 0 then 1 else scale)
          in if 0.05 < rel then Over else if rel < - 0.05 then Under else Even)"

definition densify :: "sales_point list \<Rightarrow> real list" where
  "densify history =
    (if history = [] then []
     else let first = earliest_of history; last' = latest_of history;
              days = js_round (real_of_int (last' - first) / of_int DAY_MS) + 1
          in fold (\<lambda>p daily. let i = nat (js_round (real_of_int (sp_date p - first) / of_int DAY_MS))
                in daily[i := daily ! i + sp_quantity p]) history (replicate (nat days) 0))"

definition meanOf :: "real option list \<Rightarrow> real option" where
  "meanOf values =
    (let real' = concat (map (\<lambda>v. case v of None \<Rightarrow> [] | Some x \<Rightarrow> [x]) values)
     in if real' \<noteq> [] then Some (sum_list real' / real (length real')) else None)"

definition poolScaleFree :: "scale_free list \<Rightarrow> scale_free" where
  "poolScaleFree perProduct =
    \<lparr>sf_mase = meanOf (map sf_mase perProduct), sf_rmsse = meanOf (map sf_rmsse perProduct),
     sf_pinball = meanOf (map sf_pinball perProduct)\<rparr>"

definition aggregate :: "bt_class \<Rightarrow> demand_method \<Rightarrow> window_error list \<Rightarrow> scale_free list \<Rightarrow> class_accuracy" where
  "aggregate abcClass meth windows perProduct =
    (let sampleSize = length windows;
         saidUnits = sum_list (map we_said windows);
         happenedUnits = sum_list (map we_happened windows);
         signedErr = sum_list (map (\<lambda>w. we_said w - we_happened w) windows);
         mae = (if 0 < sampleSize then abs_error windows / real sampleSize else 0);
         bias = (if 0 < sampleSize then signedErr / real sampleSize else 0);
         withDemand = filter (\<lambda>w. 0 < we_happened w) windows;
         mape = (if withDemand \<noteq> []
                 then Some (sum_list (map (\<lambda>w. \<bar>we_said w - we_happened w\<bar> / we_happened w) withDemand) / real (length withDemand))
                 else None)
     in \<lparr>ca_abcClass = abcClass, ca_method = meth, ca_saidUnits = saidUnits, ca_happenedUnits = happenedUnits,
         ca_mae = mae, ca_bias = bias, ca_mape = mape, ca_sampleSize = sampleSize,
         ca_leans = lean_of bias happenedUnits sampleSize, ca_scaleFree = poolScaleFree perProduct\<rparr>)"

text \<open>\<open>push\<close> and \<open>pushScaled\<close>: append to the list of a class and a method.\<close>

type_synonym 'v buckets = "(bt_class \<times> (demand_method \<times> 'v list) list) list"

definition bucket :: "'v buckets \<Rightarrow> bt_class \<Rightarrow> demand_method \<Rightarrow> 'v list" where
  "bucket m cls meth = nvl (map_of (nvl (map_of m cls) []) meth) []"

definition push :: "bt_class \<Rightarrow> demand_method \<Rightarrow> 'v \<Rightarrow> 'v buckets \<Rightarrow> 'v buckets" where
  "push cls meth v m =
     AList.update cls (AList.update meth (bucket m cls meth @ [v]) (nvl (map_of m cls) [])) m"

record walk_state =
  wk_buckets :: "window_error buckets"
  wk_scaled :: "scale_free buckets"

definition last_date :: "sales_point list \<Rightarrow> date" where
  "last_date history = fold (\<lambda>p m. if m < sp_date p then sp_date p else m) history 0"

definition scorable_cutoff :: "sales_point list \<Rightarrow> int \<Rightarrow> date \<Rightarrow> bool" where
  "scorable_cutoff history horizonDays cutoff \<longleftrightarrow>
     \<not> (history = [] \<or> last_date history + DAY_MS < cutoff + horizonDays * DAY_MS)"

definition class_of :: "backtest_product \<Rightarrow> bt_class" where
  "class_of p = Cls (nvl (bp_abcClass p) ClassC)"

definition window_of ::
  "(demand_method \<Rightarrow> sales_point list \<Rightarrow> date \<Rightarrow> real) \<Rightarrow> int \<Rightarrow> backtest_product \<Rightarrow> date \<Rightarrow> demand_method \<Rightarrow> window_error" where
  "window_of rate horizonDays p cutoff meth =
    \<lparr>we_said = rate meth (bp_history p) cutoff * of_int horizonDays,
     we_happened = actualUnits (bp_history p) cutoff horizonDays\<rparr>"

text \<open>The windows of one product, in the order the two inner loops visit them.\<close>

definition windows_of ::
  "(demand_method \<Rightarrow> sales_point list \<Rightarrow> date \<Rightarrow> real) \<Rightarrow> date list \<Rightarrow> int \<Rightarrow> backtest_product \<Rightarrow>
   (demand_method \<times> window_error) list" where
  "windows_of rate cutoffs horizonDays p =
     concat (map (\<lambda>cutoff. map (\<lambda>meth. (meth, window_of rate horizonDays p cutoff meth)) DEMAND_METHODS)
       (filter (scorable_cutoff (bp_history p) horizonDays) cutoffs))"

definition push_window :: "bt_class \<Rightarrow> demand_method \<times> window_error \<Rightarrow> window_error buckets \<Rightarrow> window_error buckets" where
  "push_window cls mw = push AllClasses (fst mw) (snd mw) \<circ> push cls (fst mw) (snd mw)"

definition own_windows :: "(demand_method \<times> window_error) list \<Rightarrow> (demand_method \<times> window_error list) list" where
  "own_windows ws = fold (\<lambda>mw own. AList.update (fst mw) (nvl (map_of own (fst mw)) [] @ [snd mw]) own) ws []"

definition push_score :: "bt_class \<Rightarrow> real list \<Rightarrow> demand_method \<times> window_error list \<Rightarrow> scale_free buckets \<Rightarrow> scale_free buckets" where
  "push_score cls daily own =
    (let score = scaleFreeAccuracy (snd own) daily PINBALL_TAU
     in push AllClasses (fst own) score \<circ> push cls (fst own) score)"

definition walk_product ::
  "(demand_method \<Rightarrow> sales_point list \<Rightarrow> date \<Rightarrow> real) \<Rightarrow> date list \<Rightarrow> int \<Rightarrow> backtest_product \<Rightarrow> walk_state \<Rightarrow> walk_state" where
  "walk_product rate cutoffs horizonDays p st =
    (let cls = class_of p; daily = densify (bp_history p); ws = windows_of rate cutoffs horizonDays p
     in \<lparr>wk_buckets = fold (push_window cls) ws (wk_buckets st),
         wk_scaled = fold (push_score cls daily) (own_windows ws) (wk_scaled st)\<rparr>)"

definition walkForwardBacktest ::
  "backtest_product list \<Rightarrow> date list \<Rightarrow> int \<Rightarrow> baseline_method option \<Rightarrow> bool \<Rightarrow> class_accuracy list" where
  "walkForwardBacktest products cutoffs horizonDays baselineMethod bigBuyerDamping =
    (let rate = (\<lambda>meth history cutoff. methodDailyRate meth history cutoff baselineMethod bigBuyerDamping);
         st = fold (walk_product rate cutoffs horizonDays) products \<lparr>wk_buckets = [], wk_scaled = []\<rparr>
     in concat (map (\<lambda>(cls, byMethod). map (\<lambda>(meth, windows).
            aggregate cls meth windows (bucket (wk_scaled st) cls meth)) byMethod) (wk_buckets st)))"

section \<open>The champion\<close>

definition score_of :: "bool \<Rightarrow> class_accuracy \<Rightarrow> real" where
  "score_of onRmsse r = (if onRmsse then the (sf_rmsse (ca_scaleFree r)) else ca_mae r)"

definition contenders :: "(demand_method \<Rightarrow> class_accuracy option) \<Rightarrow> class_accuracy list" where
  "contenders results =
     filter (\<lambda>r. 0 < ca_sampleSize r)
       (concat (map (\<lambda>m. case results m of None \<Rightarrow> [] | Some r \<Rightarrow> [r]) DEMAND_METHODS))"

definition on_rmsse :: "(demand_method \<Rightarrow> class_accuracy option) \<Rightarrow> bool" where
  "on_rmsse results \<longleftrightarrow> (\<forall>r \<in> set (contenders results). sf_rmsse (ca_scaleFree r) \<noteq> None)"

definition challenge ::
  "(demand_method \<Rightarrow> class_accuracy option) \<Rightarrow> real \<Rightarrow> demand_method \<Rightarrow> demand_method \<times> real \<Rightarrow> demand_method \<times> real" where
  "challenge results incumbent meth cb =
    (if meth = CHAMPION_DEFAULT then cb
     else case results meth of
       None \<Rightarrow> cb
     | Some r \<Rightarrow>
         (if ca_sampleSize r = 0 then cb
          else let challenger = score_of (on_rmsse results) r
               in if challenger < incumbent * (1 - CHALLENGER_WIN_MARGIN) \<and> challenger < snd cb
                  then (meth, challenger) else cb))"

definition auditChampion :: "(demand_method \<Rightarrow> class_accuracy option) \<Rightarrow> demand_method" where
  "auditChampion results =
    (case results CHAMPION_DEFAULT of
       None \<Rightarrow> CHAMPION_DEFAULT
     | Some baseline \<Rightarrow>
         (if ca_sampleSize baseline = 0 then CHAMPION_DEFAULT
          else let incumbent = score_of (on_rmsse results) baseline
               in fst (fold (challenge results incumbent) DEMAND_METHODS (CHAMPION_DEFAULT, incumbent))))"

definition rows_by_method :: "class_accuracy list \<Rightarrow> bt_class \<Rightarrow> demand_method \<Rightarrow> class_accuracy option" where
  "rows_by_method byClass cls meth =
     fold (\<lambda>row r. if ca_abcClass row = cls \<and> ca_method row = meth then Some row else r) byClass None"

definition championsByClass :: "class_accuracy list \<Rightarrow> abc \<Rightarrow> demand_method" where
  "championsByClass byClass cls = auditChampion (rows_by_method byClass (Cls cls))"

section \<open>Lemmas\<close>

lemma pinball_nonneg: "0 \<le> tau \<Longrightarrow> tau \<le> 1 \<Longrightarrow> 0 \<le> pinballLoss a p tau"
  by (auto simp: pinballLoss_def Let_def mult_nonneg_nonneg mult_nonpos_nonpos)

lemma earliest_le: "p \<in> set history \<Longrightarrow> earliest_of history \<le> sp_date p"
proof -
  have "fold (\<lambda>p e. if sp_date p < e then sp_date p else e) xs e0 \<le> e0 \<and>
      (\<forall>p \<in> set xs. fold (\<lambda>p e. if sp_date p < e then sp_date p else e) xs e0 \<le> sp_date p)" for xs :: "sales_point list" and e0
    by (induction xs arbitrary: e0) (auto, smt, smt)
  then show "p \<in> set history \<Longrightarrow> ?thesis" by (simp add: earliest_of_def)
qed

lemma latest_ge: "p \<in> set history \<Longrightarrow> sp_date p \<le> latest_of history"
proof -
  have "e0 \<le> fold (\<lambda>p e. if e < sp_date p then sp_date p else e) xs e0 \<and>
      (\<forall>p \<in> set xs. sp_date p \<le> fold (\<lambda>p e. if e < sp_date p then sp_date p else e) xs e0)" for xs :: "sales_point list" and e0
    by (induction xs arbitrary: e0) (auto, smt, smt)
  then show "p \<in> set history \<Longrightarrow> ?thesis" by (simp add: latest_of_def)
qed

text \<open>With a positive step the loop returns, in ascending order and inside the bounds.\<close>

lemma cutoff_loop_ends:
  assumes "0 < stepMs"
  shows "\<exists>ts. cutoff_loop stepMs last' t = Some ts \<and> (\<forall>c \<in> set ts. t \<le> c \<and> c \<le> last') \<and>
    sorted_wrt (\<lambda>a b. a + stepMs \<le> b) ts"
proof (induction "nat (last' + 1 - t)" arbitrary: t rule: less_induct)
  case less
  show ?case
  proof (cases "t \<le> last'")
    case False then show ?thesis by (simp add: cutoff_loop.simps [of stepMs last' t])
  next
    case True
    then have "nat (last' + 1 - (t + stepMs)) < nat (last' + 1 - t)" using assms by simp
    from less [OF this] obtain ts where "cutoff_loop stepMs last' (t + stepMs) = Some ts"
      "\<forall>c \<in> set ts. t + stepMs \<le> c \<and> c \<le> last'" "sorted_wrt (\<lambda>a b. a + stepMs \<le> b) ts" by blast
    with True assms show ?thesis by (auto simp: cutoff_loop.simps [of stepMs last' t])
  qed
qed

lemma sorted_wrt_drop: "sorted_wrt P xs \<Longrightarrow> sorted_wrt P (drop n xs)"
  by (metis append_take_drop_id sorted_wrt_append)

lemma cutoffs_spec:
  assumes "0 < step" and "history \<noteq> []"
  shows "\<exists>cs. walkForwardCutoffs history horizon minTrain step maxWindows = Some cs \<and> length cs \<le> maxWindows \<and>
    sorted_wrt (\<lambda>a b. a + step * DAY_MS \<le> b) cs \<and>
    (\<forall>c \<in> set cs. earliest_of history + minTrain * DAY_MS \<le> c \<and> c + horizon * DAY_MS \<le> latest_of history + DAY_MS)"
proof -
  let ?l = "latest_of history - horizon * DAY_MS + DAY_MS"
  obtain ts where ts: "cutoff_loop (step * DAY_MS) ?l (earliest_of history + minTrain * DAY_MS) = Some ts"
    "\<forall>c \<in> set ts. earliest_of history + minTrain * DAY_MS \<le> c \<and> c \<le> ?l"
    "sorted_wrt (\<lambda>a b. a + step * DAY_MS \<le> b) ts"
    using cutoff_loop_ends [of "step * DAY_MS" ?l "earliest_of history + minTrain * DAY_MS"] assms(1) by auto
  let ?cs = "if maxWindows < length ts then drop (length ts - maxWindows) ts else ts"
  have "c \<in> set ts" if "c \<in> set ?cs" for c using that by (auto dest: in_set_dropD split: if_splits)
  then have "\<forall>c \<in> set ?cs. earliest_of history + minTrain * DAY_MS \<le> c \<and> c + horizon * DAY_MS \<le> latest_of history + DAY_MS"
    using ts(2) by fastforce
  moreover have "walkForwardCutoffs history horizon minTrain step maxWindows = Some ?cs"
    using ts(1) assms(2) by (simp add: walkForwardCutoffs_def Let_def)
  moreover have "length ?cs \<le> maxWindows" "sorted_wrt (\<lambda>a b. a + step * DAY_MS \<le> b) ?cs"
    using ts(3) by (auto simp: sorted_wrt_drop)
  ultimately show ?thesis by blast
qed

lemma bucket_push:
  "bucket (push cls meth v m) c n = (if c = cls \<and> n = meth then bucket m c n @ [v] else bucket m c n)"
  by (simp add: bucket_def push_def update_conv')

text \<open>The rollup holds exactly the windows of the three classes.\<close>

definition rolled_up :: "'v buckets \<Rightarrow> bool" where
  "rolled_up m \<longleftrightarrow> (\<forall>meth. mset (bucket m AllClasses meth) =
     mset (bucket m (Cls ClassA) meth) + mset (bucket m (Cls ClassB) meth) + mset (bucket m (Cls ClassC) meth))"

lemma rolled_up_push: "rolled_up m \<Longrightarrow> rolled_up (push AllClasses meth v (push (Cls c) meth v m))"
  by (cases c) (simp_all add: rolled_up_def bucket_push)

lemma rolled_up_fold:
  "(\<And>x m. rolled_up m \<Longrightarrow> rolled_up (f x m)) \<Longrightarrow> rolled_up m \<Longrightarrow> rolled_up (fold f xs m)"
  by (induction xs arbitrary: m) auto

lemma walk_rolled_up:
  "rolled_up (wk_buckets st) \<Longrightarrow> rolled_up (wk_scaled st) \<Longrightarrow>
   rolled_up (wk_buckets (walk_product rate cutoffs h p st)) \<and> rolled_up (wk_scaled (walk_product rate cutoffs h p st))"
proof -
  assume a: "rolled_up (wk_buckets st)" "rolled_up (wk_scaled st)"
  have "rolled_up (push_window (class_of p) x m)" if "rolled_up m" for x m
    using that rolled_up_push by (simp add: push_window_def class_of_def)
  moreover have "rolled_up (push_score (class_of p) d x m)" if "rolled_up m" for d x m
    using that rolled_up_push by (simp add: push_score_def Let_def class_of_def)
  ultimately show ?thesis using a by (simp add: walk_product_def Let_def rolled_up_fold)
qed

lemma champion_cases:
  "auditChampion results = CHAMPION_DEFAULT \<or>
   (\<exists>b r. results CHAMPION_DEFAULT = Some b \<and> results (auditChampion results) = Some r \<and>
      0 < ca_sampleSize b \<and> 0 < ca_sampleSize r \<and>
      score_of (on_rmsse results) r < score_of (on_rmsse results) b * (1 - CHALLENGER_WIN_MARGIN))"
  by (auto simp: auditChampion_def challenge_def DEMAND_METHODS_def CHAMPION_DEFAULT_def Let_def split: option.split)

end
