(* ===== verification/EngineProperties.thy ===== *)
theory EngineProperties
  imports Pipeline Transfers Planner Quantile Promo Health Backtest PoModel
begin

text \<open>
  The properties of the forecast engine and of the pure order helpers, with their witnesses
  on a product with three days of sales and on small tables.
\<close>

section \<open>A product to witness on\<close>

text \<open>Three sales of a product, on days 100, 101 and 103, seen on day 110.\<close>

definition demo_sale :: "int \<Rightarrow> real \<Rightarrow> sales_point" where
  "demo_sale day units = \<lparr>sp_date = day * DAY_MS, sp_quantity = units, sp_revenue = None, sp_channel = None\<rparr>"

definition demo_history :: "sales_point list" where
  "demo_history = [demo_sale 100 2, demo_sale 101 3, demo_sale 103 1]"

definition demo_input :: forecast_input where
  "demo_input = \<lparr>fi_productType = None, fi_vendor = None, fi_sku = ''A'', fi_currentStock = 4, fi_abcCategory = Some ''B'',
     fi_history = demo_history, fi_leadTimeAvg = 7, fi_leadTimeStd = 1, fi_activePromos = [], fi_runDateKey = Some (110 * DAY_MS),
     fi_now = 110 * DAY_MS, fi_stockoutDates = [], fi_snapshotsSince = None, fi_excludedDates = [], fi_monthlyExpectations = [],
     fi_serviceZ = (\<lambda>_. None), fi_capMultiple = None, fi_demandOverride = None, fi_demandMethod = None, fi_baselineMethod = None,
     fi_bigBuyerDamping = False\<rparr>"

lemma demo_positive: "positive_sales demo_history"
  by (simp add: positive_sales_def demo_history_def demo_sale_def)

section \<open>Rates\<close>

text \<open>C21. The damped window reads a history through its daily totals alone: two histories with the same
  counted days and the same total on each day give the same units and the same number of sale days, however the
  sales of a day are split into rows or ordered.\<close>

theorem damped_window_reads_daily_totals:
  assumes "counted_days since asOf ex h1 = counted_days since asOf ex h2"
    and "\<And>k. day_total since asOf ex h1 k = day_total since asOf ex h2 k"
  shows "dampedWindow h1 since asOf ex = dampedWindow h2 since asOf ex"
  by (rule dampedWindow_totals [OF assms])

theorem damped_window_reads_daily_totals_witness:
  "dampedWindow [demo_sale 100 2, demo_sale 100 1] 0 (200 * DAY_MS) None = dampedWindow [demo_sale 100 3] 0 (200 * DAY_MS) None"
proof (rule damped_window_reads_daily_totals)
  have c: "counted_days s a e h = set (map (\<lambda>p. dayKeyOf (sp_date p)) (filter (counted s a e) h))" for s a e h
    by (auto simp: counted_days_def)
  show "counted_days 0 (200 * DAY_MS) None [demo_sale 100 2, demo_sale 100 1] = counted_days 0 (200 * DAY_MS) None [demo_sale 100 3]"
    unfolding c by (simp add: counted_def excludes_def demo_sale_def)
  show "day_total 0 (200 * DAY_MS) None [demo_sale 100 2, demo_sale 100 1] k = day_total 0 (200 * DAY_MS) None [demo_sale 100 3] k" for k
    by (simp add: day_total_def counted_def excludes_def demo_sale_def)
qed

text \<open>C20. Whichever stock-out, exclusion and snapshot masks shorten its windows, the daily rate is the blend of the
  windows' units over counts of days that are at least one, and at least three as soon as stock-outs or snapshots
  are known, so no mask divides by an empty window; and with sales that are not negative it is between zero and
  everything ever sold.\<close>

theorem daily_rate_bounds:
  assumes "positive_sales h"
  shows "0 \<le> weightedDailyRateCensored h stockouts today excluded snapshots \<and>
    weightedDailyRateCensored h stockouts today excluded snapshots \<le> sum_list (map sp_quantity h) \<and>
    0 \<le> weightedDailyRateAdjusted h today excluded \<and> weightedDailyRateAdjusted h today excluded \<le> sum_list (map sp_quantity h) \<and>
    (\<exists>days. (\<forall>d \<in> {30, 90, 365}. 1 \<le> days d) \<and>
       weightedDailyRateAdjusted h today excluded = windowed_rate h today (excluded_set excluded) days) \<and>
    (\<exists>days. (\<forall>d \<in> {30, 90, 365}. (if stockouts = [] \<and> snapshots = None then 1 else 3) \<le> days d) \<and>
       weightedDailyRateCensored h stockouts today excluded snapshots = windowed_rate h today (excluded_set excluded) days)"
proof -
  have a: "\<exists>days. (\<forall>d \<in> {30, 90, 365}. 1 \<le> days d) \<and>
      weightedDailyRateAdjusted h today excluded = windowed_rate h today (excluded_set excluded) days"
    by (rule weightedDailyRateAdjusted_windows [of h today excluded]) blast
  have "\<exists>days. (\<forall>d \<in> {30, 90, 365}. (if stockouts = [] \<and> snapshots = None then 1 else 3) \<le> days d) \<and>
      weightedDailyRateCensored h stockouts today excluded snapshots = windowed_rate h today (excluded_set excluded) days"
  proof (cases "stockouts = [] \<and> snapshots = None")
    case True with a show ?thesis by (simp add: weightedDailyRateCensored_unmasked)
  next
    case False
    show ?thesis unfolding if_not_P [OF False]
      by (rule weightedDailyRateCensored_windows [OF False, of h today excluded]) blast
  qed
  with a weightedDailyRateCensored_bounds [OF assms] weightedDailyRateAdjusted_bounds [OF assms] show ?thesis by blast
qed

theorem daily_rate_bounds_witness:
  "0 \<le> weightedDailyRateCensored demo_history [102 * DAY_MS] (110 * DAY_MS) [] (Some 0) \<and>
   weightedDailyRateCensored demo_history [102 * DAY_MS] (110 * DAY_MS) [] (Some 0) \<le> 6"
  using daily_rate_bounds [OF demo_positive, of "[102 * DAY_MS]" "110 * DAY_MS" "[]" "Some 0"]
  by (simp add: demo_history_def demo_sale_def)

text \<open>Discounting the gaps between sales never lowers a rate: with sales stamped at day starts, the adjusted
  rate is at least the weighted rate over the full windows.\<close>

theorem adjusted_rate_at_least_plain:
  assumes "positive_sales h" and "\<And>p. p \<in> set h \<Longrightarrow> DAY_MS dvd sp_date p"
  shows "sum_list (map (\<lambda>(d, w). fst (dampedWindow h (days_before today d) today None) / real_of_int d * w) RATE_WINDOWS)
    \<le> weightedDailyRateAdjusted h today []"
  by (rule adjusted_ge_damped [OF assms])

theorem adjusted_rate_at_least_plain_witness:
  "sum_list (map (\<lambda>(d, w). fst (dampedWindow demo_history (days_before (110 * DAY_MS) d) (110 * DAY_MS) None) / real_of_int d * w) RATE_WINDOWS)
    \<le> weightedDailyRateAdjusted demo_history (110 * DAY_MS) []"
  by (rule adjusted_rate_at_least_plain [OF demo_positive]) (auto simp: demo_history_def demo_sale_def)

text \<open>C22. Removing a big buyer keeps every row and its date, brings the total of each flagged day to the target over
  the baseline, and leaves the total of every other day as it was.\<close>

theorem big_buyer_days_brought_to_target:
  "map sp_date (fst (debulkSeries h asOf ex)) = map sp_date h \<and>
   units_on (fst (debulkSeries h asOf ex)) k =
     (if is_bulk_day h asOf ex k then bulk_target (bulk_baseline (debulk_days h asOf ex)) else units_on h k)"
  using debulk_dates debulk_total [OF refl] by blast

section \<open>The forecast\<close>

text \<open>C15. Without an owner's override, the boosted forecast is held to the cap multiple of the calendar month that sold
  most, among the months the demand history touches, when some month sold anything, and is left as it is when none
  did; with an override it is the owner's. Negative results are read as zero.\<close>

theorem engine_forecast_capped:
  "case fi_demandOverride i of
     Some ov \<Rightarrow> final_forecast i = max 0 (do_forecast30d ov)
   | None \<Rightarrow>
       (\<exists>m \<in> trading_months i. 0 < units_of_month i m \<and>
          (\<forall>m' \<in> trading_months i. units_of_month i m' \<le> units_of_month i m) \<and>
          final_forecast i = max 0 (min (boosted i) (cap_multiple i * units_of_month i m))) \<or>
       (\<forall>m \<in> trading_months i. units_of_month i m \<le> 0) \<and> final_forecast i = max 0 (boosted i)"
  using best_month_cases [of i] final_forecast_by_month [of i] override_final [of i] by (auto split: option.split)

theorem engine_forecast_capped_witness:
  "\<exists>m \<in> trading_months demo_input. units_of_month demo_input m = 6 \<and>
     final_forecast demo_input = max 0 (min (boosted demo_input) (cap_multiple demo_input * 6))"
proof -
  have h: "demand_history demo_input = demo_history" by code_simp
  have m: "trading_months demo_input = {monthKeyOf (100 * DAY_MS)}"
    unfolding trading_months_def h demo_history_def by (simp add: demo_sale_def, code_simp)
  have u: "units_of_month demo_input (monthKeyOf (100 * DAY_MS)) = 6"
    unfolding units_of_month_def h by code_simp
  have "fi_demandOverride demo_input = None" by (simp add: demo_input_def)
  with engine_forecast_capped [of demo_input] show ?thesis by (simp add: m [simplified] u [simplified])
qed

text \<open>C14. The pipeline's forecast is the owner's when there is one, and otherwise the engine's held to the
  guardrail's bound: three times the units of the last thirty days, but at least twelve with under thirty days of
  history or more than seven stock-out days, and for an item that sold nothing twelve when its shelf is empty and
  three when it is not. No item escapes the bound, the new and the sold-out ones included. The forecast is never
  negative, the recommended quantity is not negative, and the explanation shown beside it explains that same
  quantity.\<close>

theorem product_forecast_guarded:
  "fr_finalForecast30d (guarded_forecast i) =
     (case pi_demandOverride i of
        Some ov \<Rightarrow> max 0 (do_forecast30d ov)
      | None \<Rightarrow> min (final_forecast (engine_input i))
          (let c = guard_context i; sold = guard_sold30 c
           in if guard_span c < 30 \<or> 7 < guard_stockouts c then max (3 * sold) 12
              else if 0 < sold then 3 * sold
              else if gc_currentStock c \<le> 0 then 12 else 3)) \<and>
   0 \<le> fr_finalForecast30d (guarded_forecast i) \<and> 0 \<le> pr_recommendedQty (forecastProduct i) \<and>
   qe_recommendedQty (pr_explainParts (forecastProduct i)) = pr_recommendedQty (forecastProduct i)"
  using guarded_final [of i] guarded_final_nonneg [of i] forecastProduct_qty_nonneg [of i] forecastProduct_explains [of i]
  by (simp only: ctx_bound_def guardrail_bound_def Let_def simp_thms)

text \<open>C23. Guarding twice is guarding once, and guarding a forecast scales its safety stock and its spread by the
  factor it scales the forecast, leaving the order quantity, the urgency and the confidence to the engine. The
  guarded forecast is the smaller of the engine's and the guardrail's bound for every item, the new and the
  sold-out ones included.\<close>

theorem guardrail_scales_once:
  assumes "0 < fr_finalForecast30d r"
  shows "guardForecastResult (guardForecastResult r ctx) ctx = guardForecastResult r ctx \<and>
    fr_finalForecast30d (guardForecastResult r ctx) = min (fr_finalForecast30d r) (ctx_bound ctx) \<and>
    fr_safetyStock (guardForecastResult r ctx) * fr_finalForecast30d r = fr_safetyStock r * fr_finalForecast30d (guardForecastResult r ctx) \<and>
    fr_demandStd (guardForecastResult r ctx) =
      map_option (\<lambda>s. s * (fr_finalForecast30d (guardForecastResult r ctx) / fr_finalForecast30d r)) (fr_demandStd r) \<and>
    fr_recommendedQty (guardForecastResult r ctx) = fr_recommendedQty r \<and>
    fr_urgency (guardForecastResult r ctx) = fr_urgency r \<and>
    fr_layer1Confidence (guardForecastResult r ctx) = fr_layer1Confidence r \<and>
    fr_confidenceWord (guardForecastResult r ctx) = fr_confidenceWord r \<and>
    fr_confidence (guardForecastResult r ctx) = fr_confidence r"
  by (intro conjI guard_idempotent guard_final guard_proportional [OF assms] guard_frame)

lemma demo_forecast_positive: "0 < fr_finalForecast30d ((layeredForecast demo_input)\<lparr>fr_finalForecast30d := 9\<rparr>)"
  by simp

theorem guardrail_scales_once_witness:
  "fr_finalForecast30d (guardForecastResult ((layeredForecast demo_input)\<lparr>fr_finalForecast30d := 9\<rparr>)
     \<lparr>gc_history = [], gc_currentStock = 0, gc_today = 0, gc_stockoutDates = []\<rparr>) =
   min 9 (ctx_bound \<lparr>gc_history = [], gc_currentStock = 0, gc_today = 0, gc_stockoutDates = []\<rparr>)"
  using guardrail_scales_once [OF demo_forecast_positive, of "\<lparr>gc_history = [], gc_currentStock = 0, gc_today = 0, gc_stockoutDates = []\<rparr>"]
  by simp

section \<open>Quantities\<close>





section \<open>Classes\<close>

text \<open>C24. The classes follow the revenue ranking, the products in order of falling revenue. The product at a place gets
  class A when less than 70 percent of the revenue sells ahead of it and neither its run rate is under 0.4 a day nor
  its sales span under 14 days, class C when 90 percent or more sells ahead of it or its run rate is under 0.1 a
  day, and class B otherwise; so a later product never ranks above an earlier one that meets the velocity guards.
  With no revenue at all, everything counts as sold ahead.\<close>

theorem abc_follows_revenue:
  assumes "distinct (map ai_id ps)" and "\<And>p. p \<in> set ps \<Longrightarrow> 0 \<le> ai_revenue p" and "i \<le> j" and "j < length ps"
  shows "let ranked = sort_by by_revenue ps; p = ranked ! i; revenue = sum_list (map ai_revenue ps);
      ahead = (if 0 < revenue then sum_list (map ai_revenue (take i ranked)) / revenue else 1)
    in mset ranked = mset ps \<and> sorted_wrt (\<lambda>p q. ai_revenue q \<le> ai_revenue p) ranked \<and>
      (\<exists>a b. map_of (assignAbc ps) (ai_id p) = Some a \<and> map_of (assignAbc ps) (ai_id (ranked ! j)) = Some b \<and>
        (a = ClassA \<longleftrightarrow> ahead < 0.7 \<and> \<not> below (ai_runRate p) 0.4 \<and> \<not> below (ai_saleSpanDays p) 14) \<and>
        (a = ClassC \<longleftrightarrow> 0.9 \<le> ahead \<or> below (ai_runRate p) 0.1) \<and>
        (\<not> below (ai_runRate p) 0.4 \<and> \<not> below (ai_saleSpanDays p) 14 \<longrightarrow> abc_rank a \<le> abc_rank b))"
proof -
  let ?s = "sort_by by_revenue ps"
  have tot: "sum_list (map ai_revenue ?s) = sum_list (map ai_revenue ps)"
    by (metis mset_map mset_sort_by sum_mset_sum_list)
  have mono: "share_above ?s i \<le> share_above ?s j" by (rule share_above_mono [OF _ assms(3)]) (simp add: assms(2))
  have "abc_rank (abc_class (share_above ?s i) (?s ! i)) \<le> abc_rank (abc_class (share_above ?s j) (?s ! j))"
    if "\<not> below (ai_runRate (?s ! i)) 0.4" "\<not> below (ai_saleSpanDays (?s ! i)) 14"
    using abc_class_ok [OF velocity_okI [OF that]] share_class_mono [OF mono] abc_class_demotes by (metis order_trans)
  moreover have "sorted_wrt (\<lambda>p q. ai_revenue q \<le> ai_revenue p) ?s"
    using revenue.sorted_sort_by [of ps] by (simp add: by_revenue_def [abs_def])
  ultimately show ?thesis
    using assignAbc_nth [OF assms(1)] assms(3,4) abc_class_cases [of "share_above ?s i" "?s ! i"]
    by (simp add: share_above_def Let_def tot)
qed

definition demo_ranked :: "string \<Rightarrow> real \<Rightarrow> abc_input" where
  "demo_ranked i r = \<lparr>ai_id = i, ai_revenue = r, ai_runRate = None, ai_saleSpanDays = None\<rparr>"

theorem abc_follows_revenue_witness:
  "map_of (assignAbc [demo_ranked ''p'' 10, demo_ranked ''q'' 90]) ''q'' = Some ClassA \<and>
   map_of (assignAbc [demo_ranked ''p'' 10, demo_ranked ''q'' 90]) ''p'' = Some ClassC"
proof -
  let ?ps = "[demo_ranked ''p'' 10, demo_ranked ''q'' 90]"
  have s: "sort_by by_revenue ?ps = [demo_ranked ''q'' 90, demo_ranked ''p'' 10]"
    by code_simp
  have "distinct (map ai_id ?ps)" "\<And>p. p \<in> set ?ps \<Longrightarrow> 0 \<le> ai_revenue p" by (auto simp: demo_ranked_def)
  from abc_follows_revenue [OF this, of 0 0] abc_follows_revenue [OF this, of 1 1] show ?thesis
    unfolding s Let_def by (cases "map_of (assignAbc ?ps) ''q''"; cases "map_of (assignAbc ?ps) ''p''")
      (simp_all add: demo_ranked_def below_def)
qed

section \<open>Transfers\<close>

text \<open>C17. The fill level spends exactly what there is: raising every destination to that cover needs the whole of
  the available units, no more and no less.\<close>

theorem fill_level_spends_all:
  assumes "ds \<noteq> []" and "\<And>d. d \<in> set ds \<Longrightarrow> 0 < dp_runRate d" and "0 \<le> available"
  shows "need_at ds (fillLevel ds available) = available"
  by (rule fillLevel_exact [OF assms])

definition demo_branch :: "string \<Rightarrow> real \<Rightarrow> real \<Rightarrow> destination" where
  "demo_branch i h r = \<lparr>dp_locationId = i, dp_onHand = h, dp_runRate = r\<rparr>"

theorem fill_level_spends_all_witness:
  "need_at [demo_branch ''a'' 4 2, demo_branch ''b'' 0 1] (fillLevel [demo_branch ''a'' 4 2, demo_branch ''b'' 0 1] 11) = 11"
  by (rule fill_level_spends_all) (auto simp: demo_branch_def)

text \<open>C16. Sizing never ships more than the source can spare, ships whole positive quantities, and only to a
  destination that sells.\<close>

theorem transfers_within_available:
  assumes "distinct (map dp_locationId ds)"
  shows "of_int (sum_list (map st_qty (sizeTransfers available ds cover opts))) \<le> max 0 available \<and>
    list_all (\<lambda>l. 0 < st_qty l \<and> list_ex (\<lambda>d. NO_RATE_EPSILON < dp_runRate d \<and> dp_locationId d = st_toLocationId l) ds)
      (sizeTransfers available ds cover opts)"
  using sizeTransfers_sum [OF assms] sizeTransfers_line by (auto simp: list_all_iff list_ex_iff)

theorem transfers_within_available_witness:
  "of_int (sum_list (map st_qty (sizeTransfers 20 [demo_branch ''a'' 4 2, demo_branch ''b'' 0 1] 14
      \<lparr>to_drain = None, to_drainCoverDays = None, to_minTransfer = None\<rparr>))) \<le> (20::real)"
  using transfers_within_available [of "[demo_branch ''a'' 4 2, demo_branch ''b'' 0 1]" 20 14
    "\<lparr>to_drain = None, to_drainCoverDays = None, to_minTransfer = None\<rparr>"] by (simp add: demo_branch_def)

section \<open>Planning\<close>

lemma allocation_parts:
  "mset (an_selected (allocateByBudget scored b strict)) + mset (an_deferred (allocateByBudget scored b strict)) = mset scored"
  "an_usedKes (allocateByBudget scored b strict) = sum_list (map al_cost (an_selected (allocateByBudget scored b strict)))"
  by (cases b; simp add: allocateByBudget_def greedy_mset greedy_used Let_def)+

text \<open>C25. Allocating a budget loses no suggestion and repeats none, the amount reported is the cost of what was
  selected, a strict budget is never exceeded, and outside strict mode every critical suggestion is selected.\<close>

theorem budget_allocation:
  "mset (an_selected (allocateByBudget scored b strict)) + mset (an_deferred (allocateByBudget scored b strict)) = mset scored \<and>
   an_usedKes (allocateByBudget scored b strict) = sum_list (map al_cost (an_selected (allocateByBudget scored b strict))) \<and>
   set (filter is_critical scored) \<subseteq> set (an_selected (allocateByBudget scored (Some x) False)) \<and>
   an_usedKes (allocateByBudget scored (Some (max 0 x)) True) \<le> max 0 x"
proof (intro conjI allocation_parts)
  obtain xs where "an_selected (allocateByBudget scored (Some x) False) = filter is_critical scored @ xs"
    using greedy_prefix [of al_cost x "filter (\<lambda>s. \<not> is_critical s) scored"
      "\<lparr>an_selected = filter is_critical scored, an_deferred = [], an_usedKes = sum_list (map al_cost (filter is_critical scored))\<rparr>"]
    by (auto simp: allocateByBudget_def Let_def)
  then show "set (filter is_critical scored) \<subseteq> set (an_selected (allocateByBudget scored (Some x) False))" by simp
  show "an_usedKes (allocateByBudget scored (Some (max 0 x)) True) \<le> max 0 x"
    by (simp add: allocateByBudget_def greedy_budget)
qed

text \<open>A suggested discount is a multiple of five between ten and thirty percent, and when the cost is known the
  discounted price keeps a margin of five percent over it.\<close>

theorem discount_keeps_margin:
  assumes "suggestedDiscountPct p w = Some pct" and "0 < rp_costKes p"
  shows "10 \<le> pct \<and> pct \<le> 30 \<and> 5 dvd pct \<and> 1.05 * rp_costKes p \<le> rp_priceKes p * (1 - of_int pct / 100)"
  using suggestedDiscountPct_range [OF assms(1)] suggestedDiscountPct_margin [OF assms] by blast

theorem discount_keeps_margin_witness:
  "1.05 * 50 \<le> (100::real) * (1 - of_int 30 / 100) \<and>
   suggestedDiscountPct \<lparr>rp_productId = ''p'', rp_title = ''p'', rp_abc = None, rp_category = None, rp_onHand = 5, rp_costKes = 50,
     rp_priceKes = 100, rp_runRate = 0, rp_dead = True, rp_daysSinceSale = None, rp_plannedQty = 0\<rparr> 30 = Some 30"
proof -
  let ?p = "\<lparr>rp_productId = ''p'', rp_title = ''p'', rp_abc = None, rp_category = None, rp_onHand = 5, rp_costKes = 50,
     rp_priceKes = 100, rp_runRate = 0, rp_dead = True, rp_daysSinceSale = None, rp_plannedQty = 0\<rparr> :: recommendation_product"
  have s: "suggestedDiscountPct ?p 30 = Some 30" by code_simp
  show ?thesis using discount_keeps_margin [OF s] s by simp
qed

section \<open>Measuring the engine\<close>

text \<open>C28. The walk-forward cutoffs end for every positive step, are at most as many as asked for, at least a step
  apart, and leave the training days before each and the horizon after it inside the history.\<close>

theorem walk_forward_returns:
  assumes "0 < step" and "history \<noteq> []"
  shows "\<exists>cs. walkForwardCutoffs history horizon minTrain step maxWindows = Some cs \<and> length cs \<le> maxWindows \<and>
    sorted_wrt (\<lambda>a b. a + step * DAY_MS \<le> b) cs \<and>
    (\<forall>c \<in> set cs. earliest_of history + minTrain * DAY_MS \<le> c \<and> c + horizon * DAY_MS \<le> latest_of history + DAY_MS)"
  by (rule cutoffs_spec [OF assms])

theorem walk_forward_returns_witness: "\<exists>cs. walkForwardCutoffs demo_history 1 1 1 5 = Some cs \<and> length cs \<le> 5"
  using walk_forward_returns [of 1 demo_history 1 1 5] by (auto simp: demo_history_def)

text \<open>A challenger replaces the default method only when both were measured and its score beats the default's by
  the winning margin; otherwise the default stays.\<close>

theorem champion_needs_margin:
  "auditChampion results = CHAMPION_DEFAULT \<or>
   (\<exists>b r. results CHAMPION_DEFAULT = Some b \<and> results (auditChampion results) = Some r \<and>
      0 < ca_sampleSize b \<and> 0 < ca_sampleSize r \<and>
      score_of (on_rmsse results) r < score_of (on_rmsse results) b * (1 - CHALLENGER_WIN_MARGIN))"
  by (rule champion_cases)

section \<open>Order lines and numbers\<close>

text \<open>C26. Requests merge into one line per product: the lines name exactly the products requested, each once. A line
  recommends the sum of its product's requests rounded up to whole units, at least one, and orders that, raised to
  the whole part of the order minimum when that is more; its total is the ordered units at its unit cost.\<close>

theorem lines_merge_requests:
  "distinct (map lp_productId (buildPoLines is' moq)) \<and> lp_productId ` set (buildPoLines is' moq) = ln_productId ` set is' \<and>
   list_all (\<lambda>l. lp_recommendedQty l = max 1 \<lceil>sum_list (map ln_qty (filter (\<lambda>i. ln_productId i = lp_productId l) is'))\<rceil> \<and>
      lp_quantity l = max (lp_recommendedQty l) \<lfloor>moq\<rfloor> \<and>
      lp_lineTotalKes l = of_int (lp_quantity l) * lp_unitCostKes l) (buildPoLines is' moq)"
  using buildPoLines_distinct buildPoLines_products buildPoLines_line by (simp add: list_all_iff applyMoq_max)

text \<open>C27. While the plain numbers stay below a thousand million, the next number issued is none of the existing ones,
  and reads back as one more than the largest of them and the floor.\<close>

theorem next_number_fresh:
  assumes "max_plain ns (nat (max 0 f)) + 1 < 10 ^ 9"
  shows "nextPoNumber ns f \<notin> set ns \<and> plain_po (nextPoNumber ns f) = Some (max_plain ns (nat (max 0 f)) + 1)"
  using nextPoNumber_notin [OF assms] nextPoNumber_parses [OF assms] by blast

theorem next_number_fresh_witness: "plain_po (nextPoNumber [''PO-0007'', ''po-12x''] 3) = Some 13"
proof -
  have "max_plain [''PO-0007'', ''po-12x''] (nat (max 0 3)) = 12" by code_simp
  then show ?thesis using next_number_fresh [of "[''PO-0007'', ''po-12x'']" 3] by simp
qed

end
