(* ===== verification/PlanLimits.thy ===== *)
theory PlanLimits
  imports Prelude
begin

text \<open>
  Plan limits: \<^verbatim>\<open>packages/db/src/limits.ts\<close>, the decision of
  \<^verbatim>\<open>apps/web/lib/limits/evaluate.ts\<close>, and the daily check of
  \<^verbatim>\<open>apps/worker/src/limits-cron.ts\<close>, which owns the grace clock. A stored \<open>Json\<close> value is the
  datatype \<open>json\<close>; a plan is the name of a tier (a name inherited from \<open>Object.prototype\<close>
  is outside the model). The texts shown are datatypes of what they say.
\<close>

section \<open>Stored JSON\<close>

datatype json =
  JNull | JBool bool | JNum real | JStr string | JArr "json list" | JObj "(string \<times> json) list"

section \<open>Tiers\<close>

definition GRACE_DAYS :: int where "GRACE_DAYS = 7"

record plan_limits =
  lm_maxProducts :: real
  lm_maxMembers :: real
  lm_maxOrders30d :: real

definition PLAN_TIERS :: "string \<Rightarrow> plan_limits option" where
  "PLAN_TIERS tier =
    (if tier = ''starter'' then Some \<lparr>lm_maxProducts = 500, lm_maxMembers = 3, lm_maxOrders30d = 500\<rparr>
     else if tier = ''growth'' then Some \<lparr>lm_maxProducts = 5000, lm_maxMembers = 10, lm_maxOrders30d = 5000\<rparr>
     else if tier = ''scale'' then Some \<lparr>lm_maxProducts = 20000, lm_maxMembers = 25, lm_maxOrders30d = 20000\<rparr>
     else None)"

definition DEFAULT_PLAN :: string where "DEFAULT_PLAN = ''starter''"

record plan_source =
  ps_plan :: "string option"
  ps_planLimits :: json

text \<open>The value of a key when it is a number that is not negative, else the tier's.\<close>

definition override_of :: "(string \<times> json) list \<Rightarrow> string \<Rightarrow> real \<Rightarrow> real" where
  "override_of obj key d =
    (case map_of obj key of Some (JNum v) \<Rightarrow> if 0 \<le> v then v else d | _ \<Rightarrow> d)"

definition resolvePlanLimits :: "plan_source \<Rightarrow> plan_limits" where
  "resolvePlanLimits tenant =
    (let tier = nvl (PLAN_TIERS (nvl (ps_plan tenant) DEFAULT_PLAN)) (the (PLAN_TIERS DEFAULT_PLAN))
     in case ps_planLimits tenant of
          JObj obj \<Rightarrow>
            \<lparr>lm_maxProducts = override_of obj ''maxProducts'' (lm_maxProducts tier),
             lm_maxMembers = override_of obj ''maxMembers'' (lm_maxMembers tier),
             lm_maxOrders30d = override_of obj ''maxOrders30d'' (lm_maxOrders30d tier)\<rparr>
        | _ \<Rightarrow> tier)"

section \<open>Usage\<close>

record limit_usage =
  lu_used :: int
  lu_max :: real
  lu_over :: bool

record limit_state =
  ls_products :: limit_usage
  ls_members :: limit_usage
  ls_orders30d :: limit_usage
  ls_anyOver :: bool
  ls_graceLeftDays :: "int option"

record usage_counts =
  uc_products :: int
  uc_members :: int
  uc_orders30d :: int

definition graceLeft :: "date \<Rightarrow> date \<Rightarrow> int" where
  "graceLeft limitsExceededAt now =
    (let elapsed = now - limitsExceededAt
     in max 0 \<lceil>of_int (GRACE_DAYS * DAY_MS - elapsed) / (of_int DAY_MS :: real)\<rceil>)"

definition dimension :: "int \<Rightarrow> real \<Rightarrow> limit_usage" where
  "dimension used max' = \<lparr>lu_used = used, lu_max = max', lu_over = max' < of_int used\<rparr>"

definition computeLimitState :: "usage_counts \<Rightarrow> plan_limits \<Rightarrow> date option \<Rightarrow> date \<Rightarrow> limit_state" where
  "computeLimitState counts limits limitsExceededAt now =
    (let products = dimension (uc_products counts) (lm_maxProducts limits);
         members = dimension (uc_members counts) (lm_maxMembers limits);
         orders30d = dimension (uc_orders30d counts) (lm_maxOrders30d limits);
         anyOver = (lu_over products \<or> lu_over members \<or> lu_over orders30d)
     in \<lparr>ls_products = products, ls_members = members, ls_orders30d = orders30d, ls_anyOver = anyOver,
         ls_graceLeftDays =
           (if anyOver then (case limitsExceededAt of Some t \<Rightarrow> Some (graceLeft t now) | None \<Rightarrow> Some GRACE_DAYS)
            else None)\<rparr>)"

section \<open>Can one more fit?\<close>

datatype limit_message =
    LastOne real              \<comment> \<open>the plan includes {max}, this is the last one\<close>
  | AllUsed real              \<comment> \<open>the plan includes {max} and all of them are in use\<close>
  | OverInGrace int real int  \<comment> \<open>{used} against {max}, {days} to come back within plan\<close>
  | GraceEnded int real       \<comment> \<open>{used} but the plan includes {max}, and the grace has ended\<close>

record limit_check =
  lc_allowed :: bool
  lc_over :: bool
  lc_used :: int
  lc_max :: real
  lc_graceLeftDays :: "int option"
  lc_message :: "limit_message option"

definition limitCheck :: "limit_state \<Rightarrow> limit_usage \<Rightarrow> limit_check" where
  "limitCheck state d =
    (let used = lu_used d; max' = lu_max d; over = lu_over d;
         graceLeftDays = nvl (ls_graceLeftDays state) 0
     in if of_int used + 1 < max'
        then \<lparr>lc_allowed = True, lc_over = False, lc_used = used, lc_max = max', lc_graceLeftDays = None, lc_message = None\<rparr>
        else if of_int used + 1 = max'
        then \<lparr>lc_allowed = True, lc_over = False, lc_used = used, lc_max = max', lc_graceLeftDays = None,
              lc_message = Some (LastOne max')\<rparr>
        else if \<not> over
        then \<lparr>lc_allowed = False, lc_over = False, lc_used = used, lc_max = max', lc_graceLeftDays = None,
              lc_message = Some (AllUsed max')\<rparr>
        else if 0 < graceLeftDays
        then \<lparr>lc_allowed = True, lc_over = True, lc_used = used, lc_max = max', lc_graceLeftDays = Some graceLeftDays,
              lc_message = Some (OverInGrace used max' graceLeftDays)\<rparr>
        else \<lparr>lc_allowed = False, lc_over = True, lc_used = used, lc_max = max', lc_graceLeftDays = Some 0,
              lc_message = Some (GraceEnded used max')\<rparr>)"

section \<open>The daily check\<close>

text \<open>The fields of a workspace the check reads and keeps: the plan, the counts of the moment, the
  grace anchor and the dates of the warnings it has sent.\<close>

record limits_row =
  lr_source :: plan_source
  lr_limitsExceededAt :: "date option"
  lr_warnings :: "date list"

definition WARNING_DEDUP_DAYS :: int where "WARNING_DEDUP_DAYS = 7"

definition next_anchor :: "bool \<Rightarrow> date option \<Rightarrow> date \<Rightarrow> date option" where
  "next_anchor anyOver anchor now =
    (if anyOver \<and> anchor = None then Some now
     else if \<not> anyOver \<and> anchor \<noteq> None then None
     else anchor)"

definition checkTenantLimits :: "usage_counts \<Rightarrow> date \<Rightarrow> limits_row \<Rightarrow> (limit_state \<times> bool) \<times> limits_row" where
  "checkTenantLimits counts now row =
    (let limits = resolvePlanLimits (lr_source row);
         preliminary = computeLimitState counts limits (lr_limitsExceededAt row) now;
         anchor = next_anchor (ls_anyOver preliminary) (lr_limitsExceededAt row) now;
         state = computeLimitState counts limits anchor now;
         recent = (\<exists>t \<in> set (lr_warnings row). now - WARNING_DEDUP_DAYS * DAY_MS \<le> t);
         warned = (ls_anyOver state \<and> \<not> recent)
     in ((state, warned),
         row\<lparr>lr_limitsExceededAt := anchor,
             lr_warnings := (if warned then lr_warnings row @ [now] else lr_warnings row)\<rparr>))"

text \<open>The text of a warning: which limits are over, and the days of grace it names, if any.\<close>

datatype limit_kind = KProducts | KMembers | KOrders

definition limitWarningBody :: "limit_state \<Rightarrow> (limit_kind \<times> int \<times> real) list \<times> int option" where
  "limitWarningBody state =
    ((if lu_over (ls_products state) then [(KProducts, lu_used (ls_products state), lu_max (ls_products state))] else []) @
     (if lu_over (ls_members state) then [(KMembers, lu_used (ls_members state), lu_max (ls_members state))] else []) @
     (if lu_over (ls_orders30d state) then [(KOrders, lu_used (ls_orders30d state), lu_max (ls_orders30d state))] else []),
     (case ls_graceLeftDays state of Some g \<Rightarrow> if 0 < g then Some g else None | None \<Rightarrow> None))"

section \<open>Lemmas\<close>

lemma state_simps [simp]:
  "ls_products (computeLimitState c l t now) = dimension (uc_products c) (lm_maxProducts l)"
  "ls_members (computeLimitState c l t now) = dimension (uc_members c) (lm_maxMembers l)"
  "ls_orders30d (computeLimitState c l t now) = dimension (uc_orders30d c) (lm_maxOrders30d l)"
  "ls_anyOver (computeLimitState c l t now) \<longleftrightarrow>
     lm_maxProducts l < of_int (uc_products c) \<or> lm_maxMembers l < of_int (uc_members c) \<or> lm_maxOrders30d l < of_int (uc_orders30d c)"
  by (simp_all add: computeLimitState_def Let_def dimension_def)

lemma dimension_simps [simp]: "lu_used (dimension u m) = u" "lu_max (dimension u m) = m" "lu_over (dimension u m) = (m < of_int u)"
  by (simp_all add: dimension_def)

lemma resolved_nonneg:
  "0 \<le> lm_maxProducts (resolvePlanLimits t)" "0 \<le> lm_maxMembers (resolvePlanLimits t)" "0 \<le> lm_maxOrders30d (resolvePlanLimits t)"
  by (auto simp: resolvePlanLimits_def PLAN_TIERS_def DEFAULT_PLAN_def override_of_def nvl_def Let_def split: json.split option.split)

lemma graceLeft_range: "t \<le> now \<Longrightarrow> 0 \<le> graceLeft t now \<and> graceLeft t now \<le> GRACE_DAYS"
  by (auto simp: graceLeft_def Let_def GRACE_DAYS_def ceiling_le_iff)

lemma graceLeft_pos: "0 < graceLeft t now \<longleftrightarrow> now < t + GRACE_DAYS * DAY_MS"
proof -
  have "0 < graceLeft t now \<longleftrightarrow> 0 < of_int (GRACE_DAYS * DAY_MS - (now - t)) / (of_int DAY_MS :: real)"
    by (simp only: graceLeft_def Let_def less_max_iff_disj zero_less_ceiling less_irrefl simp_thms)
  also have "\<dots> \<longleftrightarrow> now < t + GRACE_DAYS * DAY_MS" by (simp only: zero_less_divide_iff of_int_0_less_iff) auto
  finally show ?thesis .
qed

lemma graceLeft_antimono: "now \<le> later \<Longrightarrow> graceLeft t later \<le> graceLeft t now"
  unfolding graceLeft_def Let_def by (intro max.mono order_refl ceiling_mono divide_right_mono) simp_all

text \<open>One more is allowed when it fits, and past the cap only while the grace lasts.\<close>

lemma limitCheck_allowed:
  "lc_allowed (limitCheck st (dimension u m)) \<longleftrightarrow>
     of_int u + 1 \<le> m \<or> (m < of_int u \<and> 0 < nvl (ls_graceLeftDays st) 0)"
  by (auto simp: limitCheck_def Let_def)

lemma limitCheck_message: "\<not> lc_allowed (limitCheck st d) \<Longrightarrow> lc_message (limitCheck st d) \<noteq> None"
  by (auto simp: limitCheck_def Let_def split: if_splits)

text \<open>The grace clock: after a check it runs exactly when the workspace is over, and a clock that was running
  and still runs keeps its start.\<close>

lemma next_anchor_None: "next_anchor over anchor now = None \<longleftrightarrow> \<not> over"
  by (auto simp: next_anchor_def)

lemma checked_row:
  "lr_limitsExceededAt (snd (checkTenantLimits c now row)) =
     next_anchor (ls_anyOver (fst (fst (checkTenantLimits c now row)))) (lr_limitsExceededAt row) now"
  "lr_source (snd (checkTenantLimits c now row)) = lr_source row"
  "fst (fst (checkTenantLimits c now row)) =
     computeLimitState c (resolvePlanLimits (lr_source row)) (lr_limitsExceededAt (snd (checkTenantLimits c now row))) now"
  by (simp_all add: checkTenantLimits_def Let_def)

definition spaced :: "date list \<Rightarrow> bool" where
  "spaced ts \<longleftrightarrow> sorted_wrt (\<lambda>a b. a + WARNING_DEDUP_DAYS * DAY_MS < b) ts"

lemma checked_warnings:
  "spaced (lr_warnings row) \<Longrightarrow> spaced (lr_warnings (snd (checkTenantLimits c now row)))"
  by (auto simp: checkTenantLimits_def Let_def spaced_def sorted_wrt_append not_le algebra_simps)

text \<open>The checks of a workspace, day after day.\<close>

definition run_checks :: "(usage_counts \<times> date) list \<Rightarrow> limits_row \<Rightarrow> limits_row" where
  "run_checks days row = fold (\<lambda>(c, now) r. snd (checkTenantLimits c now r)) days row"

lemma run_warnings: "spaced (lr_warnings row) \<Longrightarrow> spaced (lr_warnings (run_checks days row))"
  by (induction days arbitrary: row) (auto simp: run_checks_def checked_warnings)

lemma run_source: "lr_source (run_checks days row) = lr_source row"
  by (induction days arbitrary: row) (auto simp: run_checks_def checked_row)

lemma anyOver_anchor: "ls_anyOver (computeLimitState c l t now) = ls_anyOver (computeLimitState c l t' now')"
  by simp

lemma checked_anchor_kept:
  "ls_anyOver (computeLimitState c (resolvePlanLimits (lr_source row)) None now) \<Longrightarrow> lr_limitsExceededAt row = Some t \<Longrightarrow>
   lr_limitsExceededAt (snd (checkTenantLimits c now row)) = Some t"
  by (simp add: checkTenantLimits_def Let_def next_anchor_def)

lemma run_anchor_kept:
  "(\<And>c now. (c, now) \<in> set days \<Longrightarrow> ls_anyOver (computeLimitState c (resolvePlanLimits (lr_source row)) None now)) \<Longrightarrow>
   lr_limitsExceededAt row = Some t \<Longrightarrow> lr_limitsExceededAt (run_checks days row) = Some t"
proof (induction days arbitrary: row)
  case (Cons d days)
  obtain c now where d: "d = (c, now)" by (cases d)
  let ?row = "snd (checkTenantLimits c now row)"
  have "lr_limitsExceededAt ?row = Some t"
    by (rule checked_anchor_kept [OF _ Cons.prems(2)]) (rule Cons.prems(1), simp only: d list.set_intros)
  moreover have "ls_anyOver (computeLimitState c' (resolvePlanLimits (lr_source ?row)) None now')" if "(c', now') \<in> set days" for c' now'
    unfolding checked_row(2) by (rule Cons.prems(1)) (use that in simp)
  ultimately have "lr_limitsExceededAt (run_checks days ?row) = Some t" by (intro Cons.IH)
  then show ?case by (simp only: run_checks_def d fold_simps(2) prod.case comp_def)
qed (simp add: run_checks_def)

lemma run_append: "run_checks (xs @ ys) row = run_checks ys (run_checks xs row)"
  by (simp add: run_checks_def)

text \<open>A check that finds the workspace over starts the clock when it was not running, and one that finds it within
  plan stops it.\<close>

lemma run_anchor_starts:
  assumes "lr_limitsExceededAt row = None"
    and "list_all (\<lambda>(c, now). ls_anyOver (computeLimitState c (resolvePlanLimits (lr_source row)) None now)) ((c0, t0) # days)"
  shows "lr_limitsExceededAt (run_checks ((c0, t0) # days) row) = Some t0"
proof -
  let ?row = "snd (checkTenantLimits c0 t0 row)"
  have o: "ls_anyOver (computeLimitState c (resolvePlanLimits (lr_source row)) None now)" if "(c, now) \<in> set ((c0, t0) # days)" for c now
    using assms(2) that by (auto simp only: list_all_iff prod.case)
  have "lr_limitsExceededAt ?row = Some t0"
    using assms(1) o [of c0 t0] by (simp add: checkTenantLimits_def Let_def next_anchor_def)
  moreover have "ls_anyOver (computeLimitState c' (resolvePlanLimits (lr_source ?row)) None now')" if "(c', now') \<in> set days" for c' now'
    unfolding checked_row(2) by (rule o) (use that in simp)
  ultimately show ?thesis
    using run_anchor_kept [of days ?row t0] by (simp only: run_checks_def fold_simps(2) prod.case comp_def)
qed

lemma run_anchor_stops:
  assumes "\<not> ls_anyOver (computeLimitState c (resolvePlanLimits (lr_source row)) None now)"
  shows "lr_limitsExceededAt (run_checks (days @ [(c, now)]) row) = None"
proof -
  have "lr_limitsExceededAt (snd (checkTenantLimits c now (run_checks days row))) = None"
    using assms by (auto simp: checkTenantLimits_def Let_def next_anchor_def run_source)
  then show ?thesis by (simp add: run_append) (simp add: run_checks_def)
qed

end
