(* ===== verification/Team.thy ===== *)
theory Team
  imports PlanLimits
begin

text \<open>
  Who may do what in a workspace: \<^verbatim>\<open>apps/web/lib/auth/permissions.ts\<close>, the guard rules of
  \<^verbatim>\<open>team-guards.ts\<close> and the guarded writes of \<^verbatim>\<open>team-mutations.ts\<close>. The actor is the
  membership as the request resolved it before the transaction, so it may be stale; the
  target and the number of owners are read inside.
\<close>

section \<open>Permissions\<close>

datatype role = OWNER | ADMIN | MEMBER
datatype permission_key = ViewCosts | ManageTeam | ManageSettings | ApproveOrders

definition PERMISSION_KEYS :: "permission_key list" where
  "PERMISSION_KEYS = [ViewCosts, ManageTeam, ManageSettings, ApproveOrders]"

fun key_string :: "permission_key \<Rightarrow> string" where
  "key_string ViewCosts = ''view_costs''"
| "key_string ManageTeam = ''manage_team''"
| "key_string ManageSettings = ''manage_settings''"
| "key_string ApproveOrders = ''approve_orders''"

fun ROLE_PRESETS :: "role \<Rightarrow> permission_key list" where
  "ROLE_PRESETS OWNER = PERMISSION_KEYS"
| "ROLE_PRESETS ADMIN = PERMISSION_KEYS"
| "ROLE_PRESETS MEMBER = [ApproveOrders]"

record permission_source =
  pm_role :: role
  pm_permissions :: json

text \<open>The key a stored value names, when it names one.\<close>

definition permission_of :: "json \<Rightarrow> permission_key option" where
  "permission_of value = find (\<lambda>k. JStr (key_string k) = value) PERMISSION_KEYS"

definition resolvePermissions :: "permission_source \<Rightarrow> permission_key list" where
  "resolvePermissions m =
    (case pm_permissions m of
       JArr vs \<Rightarrow> js_set (concat (map (\<lambda>v. case permission_of v of None \<Rightarrow> [] | Some k \<Rightarrow> [k]) vs))
     | _ \<Rightarrow> js_set (ROLE_PRESETS (pm_role m)))"

definition hasPermission :: "permission_source \<Rightarrow> permission_key \<Rightarrow> bool" where
  "hasPermission m key \<longleftrightarrow> key \<in> set (resolvePermissions m)"

section \<open>Guards\<close>

datatype guard_reason =
    NoTeamAccess | OwnRole | SameRole | PlatformOnly | OwnerOnly | LastOwner | OwnPermissions | Ungrantable | MemberGone

text \<open>\<open>{ ok: true }\<close> is \<open>None\<close>, a refusal its reason.\<close>

type_synonym guard_result = "guard_reason option"

record team_actor = permission_source +
  ta_membershipId :: string

record team_target =
  tt_membershipId :: string
  tt_role :: role

definition invitableRoles :: "team_actor \<Rightarrow> role list" where
  "invitableRoles actor = (if \<not> hasPermission (permission_source.truncate actor) ManageTeam then [] else [MEMBER])"

definition actor_has :: "team_actor \<Rightarrow> permission_key \<Rightarrow> bool" where
  "actor_has actor key = hasPermission (permission_source.truncate actor) key"

definition canChangeRole :: "team_actor \<Rightarrow> team_target \<Rightarrow> role \<Rightarrow> nat \<Rightarrow> guard_result" where
  "canChangeRole actor target nextRole ownerCount =
    (if \<not> actor_has actor ManageTeam then Some NoTeamAccess
     else if ta_membershipId actor = tt_membershipId target then Some OwnRole
     else if nextRole = tt_role target then Some SameRole
     else if nextRole \<noteq> MEMBER then Some PlatformOnly
     else if tt_role target \<noteq> MEMBER \<and> pm_role actor \<noteq> OWNER then Some OwnerOnly
     else if tt_role target = OWNER \<and> ownerCount \<le> 1 then Some LastOwner
     else None)"

definition GRANTABLE_PERMISSIONS :: "permission_key list" where
  "GRANTABLE_PERMISSIONS = [ViewCosts, ManageSettings, ApproveOrders]"

definition canSetPermissions :: "team_actor \<Rightarrow> team_target \<Rightarrow> permission_key list \<Rightarrow> guard_result" where
  "canSetPermissions actor target next' =
    (if \<not> actor_has actor ManageTeam then Some NoTeamAccess
     else if ta_membershipId actor = tt_membershipId target then Some OwnPermissions
     else if tt_role target \<noteq> MEMBER \<and> pm_role actor \<noteq> OWNER then Some OwnerOnly
     else if filter (\<lambda>k. k \<notin> set GRANTABLE_PERMISSIONS) next' \<noteq> [] then Some Ungrantable
     else None)"

definition canRemoveMember :: "team_actor \<Rightarrow> team_target \<Rightarrow> nat \<Rightarrow> guard_result" where
  "canRemoveMember actor target ownerCount =
    (if \<not> actor_has actor ManageTeam then Some NoTeamAccess
     else if tt_role target \<noteq> MEMBER \<and> pm_role actor \<noteq> OWNER then Some OwnerOnly
     else if tt_role target = OWNER \<and> ownerCount \<le> 1 then Some LastOwner
     else None)"

section \<open>Guarded writes\<close>

record membership = permission_source +
  mb_id :: string
  mb_userId :: string
  mb_createdAt :: date

type_synonym team = "membership list" \<comment> \<open>the memberships of one workspace\<close>

definition find_member :: "string \<Rightarrow> team \<Rightarrow> membership option" where
  "find_member membershipId ms = find (\<lambda>m. mb_id m = membershipId) ms"

definition owner_count :: "team \<Rightarrow> nat" where
  "owner_count ms = count_where (\<lambda>m. pm_role m = OWNER) ms"

definition target_of :: "membership \<Rightarrow> team_target" where
  "target_of m = \<lparr>tt_membershipId = mb_id m, tt_role = pm_role m\<rparr>"

definition changeMemberRoleGuarded :: "team_actor \<Rightarrow> string \<Rightarrow> role \<Rightarrow> team \<Rightarrow> guard_result \<times> team" where
  "changeMemberRoleGuarded actor membershipId nextRole ms =
    (case find_member membershipId ms of
       None \<Rightarrow> (Some MemberGone, ms)
     | Some m \<Rightarrow>
         (case canChangeRole actor (target_of m) nextRole (owner_count ms) of
            Some r \<Rightarrow> (Some r, ms)
          | None \<Rightarrow> (None, update_where (\<lambda>x. mb_id x = mb_id m) (\<lambda>x. x\<lparr>pm_role := nextRole\<rparr>) ms)))"

definition setMemberPermissionsGuarded ::
  "team_actor \<Rightarrow> string \<Rightarrow> permission_key list option \<Rightarrow> team \<Rightarrow> guard_result \<times> team" where
  "setMemberPermissionsGuarded actor membershipId next' ms =
    (case find_member membershipId ms of
       None \<Rightarrow> (Some MemberGone, ms)
     | Some m \<Rightarrow>
         (case canSetPermissions actor (target_of m) (nvl next' []) of
            Some r \<Rightarrow> (Some r, ms)
          | None \<Rightarrow> (None, update_where (\<lambda>x. mb_id x = mb_id m)
              (\<lambda>x. x\<lparr>pm_permissions := (case next' of None \<Rightarrow> JNull | Some ks \<Rightarrow> JArr (map (JStr \<circ> key_string) ks))\<rparr>) ms)))"

definition removeMemberGuarded :: "team_actor \<Rightarrow> string \<Rightarrow> team \<Rightarrow> guard_result \<times> team" where
  "removeMemberGuarded actor membershipId ms =
    (case find_member membershipId ms of
       None \<Rightarrow> (Some MemberGone, ms)
     | Some m \<Rightarrow>
         (case canRemoveMember actor (target_of m) (owner_count ms) of
            Some r \<Rightarrow> (Some r, ms)
          | None \<Rightarrow> (None, filter (\<lambda>x. mb_id x \<noteq> mb_id m) ms)))"

text \<open>The action in front of a permission change drops the keys that cannot be granted.\<close>

definition setMemberPermissions :: "team_actor \<Rightarrow> string \<Rightarrow> string list option \<Rightarrow> team \<Rightarrow> guard_result \<times> team" where
  "setMemberPermissions actor membershipId permissions ms =
     setMemberPermissionsGuarded actor membershipId
       (map_option (\<lambda>ks. concat (map (\<lambda>k. case find (\<lambda>g. key_string g = k) GRANTABLE_PERMISSIONS of
          None \<Rightarrow> [] | Some g \<Rightarrow> [g]) ks)) permissions) ms"

section \<open>Permissions are as stored\<close>

lemma key_string_inject [simp]: "key_string a = key_string b \<longleftrightarrow> a = b"
  by (cases a; cases b) simp_all

lemma permission_of_key [simp]: "permission_of (JStr (key_string k)) = Some k"
  by (cases k) (simp_all add: permission_of_def PERMISSION_KEYS_def)

lemma resolve_stored: "set (resolvePermissions \<lparr>pm_role = r, pm_permissions = JArr (map (JStr \<circ> key_string) ks)\<rparr>) = set ks"
  by (auto simp: resolvePermissions_def)

lemma resolve_preset: "(\<And>vs. p \<noteq> JArr vs) \<Longrightarrow> set (resolvePermissions \<lparr>pm_role = r, pm_permissions = p\<rparr>) = set (ROLE_PRESETS r)"
  by (cases p) (auto simp: resolvePermissions_def)

lemma hasPermission_stored: "hasPermission \<lparr>pm_role = r, pm_permissions = JArr (map (JStr \<circ> key_string) ks)\<rparr> k \<longleftrightarrow> k \<in> set ks"
  by (simp only: hasPermission_def resolve_stored)

lemma preset_team: "hasPermission \<lparr>pm_role = r, pm_permissions = JNull\<rparr> ManageTeam \<longleftrightarrow> r \<noteq> MEMBER"
  by (cases r) (auto simp: hasPermission_def resolvePermissions_def PERMISSION_KEYS_def)

section \<open>The team keeps its owner and mints no manager\<close>

definition wf_team :: "team \<Rightarrow> bool" where
  "wf_team ms \<longleftrightarrow> distinct (map mb_id ms) \<and> distinct (map mb_userId ms)"

definition owned :: "team \<Rightarrow> bool" where
  "owned ms \<longleftrightarrow> (\<exists>m \<in> set ms. pm_role m = OWNER)"

definition manages :: "membership \<Rightarrow> bool" where
  "manages m = hasPermission (permission_source.truncate m) ManageTeam"

lemma find_memberD: "find_member i ms = Some m \<Longrightarrow> m \<in> set ms \<and> mb_id m = i"
  by (auto simp: find_member_def find_Some_iff)

lemma owner_count_pos: "0 < owner_count ms \<longleftrightarrow> owned ms"
  by (auto simp: owner_count_def count_where_def owned_def filter_empty_conv)

text \<open>With two owners or more, another is left when one is put aside.\<close>

lemma other_owner:
  assumes "wf_team ms" and "1 < owner_count ms"
  shows "\<exists>x \<in> set ms. pm_role x = OWNER \<and> mb_id x \<noteq> i"
proof (rule ccontr)
  assume none: "\<not> ?thesis"
  let ?os = "filter (\<lambda>m. pm_role m = OWNER) ms"
  have "set (map mb_id ?os) \<subseteq> {i}" using none by auto
  then have "card (set (map mb_id ?os)) \<le> card {i}" by (rule card_mono [rotated]) simp
  moreover have "distinct (map mb_id ?os)" using assms(1) by (simp add: wf_team_def distinct_map_filter)
  ultimately have "length ?os \<le> 1" by (metis card.insert_remove distinct_card length_map card_1_singleton_iff One_nat_def)
  with assms(2) show False by (simp add: owner_count_def count_where_def)
qed

text \<open>The steps of a workspace's own team management, by any actor: also one whose own membership has
  changed since its request began.\<close>

inductive team_step :: "team \<Rightarrow> team \<Rightarrow> bool" where
  team_role: "team_step ms (snd (changeMemberRoleGuarded actor i r ms))"
| team_permissions: "team_step ms (snd (setMemberPermissions actor i ks ms))"
| team_remove: "team_step ms (snd (removeMemberGuarded actor i ms))"

inductive_cases team_stepE: "team_step ms ms'"

lemma ids_kept:
  "(\<And>x. mb_id (f x) = mb_id x) \<Longrightarrow> (\<And>x. mb_userId (f x) = mb_userId x) \<Longrightarrow> wf_team ms \<Longrightarrow> wf_team (update_where P f ms)"
  by (simp add: wf_team_def map_update_where)

lemma team_step_wf: "team_step ms ms' \<Longrightarrow> wf_team ms \<Longrightarrow> wf_team ms'"
  by (induction rule: team_step.induct)
    (auto simp: changeMemberRoleGuarded_def setMemberPermissions_def setMemberPermissionsGuarded_def removeMemberGuarded_def
      wf_team_def map_update_where distinct_map_filter split: option.split)

lemma another_owner:
  assumes "wf_team ms" and "owned ms" and "pm_role m = OWNER \<Longrightarrow> 1 < owner_count ms" and "m \<in> set ms"
  obtains x where "x \<in> set ms" "pm_role x = OWNER" "mb_id x \<noteq> mb_id m"
proof (cases "pm_role m = OWNER")
  case True
  with other_owner [OF assms(1), of "mb_id m"] assms(3) that show ?thesis by blast
next
  case False
  obtain x where x: "x \<in> set ms" "pm_role x = OWNER" using assms(2) by (auto simp: owned_def)
  with assms(1,4) False have "mb_id x \<noteq> mb_id m" by (auto simp: wf_team_def distinct_map dest: inj_onD)
  with x that show ?thesis by blast
qed

lemma role_owned:
  assumes "wf_team ms" and "owned ms"
  shows "owned (snd (changeMemberRoleGuarded actor i r ms))"
proof (cases "find_member i ms")
  case None with assms(2) show ?thesis by (simp add: changeMemberRoleGuarded_def)
next
  case (Some m)
  note m = find_memberD [OF Some]
  show ?thesis
  proof (cases "canChangeRole actor (target_of m) r (owner_count ms)")
    case (Some g) with \<open>find_member i ms = Some m\<close> assms(2) show ?thesis by (simp add: changeMemberRoleGuarded_def)
  next
    case None
    then have c: "pm_role m = OWNER \<Longrightarrow> 1 < owner_count ms"
      by (auto simp: canChangeRole_def target_of_def split: if_splits)
    obtain x where x: "x \<in> set ms" "pm_role x = OWNER" "mb_id x \<noteq> mb_id m"
      by (rule another_owner [OF assms c]) (use m in auto)
    then have "x \<in> set (snd (changeMemberRoleGuarded actor i r ms))"
      using None \<open>find_member i ms = Some m\<close> by (force simp: changeMemberRoleGuarded_def set_update_where)
    with x show ?thesis by (auto simp: owned_def)
  qed
qed

lemma removal_owned:
  assumes "wf_team ms" and "owned ms"
  shows "owned (snd (removeMemberGuarded actor i ms))"
proof (cases "find_member i ms")
  case None with assms(2) show ?thesis by (simp add: removeMemberGuarded_def)
next
  case (Some m)
  note m = find_memberD [OF Some]
  show ?thesis
  proof (cases "canRemoveMember actor (target_of m) (owner_count ms)")
    case (Some g) with \<open>find_member i ms = Some m\<close> assms(2) show ?thesis by (simp add: removeMemberGuarded_def)
  next
    case None
    then have c: "pm_role m = OWNER \<Longrightarrow> 1 < owner_count ms"
      by (auto simp: canRemoveMember_def target_of_def split: if_splits)
    obtain x where "x \<in> set ms" "pm_role x = OWNER" "mb_id x \<noteq> mb_id m"
      by (rule another_owner [OF assms c]) (use m in auto)
    with None \<open>find_member i ms = Some m\<close> show ?thesis by (auto simp: removeMemberGuarded_def owned_def)
  qed
qed

lemma permissions_owned: "owned ms \<Longrightarrow> owned (snd (setMemberPermissions actor i ks ms))"
proof -
  have "owned (update_where P f ms)" if f: "\<And>x. pm_role (f x) = pm_role x" and o: "owned ms" for P and f :: "membership \<Rightarrow> membership"
  proof -
    obtain m where m: "m \<in> set ms" "pm_role m = OWNER" using o by (auto simp: owned_def)
    then have "(if P m then f m else m) \<in> set (update_where P f ms)" by (auto simp: set_update_where)
    moreover have "pm_role (if P m then f m else m) = OWNER" using m(2) f by simp
    ultimately show ?thesis unfolding owned_def by blast
  qed
  then show "owned ms \<Longrightarrow> owned (snd (setMemberPermissions actor i ks ms))"
    by (auto simp: setMemberPermissions_def setMemberPermissionsGuarded_def split: option.split)
qed

lemma team_step_owned: "team_step ms ms' \<Longrightarrow> wf_team ms \<Longrightarrow> owned ms \<Longrightarrow> owned ms'"
  by (induction rule: team_step.induct) (simp_all only: role_owned permissions_owned removal_owned)

text \<open>What a row may become: its role stays or drops to staff, and managing the team is not gained by staff.\<close>

definition no_gain :: "membership \<Rightarrow> membership \<Rightarrow> bool" where
  "no_gain m m' \<longleftrightarrow> mb_id m' = mb_id m \<and> mb_userId m' = mb_userId m \<and> (pm_role m' = pm_role m \<or> pm_role m' = MEMBER) \<and>
     (manages m' \<longrightarrow> manages m \<or> pm_role m \<noteq> MEMBER)"

lemma no_gain_refl: "no_gain m m"
  by (simp add: no_gain_def)

lemma manages_alt: "manages m \<longleftrightarrow> hasPermission \<lparr>pm_role = pm_role m, pm_permissions = pm_permissions m\<rparr> ManageTeam"
  by (simp add: manages_def permission_source.truncate_def)

lemma demoted_no_gain: "no_gain m (m\<lparr>pm_role := MEMBER\<rparr>)"
proof (cases "pm_permissions m")
  case (JArr vs) then show ?thesis by (simp add: no_gain_def manages_alt hasPermission_def resolvePermissions_def)
qed (simp_all add: no_gain_def manages_alt hasPermission_def resolve_preset)

lemma granted_no_gain:
  assumes "ManageTeam \<notin> set (nvl ks [])"
  shows "no_gain m (m\<lparr>pm_permissions := (case ks of None \<Rightarrow> JNull | Some ks \<Rightarrow> JArr (map (JStr \<circ> key_string) ks))\<rparr>)"
proof (cases ks)
  case None then show ?thesis by (simp add: no_gain_def manages_alt preset_team)
next
  case (Some x) with assms show ?thesis by (simp add: no_gain_def manages_alt hasPermission_stored)
qed

lemma updated_no_gain:
  assumes "\<And>x. P x \<Longrightarrow> no_gain x (f x)" and "m' \<in> set (update_where P f ms)"
  shows "\<exists>m \<in> set ms. no_gain m m'"
  using assms no_gain_refl by (auto simp: set_update_where)

lemma team_step_no_gain: "team_step ms ms' \<Longrightarrow> m' \<in> set ms' \<Longrightarrow> \<exists>m \<in> set ms. no_gain m m'"
proof (induction rule: team_step.induct)
  case (team_role ms actor i r)
  show ?case
  proof (cases "\<exists>m. find_member i ms = Some m \<and> canChangeRole actor (target_of m) r (owner_count ms) = None")
    case True
    then obtain m where m: "find_member i ms = Some m" "canChangeRole actor (target_of m) r (owner_count ms) = None" by blast
    then have "r = MEMBER" by (auto simp: canChangeRole_def split: if_splits)
    with m team_role show ?thesis
      by (intro updated_no_gain [where f = "\<lambda>x. x\<lparr>pm_role := MEMBER\<rparr>"]) (auto simp: changeMemberRoleGuarded_def demoted_no_gain)
  next
    case False
    with team_role no_gain_refl show ?thesis by (auto simp: changeMemberRoleGuarded_def split: option.splits)
  qed
next
  case (team_permissions ms actor i ks)
  let ?ks = "map_option (\<lambda>ks. concat (map (\<lambda>k. case find (\<lambda>g. key_string g = k) GRANTABLE_PERMISSIONS of None \<Rightarrow> [] | Some g \<Rightarrow> [g]) ks)) ks"
  have g: "ManageTeam \<notin> set (nvl ?ks [])" by (cases ks) (auto simp: GRANTABLE_PERMISSIONS_def split: option.splits if_splits)
  show ?case
  proof (cases "\<exists>m. find_member i ms = Some m \<and> canSetPermissions actor (target_of m) (nvl ?ks []) = None")
    case True
    then obtain m where "find_member i ms = Some m" "canSetPermissions actor (target_of m) (nvl ?ks []) = None" by blast
    with team_permissions show ?thesis
      by (intro updated_no_gain [OF granted_no_gain [OF g]]) (simp add: setMemberPermissions_def setMemberPermissionsGuarded_def)
  next
    case False
    with team_permissions no_gain_refl show ?thesis
      by (auto simp: setMemberPermissions_def setMemberPermissionsGuarded_def split: option.splits)
  qed
next
  case (team_remove ms actor i)
  then have "m' \<in> set ms" by (auto simp: removeMemberGuarded_def split: option.splits)
  with no_gain_refl show ?case by blast
qed

end
