(* ===== verification/Invites.thy ===== *)
theory Invites
  imports Team PoModel
begin

text \<open>
  How people come into a workspace: \<^verbatim>\<open>apps/web/lib/auth/invites.ts\<close>, the creation of workspaces in
  \<^verbatim>\<open>workspaces.ts\<close>, the terms in \<^verbatim>\<open>terms.ts\<close>, and the choice of the active workspace in
  \<^verbatim>\<open>auth.ts\<close>. Tables are lists of rows; tokens, ids and the clock are arguments. A workspace row
  carries its memberships and the counts its plan is measured by. Accepting is split where the code
  reads and then writes on separate statements.
\<close>

section \<open>Tables\<close>

record verification =
  vf_id :: string
  vf_identifier :: string
  vf_value :: string
  vf_expiresAt :: date

record user_row =
  us_id :: string
  us_email :: string

record workspace =
  wk_id :: string
  wk_name :: string
  wk_slug :: string
  wk_source :: plan_source
  wk_products :: int
  wk_orders30d :: int
  wk_limitsExceededAt :: "date option"
  wk_members :: team

record auth_store =
  as_workspaces :: "workspace list"
  as_users :: "user_row list"
  as_verifications :: "verification list"

definition find_workspace :: "string \<Rightarrow> auth_store \<Rightarrow> workspace option" where
  "find_workspace tenantId s = find (\<lambda>w. wk_id w = tenantId) (as_workspaces s)"

text \<open>The tenant-scoped client reads no row of a workspace that is not there.\<close>

definition members_of :: "string \<Rightarrow> auth_store \<Rightarrow> team" where
  "members_of tenantId s = (case find_workspace tenantId s of None \<Rightarrow> [] | Some w \<Rightarrow> wk_members w)"

section \<open>The plan of a workspace\<close>

definition evaluateLimits :: "string \<Rightarrow> date \<Rightarrow> auth_store \<Rightarrow> limit_state" where
  "evaluateLimits tenantId now s =
    (case find_workspace tenantId s of
       None \<Rightarrow> computeLimitState \<lparr>uc_products = 0, uc_members = 0, uc_orders30d = 0\<rparr>
         (resolvePlanLimits \<lparr>ps_plan = None, ps_planLimits = JNull\<rparr>) None now
     | Some w \<Rightarrow> computeLimitState
         \<lparr>uc_products = wk_products w, uc_members = int (length (wk_members w)), uc_orders30d = wk_orders30d w\<rparr>
         (resolvePlanLimits (wk_source w)) (wk_limitsExceededAt w) now)"

datatype limited_action = AddProduct | InviteMember

definition ACTION_DIMENSION :: "limited_action \<Rightarrow> limit_state \<Rightarrow> limit_usage" where
  "ACTION_DIMENSION action = (case action of AddProduct \<Rightarrow> ls_products | InviteMember \<Rightarrow> ls_members)"

definition checkLimit :: "string \<Rightarrow> limited_action \<Rightarrow> date \<Rightarrow> auth_store \<Rightarrow> limit_check" where
  "checkLimit tenantId action now s =
    (let state = evaluateLimits tenantId now s in limitCheck state (ACTION_DIMENSION action state))"

section \<open>Invites\<close>

definition INVITE_TTL_MS :: int where "INVITE_TTL_MS = 7 * DAY_MS"
definition IDENTIFIER_PREFIX :: string where "IDENTIFIER_PREFIX = ''invite:''"
definition PLATFORM_TENANT_ID :: string where "PLATFORM_TENANT_ID = ''platform''"

definition isPlatformTenantId :: "string \<Rightarrow> bool" where
  "isPlatformTenantId tenantId \<longleftrightarrow> tenantId = PLATFORM_TENANT_ID"

record pending_invite =
  iv_token :: string
  iv_tenantId :: string
  iv_email :: string
  iv_role :: role
  iv_expiresAt :: date

definition normalizeInviteEmail :: "string \<Rightarrow> string" where
  "normalizeInviteEmail email = js_lower (js_trim email)"

definition identifierFor :: "string \<Rightarrow> string \<Rightarrow> string" where
  "identifierFor tenantId email = IDENTIFIER_PREFIX @ tenantId @ '':'' @ email"

definition parseIdentifier :: "string \<Rightarrow> (string \<times> string) option" where
  "parseIdentifier identifier =
    (if \<not> has_prefix IDENTIFIER_PREFIX identifier then None
     else let rest = drop (length IDENTIFIER_PREFIX) identifier;
              tenant = takeWhile (\<lambda>c. c \<noteq> CHR '':'') rest;
              tail' = dropWhile (\<lambda>c. c \<noteq> CHR '':'') rest
          in if tail' = [] \<or> tenant = [] \<or> tl tail' = [] then None else Some (tenant, tl tail'))"

fun role_string :: "role \<Rightarrow> string" where
  "role_string OWNER = ''OWNER''"
| "role_string ADMIN = ''ADMIN''"
| "role_string MEMBER = ''MEMBER''"

definition invite_role :: "string \<Rightarrow> role option" where
  "invite_role value = find (\<lambda>r. role_string r = value) [OWNER, ADMIN, MEMBER]"

definition toPendingInvite :: "verification \<Rightarrow> pending_invite option" where
  "toPendingInvite row =
    (case (parseIdentifier (vf_identifier row), invite_role (vf_value row)) of
       (Some (t, e), Some r) \<Rightarrow> Some \<lparr>iv_token = vf_id row, iv_tenantId = t, iv_email = e, iv_role = r, iv_expiresAt = vf_expiresAt row\<rparr>
     | _ \<Rightarrow> None)"

text \<open>The pattern \<open>/^\S+@\S+\.\S+$/\<close>.\<close>

definition valid_email :: "string \<Rightarrow> bool" where
  "valid_email e \<longleftrightarrow> list_all (\<lambda>c. \<not> is_blank c) e \<and>
     (\<exists>i \<in> set [1..<length e]. e ! i = CHR ''@'' \<and> (\<exists>j \<in> set [i + 2..<length e - 1]. e ! j = CHR ''.''))"

datatype invite_error = BadEmail | PlatformWorkspace | AlreadyIn | NoSeat "limit_message option"

definition user_by_email :: "string \<Rightarrow> auth_store \<Rightarrow> user_row option" where
  "user_by_email email s = find (\<lambda>u. js_lower (us_email u) = js_lower email) (as_users s)"

definition is_member :: "string \<Rightarrow> string \<Rightarrow> auth_store \<Rightarrow> bool" where
  "is_member tenantId userId s \<longleftrightarrow> (\<exists>m \<in> set (members_of tenantId s). mb_userId m = userId)"

definition createInvite ::
  "string \<Rightarrow> string \<Rightarrow> role \<Rightarrow> string \<Rightarrow> date \<Rightarrow> auth_store \<Rightarrow> (invite_error + pending_invite) \<times> auth_store" where
  "createInvite tenantId rawEmail role' token now s =
    (let email = normalizeInviteEmail rawEmail;
         seat = checkLimit tenantId InviteMember now s;
         identifier = identifierFor tenantId email;
         expiresAt = now + INVITE_TTL_MS
     in if \<not> valid_email email then (Inl BadEmail, s)
        else if isPlatformTenantId tenantId then (Inl PlatformWorkspace, s)
        else if (case user_by_email email s of None \<Rightarrow> False | Some u \<Rightarrow> is_member tenantId (us_id u) s) then (Inl AlreadyIn, s)
        else if \<not> lc_allowed seat then (Inl (NoSeat (lc_message seat)), s)
        else (Inr \<lparr>iv_token = token, iv_tenantId = tenantId, iv_email = email, iv_role = role', iv_expiresAt = expiresAt\<rparr>,
              s\<lparr>as_verifications := filter (\<lambda>v. vf_identifier v \<noteq> identifier) (as_verifications s) @
                  [\<lparr>vf_id = token, vf_identifier = identifier, vf_value = role_string role', vf_expiresAt = expiresAt\<rparr>]\<rparr>))"

datatype invite_lookup = ValidInvite pending_invite string | ExpiredInvite | InvalidInvite

definition getInvite :: "string \<Rightarrow> date \<Rightarrow> auth_store \<Rightarrow> invite_lookup" where
  "getInvite token now s =
    (if token = [] then InvalidInvite
     else case find (\<lambda>v. vf_id v = token) (as_verifications s) of
       None \<Rightarrow> InvalidInvite
     | Some row \<Rightarrow>
        (case toPendingInvite row of
           None \<Rightarrow> InvalidInvite
         | Some invite \<Rightarrow>
             if iv_expiresAt invite \<le> now then ExpiredInvite
             else case find_workspace (iv_tenantId invite) s of
               None \<Rightarrow> InvalidInvite
             | Some w \<Rightarrow> ValidInvite invite (wk_name w)))"

datatype accept_error = AcceptInvalid | AcceptExpired | EmailMismatch | PlanLimit

text \<open>Accepting: the checks on one store, and the membership written on a later one.\<close>

definition accept_read :: "string \<Rightarrow> string \<Rightarrow> string \<Rightarrow> date \<Rightarrow> auth_store \<Rightarrow> accept_error + pending_invite" where
  "accept_read token userId userEmail now s =
    (case getInvite token now s of
       ExpiredInvite \<Rightarrow> Inl AcceptExpired
     | InvalidInvite \<Rightarrow> Inl AcceptInvalid
     | ValidInvite invite _ \<Rightarrow>
         if normalizeInviteEmail userEmail \<noteq> iv_email invite then Inl EmailMismatch
         else if \<not> is_member (iv_tenantId invite) userId s \<and>
                 \<not> lc_allowed (checkLimit (iv_tenantId invite) InviteMember now s) then Inl PlanLimit
         else Inr invite)"

definition new_member :: "pending_invite \<Rightarrow> string \<Rightarrow> string \<Rightarrow> date \<Rightarrow> membership" where
  "new_member invite userId newId now =
     \<lparr>pm_role = iv_role invite, pm_permissions = JNull, mb_id = newId, mb_userId = userId, mb_createdAt = now\<rparr>"

definition accept_write ::
  "pending_invite \<Rightarrow> string \<Rightarrow> string \<Rightarrow> date \<Rightarrow> auth_store \<Rightarrow> (string \<times> bool) \<times> auth_store" where
  "accept_write invite userId newId now s =
    (let alreadyMember = is_member (iv_tenantId invite) userId s;
         s1 = (if alreadyMember then s
               else s\<lparr>as_workspaces := update_where (\<lambda>w. wk_id w = iv_tenantId invite)
                   (\<lambda>w. w\<lparr>wk_members := wk_members w @ [new_member invite userId newId now]\<rparr>) (as_workspaces s)\<rparr>)
     in ((iv_tenantId invite, alreadyMember),
         s1\<lparr>as_verifications := filter (\<lambda>v. vf_id v \<noteq> iv_token invite) (as_verifications s1)\<rparr>))"

definition acceptInvite ::
  "string \<Rightarrow> string \<Rightarrow> string \<Rightarrow> string \<Rightarrow> date \<Rightarrow> auth_store \<Rightarrow> (accept_error + string \<times> bool) \<times> auth_store" where
  "acceptInvite token userId userEmail newId now s =
    (case accept_read token userId userEmail now s of
       Inl e \<Rightarrow> (Inl e, s)
     | Inr invite \<Rightarrow> (let (r, s') = accept_write invite userId newId now s in (Inr r, s')))"

definition listInvites :: "string \<Rightarrow> date \<Rightarrow> auth_store \<Rightarrow> pending_invite list \<times> auth_store" where
  "listInvites tenantId now s =
    (let prefix' = identifierFor tenantId [];
         kept = filter (\<lambda>v. \<not> (has_prefix prefix' (vf_identifier v) \<and> vf_expiresAt v \<le> now)) (as_verifications s);
         rows = filter (\<lambda>v. has_prefix prefix' (vf_identifier v)) kept
     in (concat (map (\<lambda>v. case toPendingInvite v of None \<Rightarrow> [] | Some i \<Rightarrow> [i]) rows), s\<lparr>as_verifications := kept\<rparr>))"

definition cancelInvite :: "string \<Rightarrow> string \<Rightarrow> auth_store \<Rightarrow> bool \<times> auth_store" where
  "cancelInvite tenantId token s =
    (let P = (\<lambda>v. vf_id v = token \<and> has_prefix (identifierFor tenantId []) (vf_identifier v))
     in (0 < count_where P (as_verifications s), s\<lparr>as_verifications := filter (\<lambda>v. \<not> P v) (as_verifications s)\<rparr>))"

text \<open>The action of a workspace's own people: staff only, and taken back when the email fails.\<close>

datatype invite_action_error = NoManage | RoleNotGrantable | InviteRefused invite_error | InviteEmailFailed

definition inviteTeammate ::
  "team_actor \<Rightarrow> string \<Rightarrow> string \<Rightarrow> string \<Rightarrow> string \<Rightarrow> bool \<Rightarrow> date \<Rightarrow> auth_store \<Rightarrow> invite_action_error option \<times> auth_store" where
  "inviteTeammate actor tenantId email roleName token emailSent now s =
    (if \<not> actor_has actor ManageTeam then (Some NoManage, s)
     else case (if roleName = ''ADMIN'' then Some ADMIN else if roleName = ''MEMBER'' then Some MEMBER else None) of
       None \<Rightarrow> (Some RoleNotGrantable, s)
     | Some r \<Rightarrow>
        if r \<notin> set (invitableRoles actor) then (Some RoleNotGrantable, s)
        else (case createInvite tenantId email r token now s of
            (Inl e, s1) \<Rightarrow> (Some (InviteRefused e), s1)
          | (Inr invite, s1) \<Rightarrow>
              if emailSent then (None, s1) else (Some InviteEmailFailed, snd (cancelInvite tenantId (iv_token invite) s1))))"

section \<open>The active workspace\<close>

definition memberships_of :: "string \<Rightarrow> auth_store \<Rightarrow> (workspace \<times> membership) list" where
  "memberships_of userId s =
     concat (map (\<lambda>w. map (Pair w) (filter (\<lambda>m. mb_userId m = userId) (wk_members w))) (as_workspaces s))"

definition listMemberships :: "string \<Rightarrow> auth_store \<Rightarrow> (workspace \<times> membership) list" where
  "listMemberships userId s = sort_by (by_key (mb_createdAt \<circ> snd)) (memberships_of userId s)"

definition resolveActiveMembership :: "string \<Rightarrow> string option \<Rightarrow> auth_store \<Rightarrow> (workspace \<times> membership) option" where
  "resolveActiveMembership userId preferredTenantId s =
    (let earliest = (case listMemberships userId s of [] \<Rightarrow> None | m # _ \<Rightarrow> Some m)
     in case preferredTenantId of
          None \<Rightarrow> earliest
        | Some t \<Rightarrow> if t = [] then earliest
            else (case find (\<lambda>wm. wk_id (fst wm) = t) (memberships_of userId s) of Some m \<Rightarrow> Some m | None \<Rightarrow> earliest))"

definition safeInternalPath :: "string option \<Rightarrow> string option" where
  "safeInternalPath path =
    (case path of None \<Rightarrow> None
     | Some p \<Rightarrow> if p = [] \<or> \<not> has_prefix ''/'' p \<or> has_prefix ''//'' p then None else Some p)"

section \<open>Creating a workspace\<close>

definition WORKSPACE_NAME_MAX :: nat where "WORKSPACE_NAME_MAX = 60"
definition SLUG_MAX :: nat where "SLUG_MAX = 40"
definition SLUG_ATTEMPTS :: nat where "SLUG_ATTEMPTS = 25"

definition slug_char :: "char \<Rightarrow> bool" where
  "slug_char c \<longleftrightarrow> (97 \<le> char_code c \<and> char_code c \<le> 122) \<or> (48 \<le> char_code c \<and> char_code c \<le> 57)"

text \<open>\<open>replace(/[^a-z0-9]+/g, "-")\<close>, and a run of blanks to one.\<close>

function replace_runs :: "(char \<Rightarrow> bool) \<Rightarrow> char \<Rightarrow> string \<Rightarrow> string" where
  "replace_runs keep r [] = []"
| "replace_runs keep r (c # cs) =
    (if keep c then c # replace_runs keep r cs else r # replace_runs keep r (dropWhile (\<lambda>x. \<not> keep x) cs))"
  by pat_completeness auto
termination
  by (relation "measure (\<lambda>(keep, r, s). length s)") (auto simp: less_Suc_eq_le length_dropWhile_le)

definition trim_dashes :: "string \<Rightarrow> string" where
  "trim_dashes s = (let d = dropWhile (\<lambda>c. c = CHR ''-'') in rev (d (rev (d s))))"

text \<open>\<open>nfkd\<close> is Unicode normalisation.\<close>

definition workspaceSlug :: "(string \<Rightarrow> string) \<Rightarrow> string \<Rightarrow> string" where
  "workspaceSlug nfkd name =
    (let base = trim_dashes (take SLUG_MAX (replace_runs slug_char (CHR ''-'') (js_lower (nfkd name))))
     in if base = [] then ''workspace'' else base)"

definition slug_attempt :: "string \<Rightarrow> nat \<Rightarrow> string" where
  "slug_attempt base attempt = (if attempt = 1 then base else base @ ''-'' @ show_nat attempt)"

datatype workspace_error = NameTooShort | NameTooLong | NameTaken

definition clean_name :: "string \<Rightarrow> string" where
  "clean_name name = replace_runs (\<lambda>c. \<not> is_blank c) (CHR '' '') (js_trim name)"

definition fresh_workspace :: "string \<Rightarrow> string \<Rightarrow> string \<Rightarrow> string option \<Rightarrow> string \<Rightarrow> date \<Rightarrow> workspace" where
  "fresh_workspace tenantId name slug userId newId now =
    \<lparr>wk_id = tenantId, wk_name = name, wk_slug = slug,
     wk_source = \<lparr>ps_plan = Some DEFAULT_PLAN, ps_planLimits = JNull\<rparr>,
     wk_products = 0, wk_orders30d = 0, wk_limitsExceededAt = None,
     wk_members = (case userId of None \<Rightarrow> []
       | Some u \<Rightarrow> [\<lparr>pm_role = OWNER, pm_permissions = JNull, mb_id = newId, mb_userId = u, mb_createdAt = now\<rparr>])\<rparr>"

definition createWorkspace ::
  "(string \<Rightarrow> string) \<Rightarrow> string option \<Rightarrow> string \<Rightarrow> string \<Rightarrow> string \<Rightarrow> date \<Rightarrow> auth_store \<Rightarrow>
   (workspace_error + string \<times> string \<times> bool) \<times> auth_store" where
  "createWorkspace nfkd userId rawName tenantId newId now s =
    (let name = clean_name rawName;
         owned' = (case userId of None \<Rightarrow> None
           | Some u \<Rightarrow> find (\<lambda>(w, m). pm_role m = OWNER \<and> js_lower (wk_name w) = js_lower name) (listMemberships u s));
         base = workspaceSlug nfkd name;
         free = find (\<lambda>a. slug_attempt base a \<notin> wk_slug ` set (as_workspaces s)) [1..<SLUG_ATTEMPTS + 1]
     in if length name < 2 then (Inl NameTooShort, s)
        else if WORKSPACE_NAME_MAX < length name then (Inl NameTooLong, s)
        else case owned' of
          Some (w, _) \<Rightarrow> (Inr (wk_id w, wk_slug w, False), s)
        | None \<Rightarrow>
           (case free of
              None \<Rightarrow> (Inl NameTaken, s)
            | Some a \<Rightarrow> (Inr (tenantId, slug_attempt base a, True),
                s\<lparr>as_workspaces := as_workspaces s @ [fresh_workspace tenantId name (slug_attempt base a) userId newId now]\<rparr>)))"

section \<open>Terms\<close>

definition TERMS_VERSION :: string where "TERMS_VERSION = ''2026-07-29''"

record terms_stamp =
  tr_acceptedTermsAt :: "date option"
  tr_acceptedTermsVersion :: "string option"

record terms_acceptance =
  ta_current :: bool
  ta_at :: "date option"
  ta_version :: "string option"

definition readTermsAcceptance :: "terms_stamp \<Rightarrow> terms_acceptance" where
  "readTermsAcceptance m =
    \<lparr>ta_current = (tr_acceptedTermsAt m \<noteq> None \<and> tr_acceptedTermsVersion m = Some TERMS_VERSION),
     ta_at = tr_acceptedTermsAt m, ta_version = tr_acceptedTermsVersion m\<rparr>"

definition recordTermsAcceptance :: "date \<Rightarrow> terms_stamp \<Rightarrow> terms_stamp \<times> terms_acceptance" where
  "recordTermsAcceptance now m =
    (let updated = m\<lparr>tr_acceptedTermsAt := Some now, tr_acceptedTermsVersion := Some TERMS_VERSION\<rparr>
     in (updated, readTermsAcceptance updated))"

definition hasAcceptedCurrentTerms :: "terms_stamp list \<Rightarrow> bool" where
  "hasAcceptedCurrentTerms ms \<longleftrightarrow> (\<exists>m \<in> set ms. ta_current (readTermsAcceptance m))"

definition shouldShowTermsGate :: "terms_stamp option \<Rightarrow> terms_stamp list \<Rightarrow> bool" where
  "shouldShowTermsGate m ms = (case m of None \<Rightarrow> False | Some _ \<Rightarrow> \<not> hasAcceptedCurrentTerms ms)"

definition effectiveTermsAcceptance :: "terms_stamp \<Rightarrow> terms_stamp list \<Rightarrow> terms_acceptance" where
  "effectiveTermsAcceptance active ms =
    (case sort_by (\<lambda>a b. nvl (tr_acceptedTermsAt b) 0 \<le> nvl (tr_acceptedTermsAt a) 0) (filter (\<lambda>m. ta_current (readTermsAcceptance m)) ms) of
       [] \<Rightarrow> readTermsAcceptance active
     | current # _ \<Rightarrow> readTermsAcceptance current)"

section \<open>Identifiers\<close>

lemma has_prefix_append [simp]: "has_prefix p (p @ s)"
  by (induction p) simp_all

lemma has_prefix_iff: "has_prefix p s \<longleftrightarrow> (\<exists>r. s = p @ r)"
  by (induction p s rule: has_prefix.induct) auto

lemma identifier_roundtrip:
  assumes "CHR '':'' \<notin> set t" and "t \<noteq> []" and "e \<noteq> []"
  shows "parseIdentifier (identifierFor t e) = Some (t, e)"
proof -
  have "takeWhile (\<lambda>c. c \<noteq> CHR '':'') (t @ '':'' @ e) = t" "dropWhile (\<lambda>c. c \<noteq> CHR '':'') (t @ '':'' @ e) = '':'' @ e"
    using assms(1) by (auto simp: takeWhile_append dropWhile_append)
  then show ?thesis using assms(2,3) by (simp add: parseIdentifier_def identifierFor_def Let_def)
qed

lemma identifier_inject:
  assumes "CHR '':'' \<notin> set t" "CHR '':'' \<notin> set t'" and "identifierFor t e = identifierFor t' e'"
  shows "t = t' \<and> e = e'"
proof -
  have eq: "t @ '':'' @ e = t' @ '':'' @ e'" using assms(3) by (simp add: identifierFor_def)
  have "takeWhile (\<lambda>c. c \<noteq> CHR '':'') (t @ '':'' @ e) = t" "takeWhile (\<lambda>c. c \<noteq> CHR '':'') (t' @ '':'' @ e') = t'"
    using assms(1,2) by (auto simp: takeWhile_append)
  with eq have "t = t'" by simp
  with eq show ?thesis by simp
qed

lemma invite_role_string [simp]: "invite_role (role_string r) = Some r"
  by (cases r) (simp_all add: invite_role_def)

lemma js_lower_valid: "valid_email e \<Longrightarrow> e \<noteq> []"
  by (auto simp: valid_email_def)

section \<open>Invites\<close>

text \<open>No two invites share a token or an identifier, so one workspace and email have one live invite.\<close>

definition invites_ok :: "auth_store \<Rightarrow> bool" where
  "invites_ok s \<longleftrightarrow> distinct (map vf_id (as_verifications s)) \<and> distinct (map vf_identifier (as_verifications s))"

lemma invites_ok_filter: "invites_ok s \<Longrightarrow> invites_ok (s\<lparr>as_verifications := filter P (as_verifications s)\<rparr>)"
  by (simp add: invites_ok_def distinct_map_filter)

lemma createInvite_ok:
  assumes "invites_ok s" and "token \<notin> vf_id ` set (as_verifications s)"
  shows "invites_ok (snd (createInvite t e r token now s))"
  using assms by (auto simp: createInvite_def Let_def invites_ok_def distinct_map_filter split: option.split)

lemma createInvite_Some:
  assumes "createInvite t e r token now s = (Inr iv, s')"
  shows "iv = \<lparr>iv_token = token, iv_tenantId = t, iv_email = normalizeInviteEmail e, iv_role = r, iv_expiresAt = now + INVITE_TTL_MS\<rparr>"
    "valid_email (normalizeInviteEmail e)"
    "s' = s\<lparr>as_verifications := filter (\<lambda>v. vf_identifier v \<noteq> identifierFor t (normalizeInviteEmail e)) (as_verifications s) @
        [\<lparr>vf_id = token, vf_identifier = identifierFor t (normalizeInviteEmail e), vf_value = role_string r, vf_expiresAt = now + INVITE_TTL_MS\<rparr>]\<rparr>"
  using assms by (auto simp: createInvite_def Let_def split: if_splits option.splits)

lemma find_snoc: "(\<And>x. x \<in> set xs \<Longrightarrow> \<not> P x) \<Longrightarrow> P y \<Longrightarrow> find P (xs @ [y]) = Some y"
  by (induction xs) auto

text \<open>A token that was issued finds its invite until it expires.\<close>

lemma issued_found:
  assumes "createInvite t e r token now s = (Inr iv, s')" and "token \<notin> vf_id ` set (as_verifications s)" and "token \<noteq> []"
    and "CHR '':'' \<notin> set t" and "find_workspace t s = Some w" and "later < now + INVITE_TTL_MS" and "t \<noteq> []"
  shows "getInvite token later s' = ValidInvite iv (wk_name w)"
proof -
  note c = createInvite_Some [OF assms(1)]
  let ?row = "\<lparr>vf_id = token, vf_identifier = identifierFor t (normalizeInviteEmail e), vf_value = role_string r, vf_expiresAt = now + INVITE_TTL_MS\<rparr>"
  have "find (\<lambda>v. vf_id v = token) (as_verifications s') = Some ?row"
    unfolding c(3) using assms(2) by (auto intro!: find_snoc)
  moreover have "toPendingInvite ?row = Some iv"
    using identifier_roundtrip [OF assms(4,7) js_lower_valid [OF c(2)]] by (simp add: toPendingInvite_def c(1))
  moreover have "find_workspace t s' = Some w" using assms(5) by (simp add: c(3) find_workspace_def)
  ultimately show ?thesis using assms(3,6) by (simp add: getInvite_def c(1))
qed

lemma accept_keeps_invites: "invites_ok s \<Longrightarrow> invites_ok (snd (acceptInvite token u em i now s))"
  by (auto simp: acceptInvite_def accept_write_def Let_def invites_ok_def distinct_map_filter split: sum.split prod.split)

lemma cancel_keeps_invites: "invites_ok s \<Longrightarrow> invites_ok (snd (cancelInvite t token s))"
  by (simp add: cancelInvite_def Let_def invites_ok_filter)

lemma list_keeps_invites: "invites_ok s \<Longrightarrow> invites_ok (snd (listInvites t now s))"
  by (simp add: listInvites_def Let_def invites_ok_filter)

section \<open>Seats\<close>

definition seats_ok :: "string \<Rightarrow> auth_store \<Rightarrow> bool" where
  "seats_ok t s \<longleftrightarrow> (case find_workspace t s of None \<Rightarrow> True
     | Some w \<Rightarrow> of_int (int (length (wk_members w))) \<le> lm_maxMembers (resolvePlanLimits (wk_source w)))"

lemma check_seat:
  "find_workspace t s = Some w \<Longrightarrow> seats_ok t s \<Longrightarrow> lc_allowed (checkLimit t InviteMember now s) \<Longrightarrow>
   of_int (int (length (wk_members w))) + 1 \<le> lm_maxMembers (resolvePlanLimits (wk_source w))"
  by (auto simp: checkLimit_def Let_def ACTION_DIMENSION_def evaluateLimits_def limitCheck_allowed seats_ok_def)

lemma find_update:
  assumes "\<And>w. wk_id (f w) = wk_id w"
  shows "find (\<lambda>w. wk_id w = t) (update_where (\<lambda>w. wk_id w = x) f ws) =
    map_option (\<lambda>w. if x = t then f w else w) (find (\<lambda>w. wk_id w = t) ws)"
  using assms by (induction ws) auto

lemma accept_seats:
  assumes "seats_ok t s"
  shows "seats_ok t (snd (acceptInvite token u em i now s))"
proof (cases "accept_read token u em now s")
  case (Inl e) with assms show ?thesis by (simp add: acceptInvite_def)
next
  case (Inr iv)
  have a: "is_member (iv_tenantId iv) u s \<or> lc_allowed (checkLimit (iv_tenantId iv) InviteMember now s)"
    using Inr by (auto simp: accept_read_def split: invite_lookup.splits if_splits)
  show ?thesis
  proof (cases "is_member (iv_tenantId iv) u s \<or> iv_tenantId iv \<noteq> t")
    case True
    with assms Inr show ?thesis
      by (auto simp: acceptInvite_def accept_write_def Let_def seats_ok_def find_workspace_def find_update split: option.split)
  next
    case False
    with a have al: "lc_allowed (checkLimit t InviteMember now s)" by auto
    show ?thesis
    proof (cases "find_workspace t s")
      case None
      with assms Inr False show ?thesis
        by (simp add: acceptInvite_def accept_write_def Let_def seats_ok_def find_workspace_def find_update)
    next
      case (Some w)
      with check_seat [OF Some assms al] Inr False show ?thesis
        by (simp add: acceptInvite_def accept_write_def Let_def seats_ok_def find_workspace_def find_update)
    qed
  qed
qed

text \<open>What a check that let an acceptance through has read, and what a later check reads of another invite
  once the first membership is written.\<close>

lemma accept_read_Inr:
  assumes "accept_read token u em now s = Inr iv"
  shows "\<exists>row w. token \<noteq> [] \<and> find (\<lambda>v. vf_id v = token) (as_verifications s) = Some row \<and> toPendingInvite row = Some iv \<and>
    now < iv_expiresAt iv \<and> find_workspace (iv_tenantId iv) s = Some w \<and> normalizeInviteEmail em = iv_email iv \<and>
    iv_token iv = token"
proof -
  obtain n where g: "getInvite token now s = ValidInvite iv n" and e: "normalizeInviteEmail em = iv_email iv"
    using assms by (auto simp: accept_read_def split: invite_lookup.splits if_splits)
  then obtain row w where r: "token \<noteq> []" "find (\<lambda>v. vf_id v = token) (as_verifications s) = Some row" "toPendingInvite row = Some iv"
    "now < iv_expiresAt iv" "find_workspace (iv_tenantId iv) s = Some w"
    by (auto simp: getInvite_def not_le split: if_splits option.splits)
  moreover have "vf_id row = token" using r(2) by (auto simp: find_Some_iff)
  then have "iv_token iv = token" using r(3) by (auto simp: toPendingInvite_def split: option.splits prod.splits)
  ultimately show ?thesis using e by blast
qed

lemma find_filter_other: "(\<And>x. P x \<Longrightarrow> Q x) \<Longrightarrow> find P (filter Q xs) = find P xs"
  by (induction xs) auto

lemma accept_read_after_write:
  assumes "accept_read token u em now s = Inr iv" and "iv_tenantId iv = t" and "token \<noteq> iv_token iv0"
    and "find_workspace t (snd (accept_write iv0 u0 i0 now0 s)) = Some w"
    and "\<not> is_member t u (snd (accept_write iv0 u0 i0 now0 s))"
    and "\<not> lc_allowed (checkLimit t InviteMember now (snd (accept_write iv0 u0 i0 now0 s)))"
  shows "accept_read token u em now (snd (accept_write iv0 u0 i0 now0 s)) = Inl PlanLimit"
proof -
  from accept_read_Inr [OF assms(1)] obtain row where r: "token \<noteq> []"
    "find (\<lambda>v. vf_id v = token) (as_verifications s) = Some row" "toPendingInvite row = Some iv"
    "now < iv_expiresAt iv" "normalizeInviteEmail em = iv_email iv" by blast
  have "find (\<lambda>v. vf_id v = token) (as_verifications (snd (accept_write iv0 u0 i0 now0 s))) = Some row"
    using r(2) assms(3) by (simp add: accept_write_def Let_def find_filter_other)
  then have "getInvite token now (snd (accept_write iv0 u0 i0 now0 s)) = ValidInvite iv (wk_name w)"
    using r assms(2,4) by (simp add: getInvite_def)
  then show ?thesis using r(5) assms(2,5,6) by (simp add: accept_read_def)
qed

section \<open>Slugs\<close>

lemma replace_runs_set: "c \<in> set (replace_runs keep r s) \<Longrightarrow> keep c \<or> c = r"
  by (induction keep r s rule: replace_runs.induct) (auto split: if_splits)

lemma trim_dashes_set: "set (trim_dashes s) \<subseteq> set s"
proof
  fix x assume "x \<in> set (trim_dashes s)"
  then have "x \<in> set (dropWhile (\<lambda>c. c = CHR ''-'') (rev (dropWhile (\<lambda>c. c = CHR ''-'') s)))" by (simp add: trim_dashes_def Let_def)
  from set_dropWhileD [OF this] have "x \<in> set (dropWhile (\<lambda>c. c = CHR ''-'') s)" by simp
  from set_dropWhileD [OF this] show "x \<in> set s" .
qed

lemma trim_dashes_length: "length (trim_dashes s) \<le> length s"
  by (simp add: trim_dashes_def Let_def) (metis length_dropWhile_le length_rev order_trans)

lemma trim_dashes_ends:
  assumes "trim_dashes s \<noteq> []"
  shows "hd (trim_dashes s) \<noteq> CHR ''-'' \<and> last (trim_dashes s) \<noteq> CHR ''-''"
proof -
  let ?d = "dropWhile (\<lambda>c. c = CHR ''-'')"
  let ?x = "?d s" and ?y = "?d (rev (?d s))"
  have t: "trim_dashes s = rev ?y" by (simp add: trim_dashes_def Let_def)
  have y: "?y \<noteq> []" using assms t by simp
  then have l: "last (trim_dashes s) \<noteq> CHR ''-''" using hd_dropWhile [OF y] by (simp add: t last_rev)
  obtain zs where zs: "rev ?x = zs @ ?y" by (metis takeWhile_dropWhile_id)
  then have "?x = rev ?y @ rev zs" by (metis rev_append rev_rev_ident)
  then have "hd ?x = hd (rev ?y)" using y by (metis hd_append2 rev_is_Nil_conv)
  moreover have "?x \<noteq> []" using y by (metis dropWhile.simps(1) rev.simps(1))
  ultimately have "hd (rev ?y) \<noteq> CHR ''-''" using hd_dropWhile [of "\<lambda>c. c = CHR ''-''" s] by simp
  with l t show ?thesis by simp
qed

lemma slug_shape:
  "workspaceSlug nfkd name \<noteq> []" "length (workspaceSlug nfkd name) \<le> SLUG_MAX"
  "c \<in> set (workspaceSlug nfkd name) \<Longrightarrow> slug_char c \<or> c = CHR ''-''"
  "hd (workspaceSlug nfkd name) \<noteq> CHR ''-''" "last (workspaceSlug nfkd name) \<noteq> CHR ''-''"
proof -
  let ?r = "take SLUG_MAX (replace_runs slug_char (CHR ''-'') (js_lower (nfkd name)))"
  have s: "workspaceSlug nfkd name = (if trim_dashes ?r = [] then ''workspace'' else trim_dashes ?r)"
    by (simp add: workspaceSlug_def Let_def)
  show "workspaceSlug nfkd name \<noteq> []" "length (workspaceSlug nfkd name) \<le> SLUG_MAX"
    using trim_dashes_length [of ?r] by (auto simp: s SLUG_MAX_def)
  show "slug_char c \<or> c = CHR ''-''" if "c \<in> set (workspaceSlug nfkd name)"
  proof (cases "trim_dashes ?r = []")
    case True with that show ?thesis by (auto simp: s slug_char_def char_code_def)
  next
    case False
    with that trim_dashes_set [of ?r] have "c \<in> set ?r" by (auto simp: s)
    then show ?thesis by (auto dest: in_set_takeD replace_runs_set)
  qed
  show "hd (workspaceSlug nfkd name) \<noteq> CHR ''-''" "last (workspaceSlug nfkd name) \<noteq> CHR ''-''"
    using trim_dashes_ends [of ?r] by (auto simp: s)
qed

definition workspaces_ok :: "auth_store \<Rightarrow> bool" where
  "workspaces_ok s \<longleftrightarrow> distinct (map wk_id (as_workspaces s)) \<and> distinct (map wk_slug (as_workspaces s))"

lemma createWorkspace_ok:
  assumes "workspaces_ok s" and "tenantId \<notin> wk_id ` set (as_workspaces s)"
  shows "workspaces_ok (snd (createWorkspace nfkd u name tenantId i now s))"
  using assms by (auto simp: createWorkspace_def Let_def workspaces_ok_def fresh_workspace_def find_Some_iff split: option.split)

section \<open>Terms\<close>

lemma effective_current:
  assumes "active \<in> set ms"
  shows "ta_current (effectiveTermsAcceptance active ms) \<longleftrightarrow> hasAcceptedCurrentTerms ms"
proof (cases "sort_by (\<lambda>a b. nvl (tr_acceptedTermsAt b) 0 \<le> nvl (tr_acceptedTermsAt a) 0) (filter (\<lambda>m. ta_current (readTermsAcceptance m)) ms)")
  case Nil
  then have "filter (\<lambda>m. ta_current (readTermsAcceptance m)) ms = []" by (metis length_sort_by length_0_conv)
  then have "\<not> hasAcceptedCurrentTerms ms" "\<not> ta_current (readTermsAcceptance active)"
    using assms by (auto simp: hasAcceptedCurrentTerms_def filter_empty_conv)
  with Nil show ?thesis by (simp add: effectiveTermsAcceptance_def)
next
  case (Cons c cs)
  then have "c \<in> set (filter (\<lambda>m. ta_current (readTermsAcceptance m)) ms)" by (metis list.set_intros(1) set_sort_by)
  with Cons show ?thesis by (auto simp: effectiveTermsAcceptance_def hasAcceptedCurrentTerms_def)
qed

end
