(* ===== verification/AccountProperties.thy ===== *)
theory AccountProperties
  imports Invites
begin

text \<open>
  The properties of teams, invites and plan limits, with their witnesses on a small
  workspace of two members.
\<close>

section \<open>The team\<close>

definition demo_person :: "string \<Rightarrow> role \<Rightarrow> membership" where
  "demo_person i r = \<lparr>pm_role = r, pm_permissions = JNull, mb_id = i, mb_userId = i, mb_createdAt = 0\<rparr>"

definition demo_team :: team where
  "demo_team = [demo_person ''a'' OWNER, demo_person ''b'' OWNER, demo_person ''c'' MEMBER]"

definition acting :: "membership \<Rightarrow> team_actor" where
  "acting m = \<lparr>pm_role = pm_role m, pm_permissions = pm_permissions m, ta_membershipId = mb_id m\<rparr>"

lemma demo_team_wf: "wf_team demo_team" "owned demo_team"
  by (simp_all add: wf_team_def owned_def demo_team_def demo_person_def)

lemma team_steps_wf: "team_step\<^sup>*\<^sup>* ms ms' \<Longrightarrow> wf_team ms \<Longrightarrow> wf_team ms'"
  by (induction rule: rtranclp_induct) (auto intro: team_step_wf)

lemma team_steps_owned: "team_step\<^sup>*\<^sup>* ms ms' \<Longrightarrow> wf_team ms \<Longrightarrow> owned ms \<Longrightarrow> owned ms'"
  by (induction rule: rtranclp_induct) (auto intro: team_step_owned team_steps_wf)

lemma no_gain_trans: "no_gain a b \<Longrightarrow> no_gain b c \<Longrightarrow> no_gain a c"
  by (auto simp: no_gain_def)

lemma team_steps_no_gain: "team_step\<^sup>*\<^sup>* ms ms' \<Longrightarrow> m' \<in> set ms' \<Longrightarrow> \<exists>m \<in> set ms. no_gain m m'"
proof (induction arbitrary: m' rule: rtranclp_induct)
  case base then show ?case using no_gain_refl by blast
next
  case (step y z)
  from team_step_no_gain [OF step(2,4)] obtain m where "m \<in> set y" "no_gain m m'" by blast
  with step(3) no_gain_trans show ?case by blast
qed

lemma demo_team_steps:
  "team_step\<^sup>*\<^sup>* demo_team (snd (removeMemberGuarded (acting (demo_person ''b'' OWNER)) ''a''
     (snd (changeMemberRoleGuarded (acting (demo_person ''a'' OWNER)) ''b'' MEMBER demo_team))))"
  by (rule rtranclp.rtrancl_into_rtrancl [OF r_into_rtranclp [of team_step, OF team_role] team_remove])

text \<open>C29. A workspace with an owner keeps one, whatever its people do to one another in any order, and even
  when the actor of a request has lost their own role since the request began.\<close>

theorem team_keeps_an_owner:
  assumes "team_step\<^sup>*\<^sup>* ms ms'" and "wf_team ms" and "owned ms"
  shows "owned ms'"
  by (rule team_steps_owned [OF assms])

theorem team_keeps_an_owner_witness:
  "owned (snd (removeMemberGuarded (acting (demo_person ''b'' OWNER)) ''a''
     (snd (changeMemberRoleGuarded (acting (demo_person ''a'' OWNER)) ''b'' MEMBER demo_team))))"
  by (rule team_keeps_an_owner [OF demo_team_steps demo_team_wf])

text \<open>C30. Nobody is promoted from inside a workspace: through any number of role changes, permission changes and
  removals every member is one who was there, with the same role or demoted to staff, and no staff member comes
  to manage the team; what a manager may invite is staff only.\<close>

theorem nobody_is_promoted:
  assumes "team_step\<^sup>*\<^sup>* ms ms'" and "m' \<in> set ms'"
  shows "(\<exists>m \<in> set ms. mb_id m = mb_id m' \<and> mb_userId m = mb_userId m' \<and> (pm_role m' = pm_role m \<or> pm_role m' = MEMBER) \<and>
      (manages m' \<longrightarrow> manages m \<or> pm_role m \<noteq> MEMBER)) \<and> set (invitableRoles actor) \<subseteq> {MEMBER}"
  using team_steps_no_gain [OF assms] by (auto simp: no_gain_def invitableRoles_def)

theorem nobody_is_promoted_witness:
  "\<exists>m \<in> set demo_team. mb_id m = ''c'' \<and> (MEMBER = pm_role m \<or> MEMBER = MEMBER)"
proof -
  let ?ms = "snd (removeMemberGuarded (acting (demo_person ''b'' OWNER)) ''a''
     (snd (changeMemberRoleGuarded (acting (demo_person ''a'' OWNER)) ''b'' MEMBER demo_team)))"
  have "list_ex (\<lambda>m. mb_id m = ''c'' \<and> pm_role m = MEMBER) ?ms" by code_simp
  then obtain m' where "m' \<in> set ?ms" "mb_id m' = ''c''" "pm_role m' = MEMBER" by (auto simp: list_ex_iff)
  with nobody_is_promoted [OF demo_team_steps, of m'] show ?thesis by metis
qed

section \<open>Invites\<close>

definition demo_workspace :: workspace where
  "demo_workspace = \<lparr>wk_id = ''w'', wk_name = ''Shop'', wk_slug = ''shop'',
     wk_source = \<lparr>ps_plan = Some ''starter'', ps_planLimits = JNull\<rparr>, wk_products = 10, wk_orders30d = 0,
     wk_limitsExceededAt = None, wk_members = [demo_person ''a'' OWNER, demo_person ''b'' MEMBER]\<rparr>"

definition demo_auth :: auth_store where
  "demo_auth = \<lparr>as_workspaces = [demo_workspace], as_users = [], as_verifications = []\<rparr>"

definition demo_invited :: auth_store where
  "demo_invited = snd (createInvite ''w'' ''New@x.io'' MEMBER ''t1'' 0 demo_auth)"

definition demo_invite :: pending_invite where
  "demo_invite = \<lparr>iv_token = ''t1'', iv_tenantId = ''w'', iv_email = ''new@x.io'', iv_role = MEMBER, iv_expiresAt = INVITE_TTL_MS\<rparr>"

lemma demo_invite_created: "createInvite ''w'' ''New@x.io'' MEMBER ''t1'' 0 demo_auth = (Inr demo_invite, demo_invited)"
  by (simp add: demo_invited_def prod_eq_iff) code_simp

lemma demo_workspace_found: "find_workspace ''w'' demo_auth = Some demo_workspace"
  by (simp add: find_workspace_def demo_auth_def demo_workspace_def)

lemma accepted_member:
  assumes "find_workspace t s = Some w" and "iv_tenantId iv = t" and "\<not> is_member t u s"
  shows "find_workspace t (snd (accept_write iv u i now s)) = Some (w\<lparr>wk_members := wk_members w @ [new_member iv u i now]\<rparr>)"
  using assms by (simp add: accept_write_def Let_def find_workspace_def find_update)

text \<open>C31. An invite works end to end: until it expires, the person it was sent to, whatever the case of their
  address, joins with the role it carries when the plan has a place, and the link is then spent.\<close>

theorem invite_admits_its_addressee:
  assumes "createInvite t e r token now s = (Inr iv, s1)" and "token \<notin> vf_id ` set (as_verifications s)" and "token \<noteq> []"
    and "CHR '':'' \<notin> set t" and "t \<noteq> []" and "find_workspace t s = Some w" and "later < now + INVITE_TTL_MS"
    and "normalizeInviteEmail e' = normalizeInviteEmail e" and "\<not> is_member t u s"
    and "lc_allowed (checkLimit t InviteMember later s1)"
  shows "\<exists>s2. acceptInvite token u e' i later s1 = (Inr (t, False), s2) \<and>
    find_workspace t s2 = Some (w\<lparr>wk_members := wk_members w @ [new_member iv u i later]\<rparr>) \<and> pm_role (new_member iv u i later) = r \<and>
    token \<notin> vf_id ` set (as_verifications s2)"
proof -
  note c = createInvite_Some [OF assms(1)]
  have w: "find_workspace t s1 = Some w" and m: "\<not> is_member t u s1"
    using assms(6,9) by (simp_all add: c(3) find_workspace_def is_member_def members_of_def)
  have "accept_read token u e' later s1 = Inr iv"
    using issued_found [OF assms(1-4,6,7,5)] assms(8,10) by (simp add: accept_read_def c(1))
  moreover have "find_workspace t (snd (accept_write iv u i later s1)) = Some (w\<lparr>wk_members := wk_members w @ [new_member iv u i later]\<rparr>)"
    by (rule accepted_member [OF w _ m]) (simp add: c(1))
  ultimately show ?thesis using m by (auto simp: acceptInvite_def accept_write_def Let_def c(1) new_member_def)
qed

theorem invite_admits_its_addressee_witness:
  "\<exists>s2. acceptInvite ''t1'' ''u'' '' NEW@x.io'' ''m'' 5 demo_invited = (Inr (''w'', False), s2)"
proof -
  have "lc_allowed (checkLimit ''w'' InviteMember 5 demo_invited)" by code_simp
  moreover have "normalizeInviteEmail '' NEW@x.io'' = normalizeInviteEmail ''New@x.io''" by code_simp
  moreover have "\<not> is_member ''w'' ''u'' demo_auth" by code_simp
  ultimately show ?thesis
    using invite_admits_its_addressee [OF demo_invite_created _ _ _ _ demo_workspace_found, of 5 "'' NEW@x.io''" "''u''" "''m''"]
    by (auto simp: demo_auth_def INVITE_TTL_MS_def)
qed

section \<open>Plan limits\<close>

text \<open>C32. Accepting invites one after another never takes a workspace past the members its plan includes.\<close>

theorem accepting_keeps_within_plan:
  assumes "seats_ok t s"
  shows "seats_ok t (snd (acceptInvite token u em i now s))"
  by (rule accept_seats [OF assms])

theorem accepting_keeps_within_plan_witness: "seats_ok ''w'' (snd (acceptInvite ''t1'' ''u'' ''new@x.io'' ''m'' 5 demo_invited))"
proof -
  have "seats_ok ''w'' demo_invited" by code_simp
  then show ?thesis by (rule accepting_keeps_within_plan)
qed

text \<open>C33. When one place is left and the checks of two acceptances, by two people who are not members yet, both run
  before either membership is written, both people are admitted and the workspace has one member more than its plan
  includes. Run one after the other, the second acceptance is refused by the plan and changes nothing.\<close>

theorem interleaved_accepts_pass_plan:
  assumes "find_workspace t s = Some w" and "of_int (int (length (wk_members w))) + 1 = lm_maxMembers (resolvePlanLimits (wk_source w))"
    and "accept_read token1 u1 e1 now1 s = Inr iv1" and "accept_read token2 u2 e2 now2 s = Inr iv2"
    and "iv_tenantId iv1 = t" and "iv_tenantId iv2 = t" and "token1 \<noteq> token2" and "u1 \<noteq> u2"
    and "\<not> is_member t u1 s" and "\<not> is_member t u2 s"
  shows "let s1 = snd (accept_write iv1 u1 i1 now1 s); s2 = snd (accept_write iv2 u2 i2 now2 s1)
    in find_workspace t s2 = Some (w\<lparr>wk_members := wk_members w @ [new_member iv1 u1 i1 now1, new_member iv2 u2 i2 now2]\<rparr>) \<and>
      seats_ok t s1 \<and> \<not> seats_ok t s2 \<and> acceptInvite token2 u2 e2 i2 now2 s1 = (Inl PlanLimit, s1)"
proof -
  let ?s1 = "snd (accept_write iv1 u1 i1 now1 s)" and ?w1 = "w\<lparr>wk_members := wk_members w @ [new_member iv1 u1 i1 now1]\<rparr>"
  have w1: "find_workspace t ?s1 = Some ?w1" by (rule accepted_member [OF assms(1,5,9)])
  have m: "\<not> is_member t u2 ?s1"
    using assms(1,8,10) by (simp add: is_member_def members_of_def w1 new_member_def)
  have w2: "find_workspace t (snd (accept_write iv2 u2 i2 now2 ?s1)) =
      Some (w\<lparr>wk_members := wk_members w @ [new_member iv1 u1 i1 now1, new_member iv2 u2 i2 now2]\<rparr>)"
    using accepted_member [OF w1 assms(6) m] by simp
  have "\<not> lc_allowed (checkLimit t InviteMember now2 ?s1)"
    using assms(2) by (simp add: checkLimit_def Let_def ACTION_DIMENSION_def evaluateLimits_def w1 limitCheck_allowed)
  moreover have "token2 \<noteq> iv_token iv1" using accept_read_Inr [OF assms(3)] assms(7) by auto
  ultimately have "accept_read token2 u2 e2 now2 ?s1 = Inl PlanLimit"
    by (intro accept_read_after_write [OF assms(4,6) _ w1 m])
  then show ?thesis
    unfolding Let_def using assms(2) by (simp add: w1 w2 seats_ok_def acceptInvite_def)
qed

theorem interleaved_accepts_pass_plan_witness:
  "let s = snd (createInvite ''w'' ''two@x.io'' MEMBER ''t2'' 0 demo_invited); iv2 = demo_invite\<lparr>iv_token := ''t2'', iv_email := ''two@x.io''\<rparr>
   in accept_read ''t1'' ''u'' ''new@x.io'' 5 s = Inr demo_invite \<and> accept_read ''t2'' ''v'' ''two@x.io'' 5 s = Inr iv2 \<and>
     seats_ok ''w'' s \<and>
     \<not> seats_ok ''w'' (snd (accept_write iv2 ''v'' ''n'' 5 (snd (accept_write demo_invite ''u'' ''m'' 5 s))))"
proof -
  let ?s = "snd (createInvite ''w'' ''two@x.io'' MEMBER ''t2'' 0 demo_invited)"
  let ?iv2 = "demo_invite\<lparr>iv_token := ''t2'', iv_email := ''two@x.io''\<rparr>"
  have w: "find_workspace ''w'' ?s = Some demo_workspace" by code_simp
  have r: "accept_read ''t1'' ''u'' ''new@x.io'' 5 ?s = Inr demo_invite" "accept_read ''t2'' ''v'' ''two@x.io'' 5 ?s = Inr ?iv2"
    by code_simp+
  have n: "\<not> is_member ''w'' ''u'' ?s" "\<not> is_member ''w'' ''v'' ?s" and ok: "seats_ok ''w'' ?s" by code_simp+
  have full: "of_int (int (length (wk_members demo_workspace))) + 1 = lm_maxMembers (resolvePlanLimits (wk_source demo_workspace))"
    by code_simp
  have tenants: "iv_tenantId demo_invite = ''w''" "iv_tenantId ?iv2 = ''w''" by (simp_all add: demo_invite_def)
  have "''t1'' \<noteq> ''t2''" "''u'' \<noteq> ''v''" by simp_all
  note two = interleaved_accepts_pass_plan [OF w full r tenants this n, of "''m''" "''n''"]
  then show ?thesis unfolding Let_def using r ok by blast
qed

text \<open>C34. The clock of the grace starts at the first daily check that finds the workspace over its plan while no clock
  runs, keeps that start for as long as every check finds it over, and one more member is allowed past the cap exactly
  during the seven days from then; a check that finds it within plan stops the clock. Whatever the checks find, and in
  any sequence of them, warnings more than a week apart stay more than a week apart.\<close>

theorem grace_runs_once:
  "(spaced (lr_warnings row) \<longrightarrow> spaced (lr_warnings (run_checks checks row))) \<and>
   (\<not> ls_anyOver (computeLimitState c' (resolvePlanLimits (lr_source row)) None now') \<longrightarrow>
      lr_limitsExceededAt (run_checks (checks @ [(c', now')]) row) = None) \<and>
   (lr_limitsExceededAt (run_checks checks row) = None \<and>
    list_all (\<lambda>(c, now). ls_anyOver (computeLimitState c (resolvePlanLimits (lr_source row)) None now)) ((c0, t0) # days) \<longrightarrow>
      lr_limitsExceededAt (run_checks (checks @ (c0, t0) # days) row) = Some t0 \<and>
      (lm_maxMembers (resolvePlanLimits (lr_source row)) < of_int (uc_members c) \<longrightarrow>
        (lc_allowed (limitCheck
            (computeLimitState c (resolvePlanLimits (lr_source row)) (lr_limitsExceededAt (run_checks (checks @ (c0, t0) # days) row)) now)
            (dimension (uc_members c) (lm_maxMembers (resolvePlanLimits (lr_source row))))) \<longleftrightarrow> now < t0 + GRACE_DAYS * DAY_MS)))"
  (is "_ \<and> _ \<and> (?off \<and> ?over \<longrightarrow> ?clock \<and> _)")
proof (intro conjI impI; (elim conjE)?)
  assume off: ?off and over: ?over
  show clock: ?clock
    unfolding run_append by (rule run_anchor_starts [OF off]) (use over in \<open>simp only: run_source\<close>)
  assume "lm_maxMembers (resolvePlanLimits (lr_source row)) < of_int (uc_members c)"
  then show "lc_allowed (limitCheck
      (computeLimitState c (resolvePlanLimits (lr_source row)) (lr_limitsExceededAt (run_checks (checks @ (c0, t0) # days) row)) now)
      (dimension (uc_members c) (lm_maxMembers (resolvePlanLimits (lr_source row))))) \<longleftrightarrow> now < t0 + GRACE_DAYS * DAY_MS"
    unfolding limitCheck_allowed clock using graceLeft_pos [of t0 now] by (auto simp: computeLimitState_def Let_def dimension_def)
qed (rule run_warnings run_anchor_stops, assumption)+

theorem grace_runs_once_witness:
  "lr_limitsExceededAt (run_checks [(\<lparr>uc_products = 1, uc_members = 4, uc_orders30d = 0\<rparr>, 2), (\<lparr>uc_products = 1, uc_members = 3, uc_orders30d = 0\<rparr>, 5),
       (\<lparr>uc_products = 1, uc_members = 4, uc_orders30d = 0\<rparr>, 9), (\<lparr>uc_products = 1, uc_members = 5, uc_orders30d = 0\<rparr>, 12)]
     \<lparr>lr_source = \<lparr>ps_plan = None, ps_planLimits = JNull\<rparr>, lr_limitsExceededAt = None, lr_warnings = []\<rparr>) = Some 9"
proof -
  let ?row = "\<lparr>lr_source = \<lparr>ps_plan = None, ps_planLimits = JNull\<rparr>, lr_limitsExceededAt = None, lr_warnings = []\<rparr>"
  let ?u = "\<lambda>m. \<lparr>uc_products = 1, uc_members = m, uc_orders30d = 0\<rparr>"
  have "lr_limitsExceededAt (run_checks [(?u 4, 2), (?u 3, 5)] ?row) = None" by code_simp
  then show ?thesis using grace_runs_once [of ?row "[(?u 4, 2), (?u 3, 5)]" "?u 3" 5 "?u 4" 9 "[(?u 5, 12)]"]
    by (simp add: resolvePlanLimits_def PLAN_TIERS_def DEFAULT_PLAN_def)
qed

section \<open>Workspaces and terms\<close>

text \<open>A slug is never the one of the platform's own workspace.\<close>

lemma slug_not_platform: "workspaceSlug nfkd name \<noteq> ''__platform__''"
  using slug_shape(3) [of "CHR ''_''" nfkd name] by (auto simp: slug_char_def char_code_def)

text \<open>The gate asks exactly when the acceptance shown on the card is not current.\<close>

lemma terms_gate_agrees_with_card:
  assumes "active \<in> set ms"
  shows "shouldShowTermsGate (Some active) ms \<longleftrightarrow> \<not> ta_current (effectiveTermsAcceptance active ms)"
  using effective_current [OF assms] by (simp add: shouldShowTermsGate_def)

end
