(* ===== verification/PosTime.thy ===== *)
theory PosTime
  imports PoModel
begin

text \<open>
  \<^verbatim>\<open>packages/pos/src/time.ts\<close>: the shop's day. The zone rules (\<open>Intl\<close> over the IANA database)
  are a parameter \<open>zone\<close>, the offset in milliseconds at an instant, so that the wall clock at \<open>d\<close> is
  \<open>d + zone d\<close>; the engine's own \<open>Date\<close> parser is a parameter \<open>js_parse\<close>, \<open>None\<close> being an invalid
  date. A day key (\<open>YYYY-MM-DD\<close>) is the UTC midnight it names, which is also what \<open>dayMarker\<close>
  makes of it.
\<close>

type_synonym zone = "date \<Rightarrow> int"

abbreviation HOUR_MS :: int where "HOUR_MS \<equiv> 3600000"

definition tenantDayKey :: "zone \<Rightarrow> date \<Rightarrow> date" where
  "tenantDayKey zone d = dayKeyOf (d + zone d)"

definition dayMarker :: "date \<Rightarrow> date" where
  "dayMarker dayKey = dayKey"

text \<open>The formatted parts stop at the second, so the milliseconds of the instant are lost.\<close>

definition tzOffsetMs :: "date \<Rightarrow> zone \<Rightarrow> int" where
  "tzOffsetMs d zone = (let local = d + zone d in (local - local mod 1000) - d)"

text \<open>\<open>Date.UTC\<close>: a month or a day out of range carries over, and a year below 100 is read as 19xx.\<close>

definition date_utc :: "int \<Rightarrow> int \<Rightarrow> int \<Rightarrow> int \<Rightarrow> int \<Rightarrow> int \<Rightarrow> date" where
  "date_utc y mo d h mi s =
    (let y' = (if 0 \<le> y \<and> y \<le> 99 then 1900 + y else y);
         day = day_of_ym1 (y' + mo div 12) (mo mod 12 + 1) + d - 1
     in day * DAY_MS + h * HOUR_MS + mi * 60000 + s * 1000)"

definition zonedWallClockToUtc :: "int \<Rightarrow> int \<Rightarrow> int \<Rightarrow> int \<Rightarrow> int \<Rightarrow> int \<Rightarrow> zone \<Rightarrow> date" where
  "zonedWallClockToUtc y mo d h mi s zone =
    (let utcGuess = date_utc y (mo - 1) d h mi s in utcGuess - tzOffsetMs utcGuess zone)"

section \<open>Reading a timestamp\<close>

definition digits_at :: "nat \<Rightarrow> nat \<Rightarrow> string \<Rightarrow> bool" where
  "digits_at i n s \<longleftrightarrow> i + n \<le> length s \<and> list_all is_digit (take n (drop i s))"

definition char_at :: "nat \<Rightarrow> char list \<Rightarrow> string \<Rightarrow> bool" where
  "char_at i cs s \<longleftrightarrow> i < length s \<and> s ! i \<in> set cs"

definition num_at :: "nat \<Rightarrow> nat \<Rightarrow> string \<Rightarrow> int" where
  "num_at i n s = int (parse_digits (take n (drop i s)))"

text \<open>The regular expression \<open>/([zZ])$|[+-]\d{2}:?\d{2}$/\<close>.\<close>

definition has_offset :: "string \<Rightarrow> bool" where
  "has_offset s \<longleftrightarrow>
    (let n = length s
     in (1 \<le> n \<and> char_at (n - 1) ''zZ'' s) \<or>
        (5 \<le> n \<and> char_at (n - 5) ''+-'' s \<and> digits_at (n - 4) 4 s) \<or>
        (6 \<le> n \<and> char_at (n - 6) ''+-'' s \<and> digits_at (n - 5) 2 s \<and> char_at (n - 3) '':'' s \<and> digits_at (n - 2) 2 s))"

text \<open>\<open>s.replace(" ", "T")\<close>: the first blank only.\<close>

fun blank_to_T :: "string \<Rightarrow> string" where
  "blank_to_T [] = []"
| "blank_to_T (c # cs) = (if c = CHR '' '' then CHR ''T'' # cs else c # blank_to_T cs)"

definition starts_day :: "string \<Rightarrow> bool" where
  "starts_day s \<longleftrightarrow> digits_at 0 4 s \<and> char_at 4 ''-'' s \<and> digits_at 5 2 s \<and> char_at 7 ''-'' s \<and> digits_at 8 2 s"

definition has_wall_clock :: "string \<Rightarrow> bool" where
  "has_wall_clock s \<longleftrightarrow>
    starts_day s \<and> char_at 10 '' T'' s \<and> digits_at 11 2 s \<and> char_at 13 '':'' s \<and> digits_at 14 2 s"

definition written_seconds :: "string \<Rightarrow> int" where
  "written_seconds s = (if char_at 16 '':'' s \<and> digits_at 17 2 s then num_at 17 2 s else 0)"

text \<open>A timestamp is a \<open>Date\<close> (an invalid one is \<open>Instant None\<close>) or the string a till sent.\<close>

datatype pos_date = Instant "date option" | Written string

definition parsePosDate :: "(string \<Rightarrow> date option) \<Rightarrow> pos_date \<Rightarrow> zone \<Rightarrow> date option" where
  "parsePosDate js_parse v zone =
    (case v of
       Instant d \<Rightarrow> d
     | Written w \<Rightarrow>
         (let s = js_trim w
          in case (if has_offset s then js_parse (blank_to_T s) else None) of
               Some d \<Rightarrow> Some d
             | None \<Rightarrow>
                 if has_wall_clock s
                 then Some (zonedWallClockToUtc (num_at 0 4 s) (num_at 5 2 s) (num_at 8 2 s)
                              (num_at 11 2 s) (num_at 14 2 s) (written_seconds s) zone)
                 else if starts_day s \<and> length s = 10
                 then Some (zonedWallClockToUtc (num_at 0 4 s) (num_at 5 2 s) (num_at 8 2 s) 0 0 0 zone)
                 else js_parse s))"

section \<open>Lemmas\<close>

lemma tenantDayKey_dvd [simp]: "DAY_MS dvd tenantDayKey zone d"
  by (simp add: tenantDayKey_def)

lemma tenantDayKey_iff:
  assumes "DAY_MS dvd k"
  shows "tenantDayKey zone d = k \<longleftrightarrow> k \<le> d + zone d \<and> d + zone d < k + DAY_MS"
proof
  assume "tenantDayKey zone d = k"
  then show "k \<le> d + zone d \<and> d + zone d < k + DAY_MS"
    using dayKeyOf_le [of "d + zone d"] dayKeyOf_less [of "d + zone d"] by (simp add: tenantDayKey_def)
next
  assume "k \<le> d + zone d \<and> d + zone d < k + DAY_MS"
  moreover obtain j where j: "k = j * DAY_MS" using assms by (metis dvd_def mult.commute)
  ultimately have "(d + zone d) div DAY_MS = j"
    by (intro int_div_pos_eq [where r = "d + zone d - k"]) simp_all
  then show "tenantDayKey zone d = k"
    by (simp add: tenantDayKey_def dayKeyOf_def minus_mod_eq_div_mult j)
qed

text \<open>A zone of whole seconds: the offset read back at a whole second is the zone's.\<close>

definition whole_seconds :: "zone \<Rightarrow> bool" where
  "whole_seconds zone \<longleftrightarrow> (\<forall>d. 1000 dvd zone d)"

lemma tzOffsetMs_whole: "whole_seconds zone \<Longrightarrow> 1000 dvd d \<Longrightarrow> tzOffsetMs d zone = zone d"
  by (simp add: tzOffsetMs_def whole_seconds_def Let_def)

lemma date_utc_whole: "1000 dvd date_utc y mo d h mi s"
  unfolding date_utc_def Let_def
  by (intro dvd_add dvd_mult) (simp_all add: dvd_def)

text \<open>Where the zone has one offset at the guess and at the result, the instant shows the clock
  that was written.\<close>

lemma wall_clock_read_back:
  assumes "whole_seconds zone" and g: "g = date_utc y (mo - 1) d h mi s"
    and "zone (g - zone g) = zone g"
  shows "zonedWallClockToUtc y mo d h mi s zone = g - zone g"
    and "tenantDayKey zone (zonedWallClockToUtc y mo d h mi s zone) = dayKeyOf g"
proof -
  show *: "zonedWallClockToUtc y mo d h mi s zone = g - zone g"
    using tzOffsetMs_whole [OF assms(1) date_utc_whole, of y "mo - 1" d h mi s]
    by (simp add: zonedWallClockToUtc_def g Let_def)
  show "tenantDayKey zone (zonedWallClockToUtc y mo d h mi s zone) = dayKeyOf g"
    unfolding * tenantDayKey_def using assms(3) by simp
qed

text \<open>Otherwise it need not: an hour after a clock went back at midnight, the guess still falls
  before the change, and a sale rung after midnight is booked on the day before.\<close>

definition santiago :: zone where
  "santiago d = (if d < 1775358000000 then - 3 * HOUR_MS else - 4 * HOUR_MS)"

lemma wall_clock_wrong_day:
  "parsePosDate (\<lambda>_. None) (Written ''2026-04-05 00:30:00'') santiago = Some 1775359800000 \<and>
   tenantDayKey santiago 1775359800000 = date_utc 2026 3 4 0 0 0"
  by code_simp

end
