(* ===== verification/PosPlan.thy ===== *)
theory PosPlan
  imports PosTime Locations
begin

text \<open>
  \<^verbatim>\<open>packages/pos/src/types.ts\<close>, \<^verbatim>\<open>normalize.ts\<close>, \<^verbatim>\<open>match.ts\<close> and \<^verbatim>\<open>aggregate.ts\<close>: the pure planner
  that turns a window of till receipts into the rows to store. A JavaScript \<open>Map\<close> keyed by the
  string \<open>product|day\<close> is keyed by the pair (a day key has no bar in it).
\<close>

section \<open>Receipts\<close>

record pos_line =
  pn_sku :: string
  pn_name :: "string option"
  pn_qty :: real
  pn_price :: "real option"
  pn_subtotal :: "real option"

record pos_sale =
  se_externalId :: string
  se_reference :: "string option"
  se_date :: pos_date
  se_createdBy :: "string option"
  se_salesAgent :: "string option"
  se_warehouse :: "string option"
  se_customer :: "string option"
  se_saleStatus :: "string option"
  se_paymentStatus :: "string option"
  se_grandTotal :: "real option"
  se_channel :: "string option"
  se_lines :: "pos_line list"

record match_product =
  mp_id :: string
  mp_sku :: "string option"
  mp_title :: "string option"
  mp_priceKes :: "real option"

text \<open>A planned receipt has the columns of a stored one, its lines under it.\<close>

record planned_line =
  tl_sku :: string
  tl_productName :: string
  tl_qty :: real
  tl_price :: real
  tl_subtotal :: real
  tl_productId :: "string option"

record planned_sale =
  sd_externalId :: string
  sd_reference :: "string option"
  sd_date :: date
  sd_createdBy :: string
  sd_salesAgent :: "string option"
  sd_warehouse :: "string option"
  sd_customer :: "string option"
  sd_saleStatus :: "string option"
  sd_paymentStatus :: "string option"
  sd_grandTotal :: real
  sd_channel :: string
  sd_lines :: "planned_line list"

record planned_row =
  ph_productId :: string
  ph_dayKey :: date
  ph_quantity :: real
  ph_revenueKes :: real
  ph_locationId :: "string option"

record unmatched_sku =
  uq_sku :: string
  uq_productName :: string
  uq_units :: real
  uq_revenueKes :: real

section \<open>Maps\<close>

text \<open>\<open>new Map(pairs)\<close>: a repeated key keeps its place and takes the last value.\<close>

definition js_map :: "('k \<times> 'v) list \<Rightarrow> ('k \<times> 'v) list" where
  "js_map ps = fold (\<lambda>(k, v). AList.update k v) ps []"

definition set_add :: "'a \<Rightarrow> 'a list \<Rightarrow> 'a list" where
  "set_add x xs = (if x \<in> set xs then xs else xs @ [x])"

text \<open>\<open>if (id)\<close> on an id that may be absent.\<close>

definition truthy :: "string option \<Rightarrow> string option" where
  "truthy i = (if i = Some [] then None else i)"

lemma js_map_snoc: "js_map (ps @ [(k, v)]) = AList.update k v (js_map ps)"
  by (simp add: js_map_def)

lemma js_map_Nil [simp]: "js_map [] = []"
  by (simp add: js_map_def)

lemma map_of_js_map: "map_of (js_map ps) k = map_of (rev ps) k"
  by (induction ps rule: rev_induct) (auto simp: js_map_snoc update_conv')

lemma keys_AList_update:
  "alist_keys (AList.update k v m) = (if k \<in> set (alist_keys m) then alist_keys m else alist_keys m @ [k])"
  by (induction m) auto

lemma js_set_snoc: "js_set (xs @ [x]) = set_add x (js_set xs)"
  by (simp add: js_set_def set_add_def)

section \<open>Matching\<close>

definition normalizeSku :: "string option \<Rightarrow> string" where
  "normalizeSku sku = js_lower (js_trim (nvl sku []))"

definition scan_product ::
  "match_product \<Rightarrow> (string \<times> string) list \<times> string list \<Rightarrow> (string \<times> string) list \<times> string list" where
  "scan_product p = (\<lambda>(byKey, ambiguous).
    let key = normalizeSku (mp_sku p)
    in if key = [] then (byKey, ambiguous)
       else if map_of byKey key \<noteq> None then (byKey, set_add key ambiguous)
       else (AList.update key (mp_id p) byKey, ambiguous))"

definition resolvePosSkuMap :: "match_product list \<Rightarrow> (string \<times> string) list" where
  "resolvePosSkuMap products =
    (let (byKey, ambiguous) = fold scan_product products ([], [])
     in fold AList.delete ambiguous byKey)"

abbreviation products_at :: "match_product list \<Rightarrow> string \<Rightarrow> match_product list" where
  "products_at ps k \<equiv> filter (\<lambda>p. normalizeSku (mp_sku p) = k) ps"

lemma scan_products:
  "fold scan_product ps ([], []) = (byKey, amb) \<Longrightarrow>
   map_of byKey k = (if k = [] then None else case products_at ps k of [] \<Rightarrow> None | p # _ \<Rightarrow> Some (mp_id p)) \<and>
   (k \<in> set amb \<longleftrightarrow> k \<noteq> [] \<and> 2 \<le> length (products_at ps k))"
proof (induction ps arbitrary: byKey amb k rule: rev_induct)
  case (snoc p ps)
  obtain b a where ba: "fold scan_product ps ([], []) = (b, a)" by (cases "fold scan_product ps ([], [])")
  note IH = snoc.IH [OF ba]
  have st: "scan_product p (b, a) = (byKey, amb)" using snoc.prems ba by simp
  show ?case using st IH [of k] IH [of "normalizeSku (mp_sku p)"]
    by (auto simp: scan_product_def Let_def update_conv' set_add_def split: if_splits list.splits)
qed simp

lemma map_of_deletes: "map_of (fold AList.delete ks m) k = (if k \<in> set ks then None else map_of m k)"
  by (induction ks arbitrary: m) (auto simp: delete_conv')

text \<open>A till code finds a product when exactly one has it.\<close>

lemma resolve_unique:
  "map_of (resolvePosSkuMap ps) k =
    (if k = [] then None else case products_at ps k of [p] \<Rightarrow> Some (mp_id p) | _ \<Rightarrow> None)"
proof -
  obtain b a where ba: "fold scan_product ps ([], []) = (b, a)" by (cases "fold scan_product ps ([], [])")
  show ?thesis
    using scan_products [OF ba, of k]
    by (auto simp: resolvePosSkuMap_def ba map_of_deletes split: list.split)
qed

text \<open>The advisory suggestion. \<open>split\<close> on runs of other characters, empty pieces dropped.\<close>

definition alnum :: "char \<Rightarrow> bool" where
  "alnum c \<longleftrightarrow> is_digit c \<or> is_letter c"

function pieces :: "(char \<Rightarrow> bool) \<Rightarrow> string \<Rightarrow> string list" where
  "pieces keep s =
    (let r = dropWhile (\<lambda>c. \<not> keep c) s
     in if r = [] then [] else takeWhile keep r # pieces keep (dropWhile keep r))"
  by auto
termination
proof (relation "measure (\<lambda>(_, s). length s)")
  fix keep s r
  assume r: "r = dropWhile (\<lambda>c. \<not> keep c) s" and ne: "r \<noteq> []"
  have "keep (hd r)" using hd_dropWhile [of "\<lambda>c. \<not> keep c" s] ne unfolding r by simp
  then have "length (dropWhile keep r) \<le> length (tl r)"
    using ne length_dropWhile_le [of keep "tl r"] by (cases r) simp_all
  then have "length (dropWhile keep r) < length r" using ne by (cases r) simp_all
  also have "length r \<le> length s" unfolding r by (rule length_dropWhile_le)
  finally show "((keep, dropWhile keep r), keep, s) \<in> measure (\<lambda>(_, s). length s)" by simp
qed simp

declare pieces.simps [simp del]

definition tokens :: "string \<Rightarrow> string list" where
  "tokens s = pieces alnum (js_lower s)"

record product_suggestion =
  sg_productId :: string
  sg_sku :: string
  sg_title :: string
  sg_score :: real

definition match_score :: "string list \<Rightarrow> string \<Rightarrow> match_product \<Rightarrow> real option" where
  "match_score needle normSku p =
    (let hay = js_set (tokens (nvl (mp_sku p) []) @ tokens (nvl (mp_title p) []))
     in if hay = [] then None
        else
          (let shared = length (filter (\<lambda>t. t \<in> set hay) needle);
               union = length (js_set (needle @ hay));
               score = (if 0 < union then real shared / real union else 0);
               pSku = normalizeSku (mp_sku p)
           in Some (if normSku \<noteq> [] \<and> pSku \<noteq> [] \<and> (contains normSku pSku \<or> contains pSku normSku)
                    then max score (1 / 2) + 1 / 4 else score)))"

definition better_match ::
  "string list \<Rightarrow> string \<Rightarrow> match_product \<Rightarrow> product_suggestion option \<Rightarrow> product_suggestion option" where
  "better_match needle normSku p best =
    (case match_score needle normSku p of
       None \<Rightarrow> best
     | Some score \<Rightarrow>
         if (case best of None \<Rightarrow> 0 | Some b \<Rightarrow> sg_score b) < score
         then Some \<lparr>sg_productId = mp_id p, sg_sku = nvl (mp_sku p) [], sg_title = nvl (mp_title p) [],
                    sg_score = min score 1\<rparr>
         else best)"

definition suggestProductForSku ::
  "string \<Rightarrow> string option \<Rightarrow> match_product list \<Rightarrow> product_suggestion option" where
  "suggestProductForSku sku name products =
    (let needle = js_set (tokens sku @ tokens (nvl name []))
     in if needle = [] then None
        else
          (case fold (better_match needle (normalizeSku (Some sku))) products None of
             None \<Rightarrow> None
           | Some best \<Rightarrow> if 34 / 100 \<le> sg_score best then Some best else None))"

section \<open>Revenue and days\<close>

definition ONLINE_CHANNELS :: "string list" where
  "ONLINE_CHANNELS = [''shopify'', ''online'', ''web'', ''ecommerce'', ''e-commerce'']"

definition isOnlineSale :: "pos_sale \<Rightarrow> bool" where
  "isOnlineSale sale \<longleftrightarrow>
    (let channel = normalizeSku (se_channel sale)
     in (channel \<noteq> [] \<and> channel \<in> set ONLINE_CHANNELS) \<or> normalizeSku (se_createdBy sale) = ''shopify'')"

definition toDate :: "(string \<Rightarrow> date option) \<Rightarrow> pos_date \<Rightarrow> date option" where
  "toDate js_parse d = (case d of Instant i \<Rightarrow> i | Written w \<Rightarrow> js_parse w)"

definition lineRevenue :: "real option \<Rightarrow> real option \<Rightarrow> real \<Rightarrow> real option \<Rightarrow> real" where
  "lineRevenue sub price qty productPrice =
    (if 0 < nvl sub 0 then nvl sub 0
     else if 0 < nvl price 0 then nvl price 0 * qty
     else if 0 < nvl productPrice 0 then nvl productPrice 0 * qty
     else 0)"

definition LOC_NULL :: string where
  "LOC_NULL = [CHR 0x00]"

text \<open>The per-day bucket, and one line's contribution to it.\<close>

record day_agg =
  ag_quantity :: real
  ag_revenueKes :: real
  ag_locs :: "string list"

record contribution =
  cb_productId :: string
  cb_dayKey :: date
  cb_qty :: real
  cb_rev :: real
  cb_loc :: "string option"

abbreviation cb_key :: "contribution \<Rightarrow> string \<times> date" where
  "cb_key c \<equiv> (cb_productId c, cb_dayKey c)"

definition add_line ::
  "contribution \<Rightarrow> ((string \<times> date) \<times> day_agg) list \<Rightarrow> ((string \<times> date) \<times> day_agg) list" where
  "add_line c agg =
    (let loc = nvl (cb_loc c) LOC_NULL
     in case map_of agg (cb_key c) of
          Some existing \<Rightarrow>
            AList.update (cb_key c)
              \<lparr>ag_quantity = ag_quantity existing + cb_qty c, ag_revenueKes = ag_revenueKes existing + cb_rev c,
               ag_locs = set_add loc (ag_locs existing)\<rparr> agg
        | None \<Rightarrow>
            AList.update (cb_key c) \<lparr>ag_quantity = cb_qty c, ag_revenueKes = cb_rev c, ag_locs = [loc]\<rparr> agg)"

definition history_row :: "(string \<times> date) \<times> day_agg \<Rightarrow> planned_row" where
  "history_row = (\<lambda>((p, d), r).
    let onlyLoc = (case ag_locs r of [l] \<Rightarrow> Some l | _ \<Rightarrow> None)
    in \<lparr>ph_productId = p, ph_dayKey = d, ph_quantity = ag_quantity r, ph_revenueKes = ag_revenueKes r,
        ph_locationId = (if truthy onlyLoc \<noteq> None \<and> onlyLoc \<noteq> Some LOC_NULL then onlyLoc else None)\<rparr>)"

section \<open>The planner\<close>

record plan_maps =
  in_skuToProductId :: "(string \<times> string) list"
  in_ignoredSkus :: "string list"
  in_priceByProductId :: "(string \<times> real) list"
  in_warehouseToLocationId :: "(string \<times> string) list"

record plan_acc =
  pa_matched :: nat
  pa_unmatched :: nat
  pa_ignored :: nat
  pa_agg :: "((string \<times> date) \<times> day_agg) list"
  pa_queue :: "(string \<times> unmatched_sku) list"

definition line_product :: "plan_maps \<Rightarrow> string \<Rightarrow> string option" where
  "line_product env key = (if key = [] then None else map_of (in_skuToProductId env) key)"

definition planned_of :: "plan_maps \<Rightarrow> pos_line \<Rightarrow> planned_line" where
  "planned_of env line =
    \<lparr>tl_sku = pn_sku line, tl_productName = nvl (pn_name line) [], tl_qty = pn_qty line,
     tl_price = nvl (pn_price line) 0, tl_subtotal = nvl (pn_subtotal line) 0,
     tl_productId = line_product env (normalizeSku (Some (pn_sku line)))\<rparr>"

definition queue_line ::
  "string \<Rightarrow> pos_line \<Rightarrow> (string \<times> unmatched_sku) list \<Rightarrow> (string \<times> unmatched_sku) list" where
  "queue_line key line unmatched =
    (if key = [] then unmatched
     else
       (let rev = lineRevenue (pn_subtotal line) (pn_price line) (pn_qty line) None
        in case map_of unmatched key of
             Some row \<Rightarrow>
               AList.update key (row\<lparr>uq_units := uq_units row + pn_qty line,
                                     uq_revenueKes := uq_revenueKes row + rev\<rparr>) unmatched
           | None \<Rightarrow>
               AList.update key \<lparr>uq_sku = js_trim (pn_sku line), uq_productName = nvl (pn_name line) [],
                                 uq_units = pn_qty line, uq_revenueKes = rev\<rparr> unmatched))"

definition plan_till_line :: "plan_maps \<Rightarrow> date \<Rightarrow> string option \<Rightarrow> pos_line \<Rightarrow> plan_acc \<Rightarrow> plan_acc" where
  "plan_till_line env dayKey locationId line acc =
    (let key = normalizeSku (Some (pn_sku line))
     in if key \<noteq> [] \<and> key \<in> set (in_ignoredSkus env) then acc\<lparr>pa_ignored := pa_ignored acc + 1\<rparr>
        else
          (case truthy (line_product env key) of
             None \<Rightarrow> acc\<lparr>pa_unmatched := pa_unmatched acc + 1, pa_queue := queue_line key line (pa_queue acc)\<rparr>
           | Some productId \<Rightarrow>
               acc\<lparr>pa_matched := pa_matched acc + 1,
                   pa_agg := add_line
                     \<lparr>cb_productId = productId, cb_dayKey = dayKey, cb_qty = pn_qty line,
                      cb_rev = lineRevenue (pn_subtotal line) (pn_price line) (pn_qty line)
                                 (map_of (in_priceByProductId env) productId),
                      cb_loc = locationId\<rparr> (pa_agg acc)\<rparr>))"

definition sale_location :: "plan_maps \<Rightarrow> string option \<Rightarrow> string option" where
  "sale_location env warehouse = map_of (in_warehouseToLocationId env) (normalizeSku warehouse)"

definition plan_sale :: "plan_maps \<Rightarrow> (date \<Rightarrow> date) \<Rightarrow> pos_sale \<times> date \<Rightarrow> plan_acc \<Rightarrow> plan_acc" where
  "plan_sale env day_of = (\<lambda>(sale, d).
    fold (plan_till_line env (day_of d) (sale_location env (se_warehouse sale))) (se_lines sale))"

definition planned_sale_of :: "plan_maps \<Rightarrow> pos_sale \<times> date \<Rightarrow> planned_sale" where
  "planned_sale_of env = (\<lambda>(sale, d).
    \<lparr>sd_externalId = se_externalId sale, sd_reference = se_reference sale, sd_date = d,
     sd_createdBy = nvl (se_createdBy sale) [], sd_salesAgent = se_salesAgent sale,
     sd_warehouse = se_warehouse sale, sd_customer = se_customer sale,
     sd_saleStatus = se_saleStatus sale, sd_paymentStatus = se_paymentStatus sale,
     sd_grandTotal = nvl (se_grandTotal sale) 0, sd_channel = ''physical'',
     sd_lines = map (planned_of env) (se_lines sale)\<rparr>)"

definition dedupe_sales :: "pos_sale list \<Rightarrow> pos_sale list" where
  "dedupe_sales sales = alist_vals (js_map (map (\<lambda>s. (se_externalId s, s)) sales))"

definition dated_sale :: "(string \<Rightarrow> date option) \<Rightarrow> pos_sale \<Rightarrow> (pos_sale \<times> date) option" where
  "dated_sale js_parse s = map_option (\<lambda>d. (s, d)) (toDate js_parse (se_date s))"

record pos_ingest_plan =
  pp_sales :: "planned_sale list"
  pp_salesHistory :: "planned_row list"
  pp_externalIds :: "string list"
  pp_linesMatched :: nat
  pp_linesUnmatched :: nat
  pp_linesIgnored :: nat
  pp_salesExcluded :: nat
  pp_unmatched :: "unmatched_sku list"

text \<open>\<open>None\<close> is the \<open>RangeError\<close> of formatting an invalid date, which abandons the whole plan.\<close>

definition planPosIngest ::
  "(string \<Rightarrow> date option) \<Rightarrow> plan_maps \<Rightarrow> (date \<Rightarrow> date) \<Rightarrow> pos_sale list \<Rightarrow> pos_ingest_plan option" where
  "planPosIngest js_parse env day_of sales =
    (let deduped = dedupe_sales sales;
         kept = filter (\<lambda>s. \<not> isOnlineSale s) deduped
     in case those (map (dated_sale js_parse) kept) of
          None \<Rightarrow> None
        | Some dated \<Rightarrow>
            (let acc = fold (plan_sale env day_of) dated
                         \<lparr>pa_matched = 0, pa_unmatched = 0, pa_ignored = 0, pa_agg = [], pa_queue = []\<rparr>
             in Some \<lparr>pp_sales = map (planned_sale_of env) dated,
                      pp_salesHistory = map history_row (pa_agg acc),
                      pp_externalIds = map se_externalId kept,
                      pp_linesMatched = pa_matched acc,
                      pp_linesUnmatched = pa_unmatched acc,
                      pp_linesIgnored = pa_ignored acc,
                      pp_salesExcluded = length (filter isOnlineSale deduped),
                      pp_unmatched = sort_by (\<lambda>a b. uq_revenueKes b \<le> uq_revenueKes a) (alist_vals (pa_queue acc))\<rparr>))"

section \<open>Stored lines\<close>

record stored_pos_line =
  kl_productId :: string
  kl_qty :: real
  kl_price :: real
  kl_subtotal :: real
  kl_saleDate :: date
  kl_warehouse :: "string option"

definition stored_contribution :: "(string \<times> real) list \<Rightarrow> (string \<times> string) list \<Rightarrow> (date \<Rightarrow> date) \<Rightarrow> stored_pos_line \<Rightarrow> contribution" where
  "stored_contribution prices warehouses day_of line =
    \<lparr>cb_productId = kl_productId line, cb_dayKey = day_of (kl_saleDate line), cb_qty = kl_qty line,
     cb_rev = lineRevenue (Some (kl_subtotal line)) (Some (kl_price line)) (kl_qty line)
                (map_of prices (kl_productId line)),
     cb_loc = map_of warehouses (normalizeSku (kl_warehouse line))\<rparr>"

definition aggregateStoredPosLines ::
  "(string \<times> real) list \<Rightarrow> (string \<times> string) list \<Rightarrow> (date \<Rightarrow> date) \<Rightarrow> stored_pos_line list \<Rightarrow> planned_row list" where
  "aggregateStoredPosLines prices warehouses day_of lines =
    map history_row (fold (\<lambda>l. add_line (stored_contribution prices warehouses day_of l)) lines [])"

end
