(* ===== verification/PosLedger.thy ===== *)
theory PosLedger
  imports PosPlan
begin

text \<open>
  What the two aggregation loops of \<^verbatim>\<open>aggregate.ts\<close> compute, in closed form: one row per product
  and day in order of first mention, its quantity and revenue the sums of that day's lines, its
  branch the one all of them share. The row only depends on the lines as a multiset, so an order the
  database does not promise makes no difference.
\<close>

section \<open>The buckets in closed form\<close>

definition bucket :: "contribution list \<Rightarrow> day_agg" where
  "bucket cs = \<lparr>ag_quantity = sum_list (map cb_qty cs), ag_revenueKes = sum_list (map cb_rev cs),
     ag_locs = js_set (map (\<lambda>c. nvl (cb_loc c) LOC_NULL) cs)\<rparr>"

definition lines_for :: "string \<times> date \<Rightarrow> contribution list \<Rightarrow> contribution list" where
  "lines_for k cs = filter (\<lambda>c. cb_key c = k) cs"

lemma update_tabulated:
  "distinct ks \<Longrightarrow>
   AList.update k v (map (\<lambda>j. (j, f j)) ks) = map (\<lambda>j. (j, if j = k then v else f j)) (set_add k ks)"
  by (induction ks) (auto simp: set_add_def)

lemma lines_for_snoc: "lines_for k (cs @ [c]) = (if cb_key c = k then lines_for k cs @ [c] else lines_for k cs)"
  by (simp add: lines_for_def)

lemma bucket_snoc:
  "bucket (cs @ [c]) = \<lparr>ag_quantity = ag_quantity (bucket cs) + cb_qty c,
     ag_revenueKes = ag_revenueKes (bucket cs) + cb_rev c,
     ag_locs = set_add (nvl (cb_loc c) LOC_NULL) (ag_locs (bucket cs))\<rparr>"
  by (simp add: bucket_def js_set_snoc)

lemma lines_for_empty: "lines_for k cs = [] \<longleftrightarrow> k \<notin> set (map cb_key cs)"
  by (auto simp: lines_for_def filter_empty_conv)

theorem add_lines_closed:
  "fold add_line cs [] = map (\<lambda>k. (k, bucket (lines_for k cs))) (js_set (map cb_key cs))"
proof (induction cs rule: rev_induct)
  case (snoc c cs)
  let ?ks = "js_set (map cb_key cs)" and ?f = "\<lambda>k. bucket (lines_for k cs)"
  have m: "map_of (map (\<lambda>k. (k, ?f k)) ?ks) (cb_key c) = (if cb_key c \<in> set ?ks then Some (?f (cb_key c)) else None)"
    by (simp add: map_of_map_restrict restrict_map_def)
  have add: "add_line c (map (\<lambda>k. (k, ?f k)) ?ks) =
      AList.update (cb_key c) (bucket (lines_for (cb_key c) (cs @ [c]))) (map (\<lambda>k. (k, ?f k)) ?ks)"
  proof (cases "cb_key c \<in> set ?ks")
    case True
    then show ?thesis unfolding add_line_def m by (simp add: lines_for_snoc bucket_snoc)
  next
    case False
    then have "lines_for (cb_key c) cs = []" by (simp add: lines_for_empty)
    then show ?thesis unfolding add_line_def m using False
      by (simp add: lines_for_snoc bucket_def js_set_def)
  qed
  show ?case
    unfolding fold_append comp_apply snoc.IH
    by (simp only: fold_simps id_apply add update_tabulated [OF distinct_js_set] map_append list.map js_set_snoc)
       (auto simp: lines_for_snoc intro!: map_cong)
qed (simp add: js_set_def)

text \<open>The row of a bucket, from the lines it gathers.\<close>

definition day_row :: "contribution list \<Rightarrow> string \<times> date \<Rightarrow> planned_row" where
  "day_row cs k = history_row (k, bucket (lines_for k cs))"

definition day_rows :: "contribution list \<Rightarrow> planned_row list" where
  "day_rows cs = map history_row (fold add_line cs [])"

lemma day_rows_closed: "day_rows cs = map (day_row cs) (js_set (map cb_key cs))"
  unfolding day_rows_def add_lines_closed by (simp add: day_row_def)

lemma aggregate_day_rows:
  "aggregateStoredPosLines prices warehouses day_of lines =
    day_rows (map (stored_contribution prices warehouses day_of) lines)"
  by (simp add: aggregateStoredPosLines_def day_rows_def fold_map comp_def)

lemma ph_day_row [simp]:
  "ph_productId (day_row cs k) = fst k" "ph_dayKey (day_row cs k) = snd k"
  "ph_quantity (day_row cs k) = sum_list (map cb_qty (lines_for k cs))"
  "ph_revenueKes (day_row cs k) = sum_list (map cb_rev (lines_for k cs))"
  by (simp_all add: day_row_def history_row_def bucket_def case_prod_beta Let_def)

abbreviation only :: "'a list \<Rightarrow> 'a option" where
  "only xs \<equiv> (case xs of [l] \<Rightarrow> Some l | _ \<Rightarrow> None)"

lemma only_Some: "only xs = Some l \<longleftrightarrow> xs = [l]"
  by (auto split: list.split)

lemma ph_location_day_row:
  "ph_locationId (day_row cs k) =
    (let onlyLoc = only (js_set (map (\<lambda>c. nvl (cb_loc c) LOC_NULL) (lines_for k cs)))
     in if truthy onlyLoc \<noteq> None \<and> onlyLoc \<noteq> Some LOC_NULL then onlyLoc else None)"
  by (simp add: day_row_def history_row_def bucket_def case_prod_beta Let_def)

lemma js_set_singleton: "js_set xs = [l] \<longleftrightarrow> set xs = {l}"
proof
  assume "js_set xs = [l]" then show "set xs = {l}" using set_js_set [of xs] by simp
next
  assume s: "set xs = {l}"
  then have "length (js_set xs) = 1" by (simp add: length_js_set)
  then obtain y where y: "js_set xs = [y]" by (auto simp: length_Suc_conv)
  then show "js_set xs = [l]" using set_js_set [of xs] s by simp
qed

text \<open>A day is a branch's exactly when every line of it is.\<close>

lemma day_row_location:
  assumes "\<And>c l. c \<in> set cs \<Longrightarrow> cb_loc c = Some l \<Longrightarrow> l \<noteq> [] \<and> l \<noteq> LOC_NULL"
  shows "ph_locationId (day_row cs k) = Some l \<longleftrightarrow>
    lines_for k cs \<noteq> [] \<and> (\<forall>c \<in> set (lines_for k cs). cb_loc c = Some l)"
proof -
  let ?xs = "map (\<lambda>c. nvl (cb_loc c) LOC_NULL) (lines_for k cs)"
  have "ph_locationId (day_row cs k) = Some l \<longleftrightarrow> js_set ?xs = [l] \<and> l \<noteq> [] \<and> l \<noteq> LOC_NULL"
    unfolding ph_location_day_row by (auto simp: truthy_def only_Some Let_def split: if_splits)
  also have "js_set ?xs = [l] \<longleftrightarrow> lines_for k cs \<noteq> [] \<and> (\<forall>c \<in> set (lines_for k cs). nvl (cb_loc c) LOC_NULL = l)"
    unfolding js_set_singleton by (cases "lines_for k cs") auto
  finally have e: "ph_locationId (day_row cs k) = Some l \<longleftrightarrow>
      (lines_for k cs \<noteq> [] \<and> (\<forall>c \<in> set (lines_for k cs). nvl (cb_loc c) LOC_NULL = l)) \<and> l \<noteq> [] \<and> l \<noteq> LOC_NULL"
    by blast
  have loc: "nvl (cb_loc c) LOC_NULL = l \<and> l \<noteq> LOC_NULL \<longleftrightarrow> cb_loc c = Some l \<and> l \<noteq> LOC_NULL" for c
    by (cases "cb_loc c") auto
  have ne: "c \<in> set (lines_for k cs) \<Longrightarrow> c \<in> set cs" for c by (simp add: lines_for_def)
  show ?thesis unfolding e
  proof (intro iffI conjI ballI; (elim conjE)?)
    fix c assume "lines_for k cs \<noteq> []" "\<forall>c \<in> set (lines_for k cs). nvl (cb_loc c) LOC_NULL = l"
      "l \<noteq> LOC_NULL" "c \<in> set (lines_for k cs)"
    then show "cb_loc c = Some l" using loc [of c] by blast
  next
    assume n: "lines_for k cs \<noteq> []" and a: "\<forall>c \<in> set (lines_for k cs). cb_loc c = Some l"
    then obtain c where "c \<in> set (lines_for k cs)" by (cases "lines_for k cs") auto
    then show "l \<noteq> []" "l \<noteq> LOC_NULL" using a ne assms by blast+
  qed simp_all
qed

lemma lines_for_mset: "mset cs = mset cs' \<Longrightarrow> mset (lines_for k cs) = mset (lines_for k cs')"
  unfolding lines_for_def by (metis mset_filter)

lemma sum_list_perm: "mset xs = mset ys \<Longrightarrow> sum_list (map f xs) = sum_list (map f ys)" for f :: "'a \<Rightarrow> real"
  by (metis mset_map sum_mset_sum_list)

lemma only_perm: "set xs = set ys \<Longrightarrow> only (js_set xs) = only (js_set ys)"
proof -
  assume "set xs = set ys"
  then have "only (js_set xs) = Some l \<longleftrightarrow> only (js_set ys) = Some l" for l
    unfolding only_Some js_set_singleton by simp
  note * = this
  show ?thesis
  proof (cases "only (js_set xs)")
    case None
    then show ?thesis using * [of "the (only (js_set ys))"] by (cases "only (js_set ys)") simp_all
  next
    case (Some l)
    then show ?thesis using * [of l] by simp
  qed
qed

lemma day_row_perm: "mset cs = mset cs' \<Longrightarrow> day_row cs k = day_row cs' k"
proof -
  assume m: "mset cs = mset cs'"
  note l = lines_for_mset [OF m, of k]
  have "set (lines_for k cs) = set (lines_for k cs')" using l by (rule mset_eq_setD)
  then have s: "set (map (\<lambda>c. nvl (cb_loc c) LOC_NULL) (lines_for k cs)) =
      set (map (\<lambda>c. nvl (cb_loc c) LOC_NULL) (lines_for k cs'))" by simp
  show ?thesis
    by (rule planned_row.equality)
       (simp only: ph_day_row ph_location_day_row only_perm [OF s] sum_list_perm [OF l]
        | simp)+
qed

lemma day_rows_perm: "mset cs = mset cs' \<Longrightarrow> mset (day_rows cs) = mset (day_rows cs')"
proof -
  assume m: "mset cs = mset cs'"
  then have "mset (js_set (map cb_key cs)) = mset (js_set (map cb_key cs'))"
    using mset_eq_setD [OF m] by (simp add: set_eq_iff_mset_eq_distinct [symmetric])
  moreover have "day_row cs = day_row cs'" using day_row_perm [OF m] by blast
  ultimately show ?thesis unfolding day_rows_closed by simp
qed

text \<open>Nothing is lost or doubled: the rows add up to the lines.\<close>

lemma sum_over_keys:
  "(\<Sum>k \<leftarrow> js_set (map cb_key cs). sum_list (map f (lines_for k cs))) = sum_list (map f cs)"
  for f :: "contribution \<Rightarrow> real"
proof -
  have "(\<Sum>k \<in> set (map cb_key cs). sum_list (map f (lines_for k cs))) = sum_list (map f cs)"
  proof -
    have "finite K \<Longrightarrow> (\<Sum>k \<in> K. sum_list (map f (lines_for k cs))) = sum_list (map f (filter (\<lambda>c. cb_key c \<in> K) cs))" for K
    proof (induction cs)
      case (Cons c cs)
      have "sum_list (map f (lines_for k (c # cs))) =
          sum_list (map f (lines_for k cs)) + (if k = cb_key c then f c else 0)" for k
        by (simp add: lines_for_def)
      then have "(\<Sum>k \<in> K. sum_list (map f (lines_for k (c # cs)))) =
          (\<Sum>k \<in> K. sum_list (map f (lines_for k cs))) + (if cb_key c \<in> K then f c else 0)"
        using Cons.prems by (simp add: sum.distrib sum.delta)
      then show ?case using Cons by simp
    qed (simp add: lines_for_def)
    from this [of "set (map cb_key cs)"] show ?thesis by simp
  qed
  then show ?thesis by (simp add: sum_list_distinct_conv_sum_set)
qed

lemma day_rows_sums:
  "(\<Sum>r \<leftarrow> day_rows cs. ph_quantity r) = sum_list (map cb_qty cs)"
  "(\<Sum>r \<leftarrow> day_rows cs. ph_revenueKes r) = sum_list (map cb_rev cs)"
  unfolding day_rows_closed by (simp_all add: comp_def sum_over_keys)

section \<open>The planner as an aggregation\<close>

definition ignored_key :: "plan_maps \<Rightarrow> string \<Rightarrow> bool" where
  "ignored_key env key \<longleftrightarrow> key \<noteq> [] \<and> key \<in> set (in_ignoredSkus env)"

abbreviation line_key :: "pos_line \<Rightarrow> string" where
  "line_key l \<equiv> normalizeSku (Some (pn_sku l))"

definition line_contrib :: "plan_maps \<Rightarrow> date \<Rightarrow> string option \<Rightarrow> pos_line \<Rightarrow> contribution list" where
  "line_contrib env day loc l =
    (if ignored_key env (line_key l) then []
     else (case truthy (line_product env (line_key l)) of
             None \<Rightarrow> []
           | Some p \<Rightarrow>
               [\<lparr>cb_productId = p, cb_dayKey = day, cb_qty = pn_qty l,
                 cb_rev = lineRevenue (pn_subtotal l) (pn_price l) (pn_qty l) (map_of (in_priceByProductId env) p),
                 cb_loc = loc\<rparr>]))"

definition sale_contribs :: "plan_maps \<Rightarrow> (date \<Rightarrow> date) \<Rightarrow> pos_sale \<times> date \<Rightarrow> contribution list" where
  "sale_contribs env day_of = (\<lambda>(s, d).
    concat (map (line_contrib env (day_of d) (sale_location env (se_warehouse s))) (se_lines s)))"

lemma plan_till_line_agg: "pa_agg (plan_till_line env day loc l acc) = fold add_line (line_contrib env day loc l) (pa_agg acc)"
  by (simp add: plan_till_line_def line_contrib_def ignored_key_def Let_def split: option.split)

lemma plan_till_line_counts:
  "pa_matched (plan_till_line env day loc l acc) + pa_unmatched (plan_till_line env day loc l acc) +
     pa_ignored (plan_till_line env day loc l acc) =
   pa_matched acc + pa_unmatched acc + pa_ignored acc + 1"
  "pa_matched (plan_till_line env day loc l acc) = pa_matched acc + length (line_contrib env day loc l)"
  "pa_ignored (plan_till_line env day loc l acc) = pa_ignored acc + (if ignored_key env (line_key l) then 1 else 0)"
  by (simp_all add: plan_till_line_def line_contrib_def ignored_key_def Let_def split: option.split)

lemma plan_lines_agg:
  "pa_agg (fold (plan_till_line env day loc) ls acc) =
     fold add_line (concat (map (line_contrib env day loc) ls)) (pa_agg acc)"
  by (induction ls arbitrary: acc) (simp_all add: plan_till_line_agg)

lemma plan_lines_total:
  "pa_matched (fold (plan_till_line env day loc) ls acc) + pa_unmatched (fold (plan_till_line env day loc) ls acc) +
     pa_ignored (fold (plan_till_line env day loc) ls acc) =
   pa_matched acc + pa_unmatched acc + pa_ignored acc + length ls"
proof (induction ls arbitrary: acc)
  case (Cons l ls)
  show ?case using Cons [of "plan_till_line env day loc l acc"] plan_till_line_counts(1) [of env day loc l acc] by simp
qed simp

lemma plan_lines_matched:
  "pa_matched (fold (plan_till_line env day loc) ls acc) =
     pa_matched acc + length (concat (map (line_contrib env day loc) ls))"
  by (induction ls arbitrary: acc) (simp_all add: plan_till_line_counts(2))

lemma plan_sale_eq:
  "plan_sale env day_of s = fold (plan_till_line env (day_of (snd s)) (sale_location env (se_warehouse (fst s)))) (se_lines (fst s))"
  by (simp add: plan_sale_def case_prod_beta)

lemma sale_contribs_eq:
  "sale_contribs env day_of s =
    concat (map (line_contrib env (day_of (snd s)) (sale_location env (se_warehouse (fst s)))) (se_lines (fst s)))"
  by (simp add: sale_contribs_def case_prod_beta)

lemma plan_sales_agg:
  "pa_agg (fold (plan_sale env day_of) ss acc) =
     fold add_line (concat (map (sale_contribs env day_of) ss)) (pa_agg acc)"
  by (induction ss arbitrary: acc) (simp_all add: plan_sale_eq sale_contribs_eq plan_lines_agg)

lemma plan_sales_total:
  "pa_matched (fold (plan_sale env day_of) ss acc) + pa_unmatched (fold (plan_sale env day_of) ss acc) +
     pa_ignored (fold (plan_sale env day_of) ss acc) =
   pa_matched acc + pa_unmatched acc + pa_ignored acc + (\<Sum>s \<leftarrow> ss. length (se_lines (fst s)))"
proof (induction ss arbitrary: acc)
  case (Cons s ss)
  show ?case
    using Cons [of "plan_sale env day_of s acc"]
      plan_lines_total [of env "day_of (snd s)" "sale_location env (se_warehouse (fst s))" "se_lines (fst s)" acc]
    by (simp add: plan_sale_eq)
qed simp

lemma plan_sales_matched:
  "pa_matched (fold (plan_sale env day_of) ss acc) =
     pa_matched acc + length (concat (map (sale_contribs env day_of) ss))"
  by (induction ss arbitrary: acc) (simp_all add: plan_sale_eq sale_contribs_eq plan_lines_matched)

lemmas plan_sales_fold = plan_sales_agg plan_sales_total plan_sales_matched

text \<open>The plan, read off the dated receipts that are kept.\<close>

definition kept_sales :: "(string \<Rightarrow> date option) \<Rightarrow> pos_sale list \<Rightarrow> (pos_sale \<times> date) list option" where
  "kept_sales js_parse sales =
    those (map (dated_sale js_parse) (filter (\<lambda>s. \<not> isOnlineSale s) (dedupe_sales sales)))"

lemma those_map_dated: "those (map (dated_sale js_parse) ss) = Some dated \<Longrightarrow> map fst dated = ss"
  by (induction ss arbitrary: dated) (auto simp: dated_sale_def split: option.splits)

lemma planPosIngest_None: "planPosIngest js_parse env day_of sales = None \<longleftrightarrow> kept_sales js_parse sales = None"
  by (simp add: planPosIngest_def kept_sales_def Let_def split: option.split)

lemma planPosIngest_Some:
  assumes "planPosIngest js_parse env day_of sales = Some plan"
  obtains dated where "kept_sales js_parse sales = Some dated"
    and "map fst dated = filter (\<lambda>s. \<not> isOnlineSale s) (dedupe_sales sales)"
    and "pp_sales plan = map (planned_sale_of env) dated"
    and "pp_salesHistory plan = day_rows (concat (map (sale_contribs env day_of) dated))"
    and "pp_linesMatched plan + pp_linesUnmatched plan + pp_linesIgnored plan =
      (\<Sum>s \<leftarrow> dated. length (se_lines (fst s)))"
    and "pp_linesMatched plan = length (concat (map (sale_contribs env day_of) dated))"
    and "pp_salesExcluded plan = length (filter isOnlineSale (dedupe_sales sales))"
    and "pp_externalIds plan = map se_externalId (map fst dated)"
proof -
  from assms obtain dated where d: "kept_sales js_parse sales = Some dated"
    using planPosIngest_None [of js_parse env day_of sales] by (cases "kept_sales js_parse sales") simp_all
  note f = those_map_dated [OF d [unfolded kept_sales_def]]
  let ?a0 = "\<lparr>pa_matched = 0, pa_unmatched = 0, pa_ignored = 0, pa_agg = [], pa_queue = []\<rparr>"
  note folds = plan_sales_fold [of env day_of dated ?a0]
  show thesis
    by (rule that [OF d f])
       (use assms d f folds in \<open>auto simp: planPosIngest_def kept_sales_def Let_def day_rows_def simp del: length_concat\<close>)
qed

text \<open>The stored lines a re-derivation starts from.\<close>

definition matched_line :: "plan_maps \<Rightarrow> date \<Rightarrow> string option \<Rightarrow> planned_line \<Rightarrow> stored_pos_line list" where
  "matched_line env d w l =
    (if ignored_key env (normalizeSku (Some (tl_sku l))) then []
     else (case truthy (tl_productId l) of
             None \<Rightarrow> []
           | Some p \<Rightarrow> [\<lparr>kl_productId = p, kl_qty = tl_qty l, kl_price = tl_price l, kl_subtotal = tl_subtotal l,
                          kl_saleDate = d, kl_warehouse = w\<rparr>]))"

definition matched_lines :: "plan_maps \<Rightarrow> planned_sale list \<Rightarrow> stored_pos_line list" where
  "matched_lines env sales =
    concat (map (\<lambda>s. concat (map (matched_line env (sd_date s) (sd_warehouse s)) (sd_lines s))) sales)"

lemma lineRevenue_stored:
  "lineRevenue (Some (nvl a 0)) (Some (nvl b 0)) q p = lineRevenue a b q p"
  by (simp add: lineRevenue_def)

lemma matched_line_contrib:
  "map (stored_contribution (in_priceByProductId env) (in_warehouseToLocationId env) day_of)
     (matched_line env d w (planned_of env l)) =
   line_contrib env (day_of d) (sale_location env w) l"
  by (simp add: matched_line_def planned_of_def line_contrib_def stored_contribution_def
      sale_location_def lineRevenue_stored split: option.split)

lemma matched_lines_contribs:
  "map (stored_contribution (in_priceByProductId env) (in_warehouseToLocationId env) day_of)
     (matched_lines env (map (planned_sale_of env) dated)) =
   concat (map (sale_contribs env day_of) dated)"
  by (induction dated)
     (simp_all add: matched_lines_def sale_contribs_eq planned_sale_of_def map_concat comp_def
        case_prod_beta matched_line_contrib)

lemma rederive_planned:
  "planPosIngest js_parse env day_of sales = Some plan \<Longrightarrow>
   aggregateStoredPosLines (in_priceByProductId env) (in_warehouseToLocationId env) day_of
     (matched_lines env (pp_sales plan)) = pp_salesHistory plan"
  by (erule planPosIngest_Some) (simp add: aggregate_day_rows matched_lines_contribs)

text \<open>A repeated receipt keeps the last version sent.\<close>

lemma js_map_keys: "alist_keys (js_map ps) = js_set (map fst ps)"
proof (induction ps rule: rev_induct)
  case (snoc p ps)
  have "fst p \<in> set (js_set (map fst ps)) \<longleftrightarrow> fst p \<in> set (map fst ps)" by (rule arg_cong) simp
  then show ?case by (cases p) (simp add: js_map_snoc keys_AList_update js_set_snoc set_add_def snoc)
qed (simp add: js_set_def)

lemma js_map_ids: "p \<in> set (js_map (map (\<lambda>s. (f s, s)) ss)) \<Longrightarrow> fst p = f (snd p)"
proof -
  assume p: "p \<in> set (js_map (map (\<lambda>s. (f s, s)) ss))"
  have "distinct (alist_keys (js_map (map (\<lambda>s. (f s, s)) ss)))" by (simp add: js_map_keys)
  then have "map_of (js_map (map (\<lambda>s. (f s, s)) ss)) (fst p) = Some (snd p)"
    using p by (simp add: map_of_eq_Some_iff)
  then have "(fst p, snd p) \<in> set (rev (map (\<lambda>s. (f s, s)) ss))"
    unfolding map_of_js_map by (rule map_of_SomeD)
  then show ?thesis by auto
qed

lemma dedupe_ids: "map se_externalId (dedupe_sales sales) = js_set (map se_externalId sales)"
proof -
  have "map se_externalId (dedupe_sales sales) = alist_keys (js_map (map (\<lambda>s. (se_externalId s, s)) sales))"
    using js_map_ids [of _ se_externalId sales] by (auto simp: dedupe_sales_def intro!: map_cong)
  then show ?thesis by (simp add: js_map_keys comp_def)
qed

lemma map_of_find: "map_of (map (\<lambda>s. (f s, s)) xs) k = find (\<lambda>t. f t = k) xs"
  by (induction xs) auto

lemma dedupe_last:
  "s \<in> set (dedupe_sales sales) \<longleftrightarrow> find (\<lambda>t. se_externalId t = se_externalId s) (rev sales) = Some s"
proof -
  let ?m = "js_map (map (\<lambda>s. (se_externalId s, s)) sales)"
  have d: "distinct (alist_keys ?m)" by (simp add: js_map_keys)
  have "s \<in> set (dedupe_sales sales) \<longleftrightarrow> (se_externalId s, s) \<in> set ?m"
  proof
    assume "s \<in> set (dedupe_sales sales)"
    then obtain k where k: "(k, s) \<in> set ?m" by (auto simp: dedupe_sales_def)
    with js_map_ids [OF k] show "(se_externalId s, s) \<in> set ?m" by simp
  next
    assume "(se_externalId s, s) \<in> set ?m"
    from imageI [OF this, of snd] show "s \<in> set (dedupe_sales sales)" by (simp add: dedupe_sales_def)
  qed
  also have "\<dots> \<longleftrightarrow> map_of ?m (se_externalId s) = Some s" using d by (simp add: map_of_eq_Some_iff)
  also have "map_of ?m k = find (\<lambda>t. se_externalId t = k) (rev sales)" for k
    unfolding map_of_js_map rev_map by (rule map_of_find)
  finally show ?thesis .
qed

end
