(* ===== verification/PosIngest.thy ===== *)
theory PosIngest
  imports PosLedger
begin

text \<open>
  \<^verbatim>\<open>packages/pos/src/ingest.ts\<close>: the writer. The tables are those of one shop; a stored receipt
  holds its lines (the foreign key is required and deletes cascade), and \<open>tp_zone = None\<close> is a
  tenant id that names no shop. A transaction is one step, as the advisory lock makes it.
\<close>

record history_record =
  hy_productId :: string
  hy_date :: date
  hy_quantity :: real
  hy_revenueKes :: real
  hy_channel :: string
  hy_locationId :: "string option"

text \<open>The audit rows of the fix queue, with their actor and meta.\<close>

datatype till_audit =
  SkuMatched string string string nat
| SkuIgnored string string string

record pos_store =
  tp_zone :: "zone option"
  tp_products :: "match_product list"
  tp_ignoreRules :: "string list"
  tp_warehouseMaps :: "(string \<times> string) list"
  tp_sales :: "planned_sale list"
  tp_history :: "history_record list"
  tp_audit :: "till_audit list"

section \<open>Reading the maps\<close>

definition CHUNK :: nat where "CHUNK = 500"

function chunks :: "nat \<Rightarrow> 'a list \<Rightarrow> 'a list list" where
  "chunks n xs = (if xs = [] \<or> n = 0 then [] else take n xs # chunks n (drop n xs))"
  by auto
termination by (relation "measure (\<lambda>(_, xs). length xs)") auto

declare chunks.simps [simp del]

lemma concat_chunks: "0 < n \<Longrightarrow> concat (chunks n xs) = xs"
  by (induction n xs rule: chunks.induct) (subst chunks.simps, simp)

definition all_lines :: "pos_store \<Rightarrow> planned_line list" where
  "all_lines st = concat (map sd_lines (tp_sales st))"

text \<open>Distinct (sku, product) pairs of the lines that carry a product.\<close>

definition matched_history :: "pos_store \<Rightarrow> (string \<times> string) list" where
  "matched_history st =
    js_set (concat (map (\<lambda>l. case tl_productId l of None \<Rightarrow> [] | Some p \<Rightarrow> [(tl_sku l, p)]) (all_lines st)))"

definition learn :: "(string \<times> string) list \<Rightarrow> string \<times> string \<Rightarrow> (string \<times> string list) list \<Rightarrow> (string \<times> string list) list" where
  "learn skus = (\<lambda>(sku, productId) byKey.
    let key = normalizeSku (Some sku)
    in if productId = [] then byKey
       else if key = [] \<or> map_of skus key \<noteq> None then byKey
       else AList.update key (set_add productId (nvl (map_of byKey key) [])) byKey)"

definition mergeLearnedAliases :: "(string \<times> string) list \<Rightarrow> (string \<times> string) list \<Rightarrow> (string \<times> string) list" where
  "mergeLearnedAliases skus history =
    fold (\<lambda>(key, ids) m. case ids of [i] \<Rightarrow> AList.update key i m | _ \<Rightarrow> m) (fold (learn skus) history []) skus"

definition rollup_maps :: "pos_store \<Rightarrow> plan_maps" where
  "rollup_maps st =
    \<lparr>in_skuToProductId = mergeLearnedAliases (resolvePosSkuMap (tp_products st)) (matched_history st),
     in_ignoredSkus = js_set (map (\<lambda>v. normalizeSku (Some v)) (tp_ignoreRules st)),
     in_priceByProductId = js_map (map (\<lambda>p. (mp_id p, nvl (mp_priceKes p) 0)) (tp_products st)),
     in_warehouseToLocationId = js_map (map (\<lambda>(w, l). (normalizeSku (Some w), l)) (tp_warehouseMaps st))\<rparr>"

section \<open>Rebuilding days\<close>

text \<open>A stored line that counts on a wanted day: an explicit match is kept, otherwise the current
  maps decide.\<close>

definition rebuild_line :: "plan_maps \<Rightarrow> zone \<Rightarrow> date list \<Rightarrow> planned_sale \<Rightarrow> planned_line \<Rightarrow> stored_pos_line list" where
  "rebuild_line maps zone wanted s l =
    (let key = normalizeSku (Some (tl_sku l))
     in if key \<in> set (in_ignoredSkus maps) \<or> tenantDayKey zone (sd_date s) \<notin> set wanted then []
        else
          (let productId = (case tl_productId l of Some p \<Rightarrow> Some p | None \<Rightarrow> map_of (in_skuToProductId maps) key)
           in case truthy productId of
                None \<Rightarrow> []
              | Some p \<Rightarrow>
                  if map_of (in_priceByProductId maps) p = None then []
                  else [\<lparr>kl_productId = p, kl_qty = tl_qty l, kl_price = tl_price l, kl_subtotal = tl_subtotal l,
                         kl_saleDate = sd_date s, kl_warehouse = sd_warehouse s\<rparr>]))"

definition rebuild_lines :: "plan_maps \<Rightarrow> zone \<Rightarrow> date list \<Rightarrow> planned_sale list \<Rightarrow> stored_pos_line list" where
  "rebuild_lines maps zone dayKeys sales =
    (let days = map dayMarker dayKeys;
         since = Min (set days) - 36 * HOUR_MS;
         until = Max (set days) + 36 * HOUR_MS;
         raw = filter (\<lambda>s. sd_channel s = ''physical'' \<and> since \<le> sd_date s \<and> sd_date s < until) sales
     in concat (map (\<lambda>s. concat (map (rebuild_line maps zone dayKeys s) (sd_lines s))) raw))"

definition pos_row :: "planned_row \<Rightarrow> history_record" where
  "pos_row r = \<lparr>hy_productId = ph_productId r, hy_date = dayMarker (ph_dayKey r), hy_quantity = ph_quantity r,
     hy_revenueKes = ph_revenueKes r, hy_channel = ''pos'', hy_locationId = ph_locationId r\<rparr>"

definition create_chunks :: "'r list \<Rightarrow> 'r list \<Rightarrow> 'r list" where
  "create_chunks rows table = fold (\<lambda>chunk t. t @ chunk) (chunks CHUNK rows) table"

lemma create_chunks_append [simp]: "create_chunks rows table = table @ rows"
proof -
  have "fold (\<lambda>chunk t. t @ chunk) cs t = t @ concat cs" for cs and t :: "'a list"
    by (induction cs arbitrary: t) simp_all
  then show ?thesis by (simp add: create_chunks_def concat_chunks CHUNK_def)
qed

definition rebuildDays :: "plan_maps \<Rightarrow> zone \<Rightarrow> date list \<Rightarrow> pos_store \<Rightarrow> nat \<times> pos_store" where
  "rebuildDays maps zone dayKeys st =
    (if dayKeys = [] then (0, st)
     else
       (let wanted = js_set dayKeys;
            days = map dayMarker wanted;
            rows = aggregateStoredPosLines (in_priceByProductId maps) (in_warehouseToLocationId maps)
                     (tenantDayKey zone) (rebuild_lines maps zone wanted (tp_sales st));
            cleared = filter (\<lambda>h. \<not> (hy_channel h = ''pos'' \<and> hy_date h \<in> set days)) (tp_history st)
        in (length rows, st\<lparr>tp_history := create_chunks (map pos_row rows) cleared\<rparr>)))"

section \<open>Ingest\<close>

record pos_ingest_result =
  ig_salesIngested :: nat
  ig_salesExcluded :: nat
  ig_linesMatched :: nat
  ig_linesUnmatched :: nat
  ig_linesIgnored :: nat
  ig_salesHistoryRows :: nat
  ig_unmatchedSkus :: nat
  ig_sampleUnmatchedSkus :: "string list"

datatype ingest_outcome = UnknownTenant | InvalidDate | Ingested pos_ingest_result

definition resolved_sales :: "(string \<Rightarrow> date option) \<Rightarrow> zone \<Rightarrow> pos_sale list \<Rightarrow> pos_sale list" where
  "resolved_sales js_parse zone sales =
    map (\<lambda>s. s\<lparr>se_date := Instant (parsePosDate js_parse (se_date s) zone)\<rparr>) sales"

definition touched_days :: "zone \<Rightarrow> date list \<Rightarrow> date list" where
  "touched_days zone dates = js_set (map (tenantDayKey zone) dates)"

definition ingestPosSales :: "(string \<Rightarrow> date option) \<Rightarrow> pos_sale list \<Rightarrow> pos_store \<Rightarrow> ingest_outcome \<times> pos_store" where
  "ingestPosSales js_parse sales st =
    (case tp_zone st of
       None \<Rightarrow> (UnknownTenant, st)
     | Some zone \<Rightarrow>
         if sales = [] then
           (Ingested \<lparr>ig_salesIngested = 0, ig_salesExcluded = 0, ig_linesMatched = 0, ig_linesUnmatched = 0,
              ig_linesIgnored = 0, ig_salesHistoryRows = 0, ig_unmatchedSkus = 0, ig_sampleUnmatchedSkus = []\<rparr>, st)
         else
           (let maps = rollup_maps st
            in case planPosIngest js_parse maps (tenantDayKey zone) (resolved_sales js_parse zone sales) of
                 None \<Rightarrow> (InvalidDate, st)
               | Some plan \<Rightarrow>
                   (let externalIds = js_set (map se_externalId sales);
                        named = (\<lambda>s. sd_externalId s \<in> set externalIds);
                        previous = filter named (tp_sales st);
                        saleRows = pp_sales plan;
                        stored = create_chunks saleRows (filter (\<lambda>s. \<not> named s) (tp_sales st));
                        dayKeys = touched_days zone (map sd_date (previous @ saleRows));
                        (rebuilt, st') = rebuildDays maps zone dayKeys (st\<lparr>tp_sales := stored\<rparr>)
                    in (Ingested \<lparr>ig_salesIngested = length (pp_sales plan), ig_salesExcluded = pp_salesExcluded plan,
                          ig_linesMatched = pp_linesMatched plan, ig_linesUnmatched = pp_linesUnmatched plan,
                          ig_linesIgnored = pp_linesIgnored plan, ig_salesHistoryRows = rebuilt,
                          ig_unmatchedSkus = length (pp_unmatched plan),
                          ig_sampleUnmatchedSkus = map uq_sku (take 10 (pp_unmatched plan))\<rparr>, st'))))"

text \<open>The repair of a trailing window. A window out of range throws.\<close>

datatype heal_outcome = BadWindow | NoTenant | Healed nat nat

definition trailing_days :: "int \<Rightarrow> date \<Rightarrow> date list" where
  "trailing_days n today = map (\<lambda>i. dayKeyOf (today - i * DAY_MS)) [0..n - 1]"

definition healPosRollup :: "int \<Rightarrow> date \<Rightarrow> pos_store \<Rightarrow> heal_outcome \<times> pos_store" where
  "healPosRollup trailingDays now st =
    (if trailingDays < 1 \<or> 366 < trailingDays then (BadWindow, st)
     else
       (case tp_zone st of
          None \<Rightarrow> (NoTenant, st)
        | Some zone \<Rightarrow>
            (let today = dayMarker (tenantDayKey zone now);
                 days = trailing_days trailingDays today;
                 (rows, st') = rebuildDays (rollup_maps st) zone days st
             in (Healed (length days) rows, st'))))"

definition writeDerivedPosSalesHistory :: "planned_row list \<Rightarrow> pos_store \<Rightarrow> nat \<times> pos_store" where
  "writeDerivedPosSalesHistory rows st =
    (if rows = [] then (0, st)
     else
       (length rows,
        st\<lparr>tp_history := fold (\<lambda>chunk h.
              filter (\<lambda>r. \<not> (hy_channel r = ''pos'' \<and>
                 (\<exists>c \<in> set chunk. hy_productId r = ph_productId c \<and> hy_date r = dayMarker (ph_dayKey c)))) h
              @ map pos_row chunk) (chunks CHUNK rows) (tp_history st)\<rparr>))"

end
