(* ===== verification/PosLearn.thy ===== *)
theory PosLearn
  imports PosIngest
begin

text \<open>
  Which product a till code means: the catalogue's, when exactly one product has the code, else the
  one product every stored line of that code was matched to. A store is \<open>settled\<close> when each of its
  lines carries what the maps say; the operations of the ledger keep it so.
\<close>

section \<open>The learned links\<close>

definition learned :: "(string \<times> string) list \<Rightarrow> string \<Rightarrow> string set" where
  "learned hist k = {p. p \<noteq> [] \<and> (\<exists>sku. (sku, p) \<in> set hist \<and> normalizeSku (Some sku) = k)}"

lemma learned_Nil [simp]: "learned [] k = {}"
  by (simp add: learned_def)

lemma learned_snoc:
  "learned (hist @ [(sku, p)]) k = learned hist k \<union> (if p \<noteq> [] \<and> normalizeSku (Some sku) = k then {p} else {})"
  by (auto simp: learned_def)

lemma learn_fold:
  defines "m \<equiv> \<lambda>skus hist. fold (learn skus) hist []"
  shows "distinct (alist_keys (m skus hist)) \<and>
    (map_of (m skus hist) k = None \<longleftrightarrow> k = [] \<or> map_of skus k \<noteq> None \<or> learned hist k = {}) \<and>
    set (nvl (map_of (m skus hist) k) []) = (if k = [] \<or> map_of skus k \<noteq> None then {} else learned hist k) \<and>
    distinct (nvl (map_of (m skus hist) k) [])"
proof (induction hist arbitrary: k rule: rev_induct)
  case (snoc h hist)
  obtain sku p where h: "h = (sku, p)" by (cases h)
  let ?k = "normalizeSku (Some sku)" and ?m = "m skus hist"
  have st: "m skus (hist @ [h]) =
      (if p = [] \<or> ?k = [] \<or> map_of skus ?k \<noteq> None then ?m
       else AList.update ?k (set_add p (nvl (map_of ?m ?k) [])) ?m)"
    by (simp add: m_def h learn_def Let_def)
  note IHd = conjunct1 [OF snoc] and IH = conjunct1 [OF conjunct2 [OF snoc]]
    conjunct1 [OF conjunct2 [OF conjunct2 [OF snoc]]] conjunct2 [OF conjunct2 [OF conjunct2 [OF snoc]]]
  show ?case
  proof (cases "p = [] \<or> ?k = [] \<or> map_of skus ?k \<noteq> None")
    case True
    then have "m skus (hist @ [h]) = ?m" using st by simp
    moreover have "k = [] \<or> map_of skus k \<noteq> None \<or> learned (hist @ [h]) k = learned hist k"
      using True by (auto simp: h learned_snoc)
    ultimately show ?thesis using snoc [of k] by (cases "k = [] \<or> map_of skus k \<noteq> None") (simp_all, blast?)
  next
    case False
    then have e: "m skus (hist @ [h]) = AList.update ?k (set_add p (nvl (map_of ?m ?k) [])) ?m" using st by simp
    show ?thesis
    proof (cases "k = ?k")
      case True
      with False IHd IH [of ?k] show ?thesis unfolding e
        by (auto simp: update_conv' distinct_update h learned_snoc set_add_def)
    next
      case other: False
      with IHd IH [of k] show ?thesis unfolding e
        by (auto simp: update_conv' distinct_update h learned_snoc)
    qed
  qed
qed (simp add: m_def)

lemma merge_fold:
  "distinct (alist_keys m) \<Longrightarrow>
   map_of (fold (\<lambda>(key, ids) m. case ids of [i] \<Rightarrow> AList.update key i m | _ \<Rightarrow> m) m skus) k =
   (case map_of m k of Some [i] \<Rightarrow> Some i | _ \<Rightarrow> map_of skus k)"
proof (induction m arbitrary: skus)
  case (Cons e m)
  obtain key ids where e: "e = (key, ids)" by (cases e)
  have n: "key \<notin> set (alist_keys m)" using Cons.prems e by simp
  then have nk: "map_of m key = None" by (simp add: map_of_eq_None_iff)
  show ?case
    using Cons nk e
    by (cases "k = key") (auto simp: update_conv' split: list.split option.split)
qed simp

text \<open>The catalogue first; then the one product the code was ever matched to.\<close>

lemma merge_lookup:
  "map_of (mergeLearnedAliases skus hist) k = Some p \<longleftrightarrow>
   map_of skus k = Some p \<or> (map_of skus k = None \<and> k \<noteq> [] \<and> learned hist k = {p})"
proof -
  let ?m = "fold (learn skus) hist []"
  note f = learn_fold [of skus hist k]
  have d: "distinct (alist_keys ?m)" using f by blast
  have l: "map_of (mergeLearnedAliases skus hist) k = (case map_of ?m k of Some [i] \<Rightarrow> Some i | _ \<Rightarrow> map_of skus k)"
    unfolding mergeLearnedAliases_def by (rule merge_fold [OF d])
  have one: "map_of ?m k = Some [i] \<longleftrightarrow> k \<noteq> [] \<and> map_of skus k = None \<and> learned hist k = {i}" for i
  proof
    assume "map_of ?m k = Some [i]"
    with f have "\<not> (k = [] \<or> map_of skus k \<noteq> None \<or> learned hist k = {})"
      and "{i} = (if k = [] \<or> map_of skus k \<noteq> None then {} else learned hist k)" by simp_all
    then show "k \<noteq> [] \<and> map_of skus k = None \<and> learned hist k = {i}" by simp
  next
    assume a: "k \<noteq> [] \<and> map_of skus k = None \<and> learned hist k = {i}"
    with f have "map_of ?m k \<noteq> None" by (simp only: simp_thms insert_not_empty)
    then obtain ids where m: "map_of ?m k = Some ids" by blast
    with f a have ids: "map_of ?m k = Some ids" "set ids = {i}" "distinct ids" by simp_all
    then have "length ids = 1" using distinct_card [of ids] by simp
    with ids show "map_of ?m k = Some [i]" by (cases ids) auto
  qed
  show ?thesis
  proof (cases "\<exists>i. map_of ?m k = Some [i]")
    case True
    then obtain i where i: "map_of ?m k = Some [i]" by blast
    then have "map_of (mergeLearnedAliases skus hist) k = Some i" using l by simp
    then show ?thesis using one [of i] i by auto
  next
    case False
    then have "map_of (mergeLearnedAliases skus hist) k = map_of skus k"
      unfolding l by (auto split: option.split list.split)
    then show ?thesis using False one by auto
  qed
qed

end
