(* ===== verification/PosBooks.thy ===== *)
theory PosBooks
  imports PosLearn
begin

text \<open>
  The derived sales history against the ledger of receipts. \<open>in_step\<close> says that the shop's till
  history is the aggregate of the stored lines that count, for every product and day on which no line
  of an ignored code carries that product; a store is \<open>settled\<close> when each line carries the product
  the maps name. Ingest and repair keep both.
\<close>

section \<open>Settled lines\<close>

abbreviation tl_key :: "planned_line \<Rightarrow> string" where
  "tl_key l \<equiv> normalizeSku (Some (tl_sku l))"

definition settled_under :: "plan_maps \<Rightarrow> planned_line list \<Rightarrow> bool" where
  "settled_under env ls \<longleftrightarrow> (\<forall>l \<in> set ls. tl_productId l = line_product env (tl_key l))"

definition settled :: "pos_store \<Rightarrow> bool" where
  "settled st \<longleftrightarrow> settled_under (rollup_maps st) (all_lines st)"

lemma learned_history:
  "learned (matched_history st) k =
    {p. p \<noteq> [] \<and> (\<exists>l \<in> set (all_lines st). tl_productId l = Some p \<and> tl_key l = k)}"
  unfolding learned_def matched_history_def
  by (auto split: option.splits) (force split: option.splits)+

lemma maps_lookup:
  "map_of (in_skuToProductId (rollup_maps st)) k = Some p \<longleftrightarrow>
   map_of (resolvePosSkuMap (tp_products st)) k = Some p \<or>
   (map_of (resolvePosSkuMap (tp_products st)) k = None \<and> k \<noteq> [] \<and>
    {q. q \<noteq> [] \<and> (\<exists>l \<in> set (all_lines st). tl_productId l = Some q \<and> tl_key l = k)} = {p})"
  by (simp add: rollup_maps_def merge_lookup learned_history)

lemma maps_blank [simp]: "map_of (in_skuToProductId (rollup_maps st)) [] = None"
proof -
  have "map_of (in_skuToProductId (rollup_maps st)) [] \<noteq> Some p" for p
    unfolding maps_lookup by (simp add: resolve_unique)
  then show ?thesis by (meson not_Some_eq)
qed

lemma line_product_maps: "line_product (rollup_maps st) k = map_of (in_skuToProductId (rollup_maps st)) k"
  by (simp add: line_product_def)

text \<open>Lines written under a store's maps leave those maps as they are, for the codes written.\<close>

lemma settled_stable:
  assumes s: "settled_under (rollup_maps st) (all_lines st')" and p: "tp_products st' = tp_products st"
    and l: "l \<in> set (all_lines st')"
  shows "line_product (rollup_maps st') (tl_key l) = line_product (rollup_maps st) (tl_key l)"
proof -
  let ?k = "tl_key l" and ?skus = "resolvePosSkuMap (tp_products st)"
  let ?old = "map_of (in_skuToProductId (rollup_maps st)) ?k"
  let ?new = "map_of (in_skuToProductId (rollup_maps st')) ?k"
  have at: "tl_productId l' = ?old" if "l' \<in> set (all_lines st')" "tl_key l' = ?k" for l'
    using s that by (auto simp: settled_under_def line_product_maps)
  let ?L = "{q. q \<noteq> [] \<and> (\<exists>l' \<in> set (all_lines st'). tl_productId l' = Some q \<and> tl_key l' = ?k)}"
  have L: "?L = {q. q \<noteq> [] \<and> ?old = Some q}"
  proof (intro set_eqI iffI; clarsimp)
    fix q l' assume "l' \<in> set (all_lines st')" "tl_productId l' = Some q" "tl_key l' = ?k"
    then show "?old = Some q" using at by metis
  next
    fix q assume "?old = Some q"
    then show "\<exists>l' \<in> set (all_lines st'). tl_productId l' = Some q \<and> tl_key l' = ?k" using at [OF l] l by auto
  qed
  have "?new = Some q \<longleftrightarrow> ?old = Some q" for q
  proof (cases "map_of ?skus ?k")
    case (Some r)
    then show ?thesis using maps_lookup [of st' ?k q] maps_lookup [of st ?k q] p by auto
  next
    case None
    have new: "?new = Some q \<longleftrightarrow> ?k \<noteq> [] \<and> ?L = {q}" using maps_lookup [of st' ?k q] p None by simp
    show ?thesis
    proof
      assume "?new = Some q"
      then have "q \<in> ?L" using new by blast
      then show "?old = Some q" unfolding L by simp
    next
      assume o: "?old = Some q"
      then have k: "?k \<noteq> []" and q: "q \<noteq> []" using maps_lookup [of st ?k q] None by auto
      then have "?L = {q}" unfolding L using o by auto
      then show "?new = Some q" using new k by blast
    qed
  qed
  then have "?new = ?old" by (metis not_Some_eq)
  then show ?thesis by (simp add: line_product_maps)
qed

lemma settled_step:
  "settled_under (rollup_maps st) (all_lines st') \<Longrightarrow> tp_products st' = tp_products st \<Longrightarrow> settled st'"
  unfolding settled_def using settled_stable [of st st'] by (auto simp: settled_under_def)

lemma settled_planned: "settled_under env (concat (map sd_lines (map (planned_sale_of env) dated)))"
  by (auto simp: settled_under_def planned_sale_of_def planned_of_def case_prod_beta)

section \<open>The lines that count\<close>

definition ledger_line :: "plan_maps \<Rightarrow> planned_sale \<Rightarrow> planned_line \<Rightarrow> stored_pos_line list" where
  "ledger_line maps s l =
    (if tl_key l \<in> set (in_ignoredSkus maps) then []
     else (case truthy (tl_productId l) of
             None \<Rightarrow> []
           | Some p \<Rightarrow>
               if map_of (in_priceByProductId maps) p = None then []
               else [\<lparr>kl_productId = p, kl_qty = tl_qty l, kl_price = tl_price l, kl_subtotal = tl_subtotal l,
                      kl_saleDate = sd_date s, kl_warehouse = sd_warehouse s\<rparr>]))"

definition ledger_lines :: "plan_maps \<Rightarrow> planned_sale list \<Rightarrow> stored_pos_line list" where
  "ledger_lines maps sales =
    concat (map (\<lambda>s. concat (map (ledger_line maps s) (sd_lines s)))
      (filter (\<lambda>s. sd_channel s = ''physical'') sales))"

text \<open>The zones of the database lie between twelve hours behind and fourteen ahead.\<close>

definition zone_ok :: "zone \<Rightarrow> bool" where
  "zone_ok zone \<longleftrightarrow> (\<forall>d. - 12 * HOUR_MS \<le> zone d \<and> zone d \<le> 14 * HOUR_MS)"

lemma rebuild_settled:
  assumes "settled_under (rollup_maps st) ls" "l \<in> set ls"
  shows "rebuild_line (rollup_maps st) zone wanted s l =
    (if tenantDayKey zone (sd_date s) \<in> set wanted then ledger_line (rollup_maps st) s l else [])"
proof -
  have "tl_productId l = map_of (in_skuToProductId (rollup_maps st)) (tl_key l)"
    using assms by (simp add: settled_under_def line_product_maps)
  then have "(case tl_productId l of Some p \<Rightarrow> Some p | None \<Rightarrow> map_of (in_skuToProductId (rollup_maps st)) (tl_key l)) =
      tl_productId l" by (simp split: option.split)
  then show ?thesis by (simp add: rebuild_line_def ledger_line_def Let_def)
qed

text \<open>The 36 hours either side of the wanted days lose no sale of them.\<close>

lemma window_covers:
  assumes z: "zone_ok zone" and d: "tenantDayKey zone d \<in> set days"
  shows "Min (set days) - 36 * HOUR_MS \<le> d \<and> d < Max (set days) + 36 * HOUR_MS"
proof -
  let ?k = "tenantDayKey zone d"
  have k: "?k \<le> d + zone d \<and> d + zone d < ?k + DAY_MS" using tenantDayKey_iff [of ?k zone d] by simp
  have "Min (set days) \<le> ?k" "?k \<le> Max (set days)" using d by (simp_all add: Min_le Max_ge)
  moreover have "- 12 * HOUR_MS \<le> zone d \<and> zone d \<le> 14 * HOUR_MS" using z by (simp add: zone_ok_def)
  ultimately show ?thesis using k by linarith
qed

lemma rebuild_lines_ledger:
  assumes "settled_under (rollup_maps st) (concat (map sd_lines sales))" "zone_ok zone"
  shows "rebuild_lines (rollup_maps st) zone days sales =
    filter (\<lambda>l. tenantDayKey zone (kl_saleDate l) \<in> set days) (ledger_lines (rollup_maps st) sales)"
proof -
  let ?in = "\<lambda>s. Min (set days) - 36 * HOUR_MS \<le> sd_date s \<and> sd_date s < Max (set days) + 36 * HOUR_MS"
  have date: "k \<in> set (ledger_line (rollup_maps st) s l) \<Longrightarrow> kl_saleDate k = sd_date s" for k s l
    by (auto simp: ledger_line_def split: if_splits option.splits)
  have one: "concat (map (rebuild_line (rollup_maps st) zone days s) (sd_lines s)) =
      filter (\<lambda>l. tenantDayKey zone (kl_saleDate l) \<in> set days) (concat (map (ledger_line (rollup_maps st) s) (sd_lines s)))"
    if s: "s \<in> set sales" for s
  proof -
    have ls: "l \<in> set (sd_lines s) \<Longrightarrow> l \<in> set (concat (map sd_lines sales))" for l using s by auto
    show ?thesis
      unfolding filter_concat map_map comp_def
      by (rule arg_cong [where f = concat], rule map_cong [OF refl])
         (use rebuild_settled [OF assms(1) ls] date in \<open>auto simp: filter_id_conv filter_empty_conv\<close>)
  qed
  have "concat (map (\<lambda>s. concat (map (rebuild_line (rollup_maps st) zone days s) (sd_lines s)))
          (filter (\<lambda>s. sd_channel s = ''physical'' \<and> ?in s) ss)) =
      filter (\<lambda>l. tenantDayKey zone (kl_saleDate l) \<in> set days)
        (concat (map (\<lambda>s. concat (map (ledger_line (rollup_maps st) s) (sd_lines s)))
          (filter (\<lambda>s. sd_channel s = ''physical'') ss)))"
    if "set ss \<subseteq> set sales" for ss
    using that
  proof (induction ss)
    case (Cons s ss)
    have out: "filter (\<lambda>l. tenantDayKey zone (kl_saleDate l) \<in> set days) (concat (map (ledger_line (rollup_maps st) s) (sd_lines s))) = []"
      if "\<not> ?in s"
      using that window_covers [OF assms(2), of "sd_date s" days] date by (auto simp: filter_empty_conv)
    show ?case using Cons one [of s] out by auto
  qed simp
  then show ?thesis unfolding rebuild_lines_def ledger_lines_def Let_def dayMarker_def by simp
qed

section \<open>Rows of a day\<close>

lemma js_set_filter: "js_set (filter P xs) = filter P (js_set xs)"
  by (simp add: js_set_def rev_filter remdups_filter)

lemma day_rows_filter:
  "filter (\<lambda>r. P (ph_productId r, ph_dayKey r)) (day_rows cs) = day_rows (filter (\<lambda>c. P (cb_key c)) cs)"
proof -
  have keys: "map cb_key (filter (\<lambda>c. P (cb_key c)) cs) = filter P (map cb_key cs)"
    by (simp add: filter_map comp_def)
  have "lines_for k (filter (\<lambda>c. P (cb_key c)) cs) = lines_for k cs" if "P k" for k
    using that by (auto simp: lines_for_def intro!: filter_cong)
  then have "day_row (filter (\<lambda>c. P (cb_key c)) cs) k = day_row cs k" if "P k" for k
    using that by (simp add: day_row_def)
  then show ?thesis
    unfolding day_rows_closed keys js_set_filter by (simp add: filter_map comp_def)
qed

definition ledger_rows :: "plan_maps \<Rightarrow> zone \<Rightarrow> planned_sale list \<Rightarrow> planned_row list" where
  "ledger_rows maps zone sales =
    aggregateStoredPosLines (in_priceByProductId maps) (in_warehouseToLocationId maps) (tenantDayKey zone)
      (ledger_lines maps sales)"

abbreviation pos_rows :: "pos_store \<Rightarrow> history_record list" where
  "pos_rows st \<equiv> filter (\<lambda>h. hy_channel h = ''pos'') (tp_history st)"

text \<open>A product and day on which a stored line carries the product under a code the owner ignores: ingest and
  repair leave such a line out, and linking a code to the product counts it.\<close>

definition carries_ignored :: "zone \<Rightarrow> pos_store \<Rightarrow> string \<Rightarrow> date \<Rightarrow> bool" where
  "carries_ignored zone st p d \<longleftrightarrow>
    (\<exists>s \<in> set (tp_sales st). tenantDayKey zone (sd_date s) = d \<and>
       (\<exists>l \<in> set (sd_lines s). tl_productId l = Some p \<and> tl_key l \<in> set (in_ignoredSkus (rollup_maps st))))"

abbreviation rows_where :: "(string \<Rightarrow> date \<Rightarrow> bool) \<Rightarrow> history_record list \<Rightarrow> history_record list" where
  "rows_where G \<equiv> filter (\<lambda>h. G (hy_productId h) (hy_date h))"

abbreviation planned_where :: "(string \<Rightarrow> date \<Rightarrow> bool) \<Rightarrow> planned_row list \<Rightarrow> planned_row list" where
  "planned_where G \<equiv> filter (\<lambda>r. G (ph_productId r) (ph_dayKey r))"

definition in_step :: "zone \<Rightarrow> pos_store \<Rightarrow> bool" where
  "in_step zone st \<longleftrightarrow>
    mset (rows_where (\<lambda>p d. \<not> carries_ignored zone st p d) (pos_rows st)) =
    mset (map pos_row (planned_where (\<lambda>p d. \<not> carries_ignored zone st p d) (ledger_rows (rollup_maps st) zone (tp_sales st))))"

lemma ledger_rows_filter:
  "filter (\<lambda>r. ph_dayKey r \<in> D) (ledger_rows maps zone sales) =
    aggregateStoredPosLines (in_priceByProductId maps) (in_warehouseToLocationId maps) (tenantDayKey zone)
      (filter (\<lambda>l. tenantDayKey zone (kl_saleDate l) \<in> D) (ledger_lines maps sales))"
  unfolding ledger_rows_def aggregate_day_rows day_rows_filter [of "\<lambda>k. snd k \<in> D", simplified]
  by (simp add: filter_map comp_def stored_contribution_def)

lemma ledger_line_date: "k \<in> set (ledger_line maps s l) \<Longrightarrow> kl_saleDate k = sd_date s"
  by (auto simp: ledger_line_def split: if_splits option.splits)

lemma ledger_lines_filter:
  "filter (\<lambda>l. P (kl_saleDate l)) (ledger_lines maps sales) = ledger_lines maps (filter (\<lambda>s. P (sd_date s)) sales)"
proof (induction sales)
  case (Cons s sales)
  have "filter (\<lambda>l. P (kl_saleDate l)) (concat (map (ledger_line maps s) (sd_lines s))) =
      (if P (sd_date s) then concat (map (ledger_line maps s) (sd_lines s)) else [])"
    by (auto simp: filter_id_conv filter_empty_conv ledger_line_date)
  then show ?case using Cons by (auto simp: ledger_lines_def)
qed (simp add: ledger_lines_def)

text \<open>The rows of a set of days only depend on the receipts of those days.\<close>

lemma ledger_rows_days:
  "filter (\<lambda>r. ph_dayKey r \<in> D) (ledger_rows maps zone sales) =
   ledger_rows maps zone (filter (\<lambda>s. tenantDayKey zone (sd_date s) \<in> D) sales)"
  unfolding ledger_rows_filter unfolding ledger_rows_def ledger_lines_filter [of "\<lambda>d. tenantDayKey zone d \<in> D"] ..

lemma ledger_rows_maps:
  "in_ignoredSkus m = in_ignoredSkus m' \<Longrightarrow> in_priceByProductId m = in_priceByProductId m' \<Longrightarrow>
   in_warehouseToLocationId m = in_warehouseToLocationId m' \<Longrightarrow> ledger_rows m zone sales = ledger_rows m' zone sales"
proof -
  assume e: "in_ignoredSkus m = in_ignoredSkus m'" "in_priceByProductId m = in_priceByProductId m'"
    "in_warehouseToLocationId m = in_warehouseToLocationId m'"
  have "ledger_line m s = ledger_line m' s" for s unfolding ledger_line_def e ..
  then show ?thesis unfolding ledger_rows_def ledger_lines_def e by simp
qed

section \<open>Rebuilding keeps step\<close>

lemma rebuildDays_fields [simp]:
  "tp_sales (snd (rebuildDays maps zone days st)) = tp_sales st"
  "tp_products (snd (rebuildDays maps zone days st)) = tp_products st"
  "tp_ignoreRules (snd (rebuildDays maps zone days st)) = tp_ignoreRules st"
  "tp_warehouseMaps (snd (rebuildDays maps zone days st)) = tp_warehouseMaps st"
  "tp_zone (snd (rebuildDays maps zone days st)) = tp_zone st"
  "tp_audit (snd (rebuildDays maps zone days st)) = tp_audit st"
  by (simp_all add: rebuildDays_def Let_def)

lemma pos_row_channel [simp]:
  "hy_channel (pos_row r) = ''pos''" "hy_date (pos_row r) = ph_dayKey r" "hy_productId (pos_row r) = ph_productId r"
  by (simp_all add: pos_row_def dayMarker_def)

text \<open>What a rebuild leaves: other days and channels as they were, the days rebuilt from the ledger.\<close>

lemma rebuildDays_history:
  assumes "settled_under (rollup_maps st0) (all_lines st)" "zone_ok zone"
  shows "tp_history (snd (rebuildDays (rollup_maps st0) zone days st)) =
    filter (\<lambda>h. \<not> (hy_channel h = ''pos'' \<and> hy_date h \<in> set days)) (tp_history st) @
    map pos_row (filter (\<lambda>r. ph_dayKey r \<in> set days) (ledger_rows (rollup_maps st0) zone (tp_sales st)))"
proof -
  have "rebuild_lines (rollup_maps st0) zone (js_set days) (tp_sales st) =
      filter (\<lambda>l. tenantDayKey zone (kl_saleDate l) \<in> set days) (ledger_lines (rollup_maps st0) (tp_sales st))"
    using rebuild_lines_ledger [OF assms(1) [unfolded all_lines_def] assms(2), of "js_set days"] by simp
  moreover have "aggregateStoredPosLines p w d [] = []" for p w d by (simp add: aggregateStoredPosLines_def)
  ultimately show ?thesis by (simp add: rebuildDays_def Let_def ledger_rows_filter dayMarker_def)
qed

lemma mset_map_split: "mset (map f (filter (\<lambda>x. \<not> P x) xs)) + mset (map f (filter P xs)) = mset (map f xs)"
  by (induction xs) simp_all

lemma rows_where_map: "rows_where G (map pos_row rs) = map pos_row (planned_where G rs)"
  by (simp add: filter_map comp_def)

lemma mset_rows_where:
  assumes "mset (rows_where G hs) = mset (map pos_row (planned_where G rs))" and "\<And>p d. G' p d \<Longrightarrow> G p d"
  shows "mset (rows_where G' hs) = mset (map pos_row (planned_where G' rs))"
proof -
  have "rows_where G' (rows_where G hs) = rows_where G' hs" "planned_where G' (planned_where G rs) = planned_where G' rs"
    using assms(2) by (auto intro!: filter_cong)
  then show ?thesis using assms(1) by (metis mset_filter rows_where_map)
qed

text \<open>Rebuilding some days keeps in step whatever was in step, and brings those days in step.\<close>

lemma rebuild_keeps_step:
  assumes s: "settled_under (rollup_maps st0) (all_lines st)" and z: "zone_ok zone"
    and old: "mset (rows_where G (pos_rows st)) = mset (map pos_row (planned_where G (ledger_rows (rollup_maps st0) zone earlier)))"
    and same: "filter (\<lambda>s. tenantDayKey zone (sd_date s) \<notin> set days) earlier =
      filter (\<lambda>s. tenantDayKey zone (sd_date s) \<notin> set days) (tp_sales st)"
    and g: "\<And>p d. G' p d \<Longrightarrow> d \<notin> set days \<Longrightarrow> G p d"
  shows "mset (rows_where G' (pos_rows (snd (rebuildDays (rollup_maps st0) zone days st)))) =
    mset (map pos_row (planned_where G' (ledger_rows (rollup_maps st0) zone (tp_sales st))))"
proof -
  let ?m = "rollup_maps st0" and ?o = "\<lambda>p d. G' p d \<and> d \<notin> set days" and ?i = "\<lambda>p d. G' p d \<and> d \<in> set days"
  have off: "planned_where ?o rs = planned_where G' (filter (\<lambda>r. ph_dayKey r \<in> - set days) rs)" for rs
    by (auto intro!: filter_cong)
  have "mset (rows_where ?o (pos_rows st)) = mset (map pos_row (planned_where ?o (ledger_rows ?m zone earlier)))"
    by (rule mset_rows_where [OF old]) (use g in blast)
  also have "planned_where ?o (ledger_rows ?m zone earlier) = planned_where ?o (ledger_rows ?m zone (tp_sales st))"
    unfolding off ledger_rows_days using same by simp
  finally have a: "mset (rows_where ?o (pos_rows st)) = mset (map pos_row (planned_where ?o (ledger_rows ?m zone (tp_sales st))))" .
  have "mset (rows_where G' (pos_rows (snd (rebuildDays ?m zone days st)))) =
      mset (rows_where ?o (pos_rows st)) + mset (map pos_row (planned_where ?i (ledger_rows ?m zone (tp_sales st))))"
    unfolding rebuildDays_history [OF s z]
    by (simp add: filter_map comp_def) (intro arg_cong2 [where f = "(+)"] arg_cong [where f = "image_mset pos_row"] filter_mset_cong0, auto)
  also have "\<dots> = mset (map pos_row (planned_where G' (ledger_rows ?m zone (tp_sales st))))"
  proof -
    have "planned_where ?o rs = filter (\<lambda>r. ph_dayKey r \<notin> set days) (planned_where G' rs)"
      "planned_where ?i rs = filter (\<lambda>r. ph_dayKey r \<in> set days) (planned_where G' rs)" for rs
      by (auto intro!: filter_cong)
    then show ?thesis unfolding a by (simp only: mset_map_split [where P = "\<lambda>r. ph_dayKey r \<in> set days"])
  qed
  finally show ?thesis .
qed

end
