(* ===== verification/PosSteps.thy ===== *)
theory PosSteps
  imports PosBooks
begin

text \<open>
  Ingest and repair over a shop's ledger: what each leaves behind, and that both keep the store
  settled and its derived history in step. Posting the same window again changes nothing.
\<close>

section \<open>Ingest, taken apart\<close>

definition receipts_after :: "plan_maps \<Rightarrow> pos_sale list \<Rightarrow> (pos_sale \<times> date) list \<Rightarrow> planned_sale list \<Rightarrow> planned_sale list" where
  "receipts_after env sales dated stored =
    filter (\<lambda>s. sd_externalId s \<notin> se_externalId ` set sales) stored @ map (planned_sale_of env) dated"

definition days_after :: "zone \<Rightarrow> plan_maps \<Rightarrow> pos_sale list \<Rightarrow> (pos_sale \<times> date) list \<Rightarrow> planned_sale list \<Rightarrow> date list" where
  "days_after zone env sales dated stored =
    touched_days zone (map sd_date
      (filter (\<lambda>s. sd_externalId s \<in> se_externalId ` set sales) stored @ map (planned_sale_of env) dated))"

lemma ingest_Ingested:
  assumes i: "ingestPosSales js_parse sales st = (Ingested r, st')" and z: "tp_zone st = Some zone" and "sales \<noteq> []"
  obtains dated where "kept_sales js_parse (resolved_sales js_parse zone sales) = Some dated"
    and "map fst dated = filter (\<lambda>s. \<not> isOnlineSale s) (dedupe_sales (resolved_sales js_parse zone sales))"
    and "st' = snd (rebuildDays (rollup_maps st) zone (days_after zone (rollup_maps st) sales dated (tp_sales st))
      (st\<lparr>tp_sales := receipts_after (rollup_maps st) sales dated (tp_sales st)\<rparr>))"
    and "ig_linesMatched r + ig_linesUnmatched r + ig_linesIgnored r = (\<Sum>s \<leftarrow> dated. length (se_lines (fst s)))"
    and "ig_salesIngested r = length dated"
    and "ig_salesExcluded r = length (filter isOnlineSale (dedupe_sales (resolved_sales js_parse zone sales)))"
proof -
  let ?env = "rollup_maps st"
  obtain plan where p: "planPosIngest js_parse ?env (tenantDayKey zone) (resolved_sales js_parse zone sales) = Some plan"
    using i z assms(3) by (auto simp: ingestPosSales_def Let_def split: option.splits)
  from planPosIngest_Some [OF p] obtain dated where
    d: "kept_sales js_parse (resolved_sales js_parse zone sales) = Some dated"
       "map fst dated = filter (\<lambda>s. \<not> isOnlineSale s) (dedupe_sales (resolved_sales js_parse zone sales))"
    and rows: "pp_sales plan = map (planned_sale_of ?env) dated"
    and counts: "pp_linesMatched plan + pp_linesUnmatched plan + pp_linesIgnored plan =
      (\<Sum>s \<leftarrow> dated. length (se_lines (fst s)))"
      "pp_salesExcluded plan = length (filter isOnlineSale (dedupe_sales (resolved_sales js_parse zone sales)))"
    by metis
  show thesis
    by (rule that [OF d])
       (use i z assms(3) p rows counts in
         \<open>auto simp: ingestPosSales_def Let_def receipts_after_def days_after_def split: prod.splits\<close>)
qed

lemma rollup_same:
  assumes "tp_products st' = tp_products st" "tp_ignoreRules st' = tp_ignoreRules st"
    "tp_warehouseMaps st' = tp_warehouseMaps st"
  shows "ledger_rows (rollup_maps st') zone sales = ledger_rows (rollup_maps st) zone sales"
  by (rule ledger_rows_maps) (simp_all add: rollup_maps_def assms)

lemma settled_receipts_after:
  assumes "settled st"
  shows "settled_under (rollup_maps st)
    (all_lines (st\<lparr>tp_sales := receipts_after (rollup_maps st) sales dated (tp_sales st)\<rparr>))"
  using assms settled_planned [of "rollup_maps st" dated]
  unfolding settled_def settled_under_def all_lines_def receipts_after_def by auto

lemma ingest_same_outside:
  "filter (\<lambda>s. tenantDayKey zone (sd_date s) \<notin> set (days_after zone env sales dated stored)) stored =
   filter (\<lambda>s. tenantDayKey zone (sd_date s) \<notin> set (days_after zone env sales dated stored))
     (receipts_after env sales dated stored)"
  by (auto simp: days_after_def touched_days_def receipts_after_def filter_empty_conv intro!: filter_cong)

lemma carries_ignored_outside:
  assumes "filter (\<lambda>s. tenantDayKey zone (sd_date s) \<notin> days) (tp_sales st) = filter (\<lambda>s. tenantDayKey zone (sd_date s) \<notin> days) (tp_sales st')"
    and "tp_ignoreRules st' = tp_ignoreRules st" and "d \<notin> days"
  shows "carries_ignored zone st' p d = carries_ignored zone st p d"
proof -
  have "(s \<in> set (tp_sales st') \<and> tenantDayKey zone (sd_date s) = d) = (s \<in> set (tp_sales st) \<and> tenantDayKey zone (sd_date s) = d)" for s
    using arg_cong [OF assms(1), of set] assms(3) by (auto simp: set_eq_iff)
  moreover have "in_ignoredSkus (rollup_maps st') = in_ignoredSkus (rollup_maps st)"
    using assms(2) by (simp add: rollup_maps_def)
  ultimately show ?thesis unfolding carries_ignored_def by metis
qed

lemma ingest_keeps:
  assumes "ingestPosSales js_parse sales st = (out, st')"
  shows "tp_zone st' = tp_zone st \<and> tp_products st' = tp_products st \<and> tp_ignoreRules st' = tp_ignoreRules st \<and>
    tp_warehouseMaps st' = tp_warehouseMaps st \<and> tp_audit st' = tp_audit st"
  using assms by (auto simp: ingestPosSales_def Let_def split: option.splits if_splits prod.splits
      dest!: arg_cong [where f = snd])

lemma ingest_invariant:
  assumes i: "ingestPosSales js_parse sales st = (Ingested r, st')" and z: "tp_zone st = Some zone" "zone_ok zone"
    and s: "settled st" "in_step zone st"
  shows "settled st' \<and> in_step zone st'"
proof (cases "sales = []")
  case True
  then have "st' = st" using i z(1) by (simp add: ingestPosSales_def)
  then show ?thesis using s by simp
next
  case False
  from ingest_Ingested [OF i z(1) False] obtain dated where
    st': "st' = snd (rebuildDays (rollup_maps st) zone (days_after zone (rollup_maps st) sales dated (tp_sales st))
      (st\<lparr>tp_sales := receipts_after (rollup_maps st) sales dated (tp_sales st)\<rparr>))" by metis
  let ?env = "rollup_maps st"
  let ?st1 = "st\<lparr>tp_sales := receipts_after ?env sales dated (tp_sales st)\<rparr>"
  note under = settled_receipts_after [OF s(1), of sales dated]
  have lines: "all_lines st' = all_lines ?st1" by (simp add: st' all_lines_def)
  have "settled st'" by (rule settled_step [of st]) (use under lines in \<open>simp_all add: st'\<close>)
  moreover have "mset (rows_where (\<lambda>p d. \<not> carries_ignored zone st' p d) (pos_rows st')) =
      mset (map pos_row (planned_where (\<lambda>p d. \<not> carries_ignored zone st' p d) (ledger_rows ?env zone (tp_sales ?st1))))"
    unfolding st'
  proof (rule rebuild_keeps_step [OF under z(2), where G = "\<lambda>p d. \<not> carries_ignored zone st p d" and earlier = "tp_sales st"], fold st')
    show "mset (rows_where (\<lambda>p d. \<not> carries_ignored zone st p d) (pos_rows ?st1)) =
        mset (map pos_row (planned_where (\<lambda>p d. \<not> carries_ignored zone st p d) (ledger_rows ?env zone (tp_sales st))))"
      using s(2) by (simp add: in_step_def)
    show "filter (\<lambda>s. tenantDayKey zone (sd_date s) \<notin> set (days_after zone ?env sales dated (tp_sales st))) (tp_sales st) =
        filter (\<lambda>s. tenantDayKey zone (sd_date s) \<notin> set (days_after zone ?env sales dated (tp_sales st))) (tp_sales ?st1)"
      by (simp add: ingest_same_outside)
    then show "\<not> carries_ignored zone st' p d \<Longrightarrow> d \<notin> set (days_after zone ?env sales dated (tp_sales st)) \<Longrightarrow>
        \<not> carries_ignored zone st p d" for p d
      using carries_ignored_outside [of zone "set (days_after zone ?env sales dated (tp_sales st))" st st' d p] by (simp add: st')
  qed
  then have "in_step zone st'"
    unfolding in_step_def using rollup_same [of st' st] by (simp add: st')
  ultimately show ?thesis ..
qed

lemma heal_invariant:
  assumes h: "healPosRollup n now st = (out, st')" and z: "tp_zone st = Some zone" "zone_ok zone"
    and s: "settled st" "in_step zone st"
  shows "settled st' \<and> in_step zone st' \<and> tp_sales st' = tp_sales st"
proof (cases "n < 1 \<or> 366 < n")
  case True
  then show ?thesis using h s by (simp add: healPosRollup_def)
next
  case False
  then have st': "st' = snd (rebuildDays (rollup_maps st) zone (trailing_days n (dayMarker (tenantDayKey zone now))) st)"
    using h z(1) by (auto simp: healPosRollup_def Let_def split: prod.splits)
  note under = s(1) [unfolded settled_def]
  have "settled st'" by (rule settled_step [of st]) (use under in \<open>simp_all add: st' all_lines_def\<close>)
  moreover have "rollup_maps st' = rollup_maps st" by (simp add: st' rollup_maps_def matched_history_def all_lines_def)
  then have c: "carries_ignored zone st' p d = carries_ignored zone st p d" for p d
    by (simp add: carries_ignored_def st')
  have "in_step zone st'"
    unfolding in_step_def c \<open>rollup_maps st' = rollup_maps st\<close>
    unfolding st' rebuildDays_fields
    by (rule rebuild_keeps_step [OF under z(2) s(2) [unfolded in_step_def]]) auto
  ultimately show ?thesis by (simp add: st')
qed

text \<open>A repair rebuilds the days it covers from the ledger, the lines of ignored codes left out.\<close>

lemma heal_days:
  assumes "settled st" and "tp_zone st = Some zone" "zone_ok zone" and "1 \<le> n" "n \<le> 366"
    and "d \<in> set (trailing_days n (dayMarker (tenantDayKey zone now)))"
  shows "mset (filter (\<lambda>h. hy_date h = d) (pos_rows (snd (healPosRollup n now st)))) =
    mset (map pos_row (filter (\<lambda>r. ph_dayKey r = d) (ledger_rows (rollup_maps st) zone (tp_sales st))))"
proof -
  let ?days = "trailing_days n (dayMarker (tenantDayKey zone now))" and ?R = "ledger_rows (rollup_maps st) zone (tp_sales st)"
  have h: "snd (healPosRollup n now st) = snd (rebuildDays (rollup_maps st) zone ?days st)"
    using assms(2,4,5) by (simp add: healPosRollup_def Let_def case_prod_beta)
  have "filter (\<lambda>r. ph_dayKey r = d) (filter (\<lambda>r. ph_dayKey r \<in> set ?days) ?R) = filter (\<lambda>r. ph_dayKey r = d) ?R"
    using assms(6) by (auto intro!: filter_cong)
  moreover have "filter (\<lambda>h. hy_date h = d) (filter (\<lambda>h. hy_channel h = ''pos'')
      (filter (\<lambda>h. \<not> (hy_channel h = ''pos'' \<and> hy_date h \<in> set ?days)) (tp_history st))) = []"
    using assms(6) by (auto simp: filter_empty_conv)
  moreover have "filter (\<lambda>h. hy_date h = d) (filter (\<lambda>h. hy_channel h = ''pos'') (map pos_row rs)) = map pos_row (filter (\<lambda>r. ph_dayKey r = d) rs)" for rs
    by (simp add: filter_map comp_def)
  ultimately show ?thesis
    unfolding h rebuildDays_history [OF assms(1) [unfolded settled_def] assms(3)] filter_append by simp
qed

section \<open>Posting twice\<close>

lemma kept_ids:
  "map fst dated = filter (\<lambda>s. \<not> isOnlineSale s) (dedupe_sales (resolved_sales js_parse zone sales)) \<Longrightarrow>
   s \<in> set dated \<Longrightarrow> se_externalId (fst s) \<in> se_externalId ` set sales"
proof -
  assume m: "map fst dated = filter (\<lambda>s. \<not> isOnlineSale s) (dedupe_sales (resolved_sales js_parse zone sales))"
    and "s \<in> set dated"
  then have "fst s \<in> set (dedupe_sales (resolved_sales js_parse zone sales))"
    by (metis filter_is_subset imageI list.set_map subsetD)
  then have "se_externalId (fst s) \<in> set (map se_externalId (dedupe_sales (resolved_sales js_parse zone sales)))" by simp
  then show ?thesis unfolding dedupe_ids by (auto simp: resolved_sales_def)
qed

lemma ingest_exists:
  "tp_zone st = Some zone \<Longrightarrow> sales \<noteq> [] \<Longrightarrow>
   planPosIngest js_parse (rollup_maps st) (tenantDayKey zone) (resolved_sales js_parse zone sales) \<noteq> None \<Longrightarrow>
   \<exists>r st'. ingestPosSales js_parse sales st = (Ingested r, st')"
  by (auto simp: ingestPosSales_def Let_def case_prod_beta)

lemma ingest_again:
  assumes i: "ingestPosSales js_parse sales st = (Ingested r, st')" and z: "tp_zone st = Some zone" "zone_ok zone"
    and s: "settled st"
  shows "\<exists>r' st''. ingestPosSales js_parse sales st' = (Ingested r', st'') \<and>
    tp_sales st'' = tp_sales st' \<and> mset (tp_history st'') = mset (tp_history st')"
proof (cases "sales = []")
  case True
  then show ?thesis using i z(1) by (simp add: ingestPosSales_def)
next
  case False
  let ?env = "rollup_maps st" and ?env' = "rollup_maps st'"
  from ingest_Ingested [OF i z(1) False] obtain dated where
    d: "kept_sales js_parse (resolved_sales js_parse zone sales) = Some dated"
    "map fst dated = filter (\<lambda>s. \<not> isOnlineSale s) (dedupe_sales (resolved_sales js_parse zone sales))"
    and st': "st' = snd (rebuildDays ?env zone (days_after zone ?env sales dated (tp_sales st))
      (st\<lparr>tp_sales := receipts_after ?env sales dated (tp_sales st)\<rparr>))" by metis
  have z': "tp_zone st' = Some zone" using ingest_keeps [OF i] z(1) by simp
  have sales': "tp_sales st' = receipts_after ?env sales dated (tp_sales st)" by (simp add: st')
  have "planPosIngest js_parse ?env' (tenantDayKey zone) (resolved_sales js_parse zone sales) \<noteq> None"
    unfolding planPosIngest_None using d(1) by simp
  with ingest_exists [OF z' False] obtain r' st'' where i': "ingestPosSales js_parse sales st' = (Ingested r', st'')"
    by blast
  from ingest_Ingested [OF i' z' False] d(1) have
    st'': "st'' = snd (rebuildDays ?env' zone (days_after zone ?env' sales dated (tp_sales st'))
      (st'\<lparr>tp_sales := receipts_after ?env' sales dated (tp_sales st')\<rparr>))" by (metis option.inject)
  have same: "planned_sale_of ?env' p = planned_sale_of ?env p" if p: "p \<in> set dated" for p
  proof -
    have "line_product ?env' (line_key l) = line_product ?env (line_key l)" if l: "l \<in> set (se_lines (fst p))" for l
    proof -
      have "planned_of ?env l \<in> set (all_lines st')"
        using p l unfolding all_lines_def sales' receipts_after_def
        by (force simp: planned_sale_of_def case_prod_beta)
      moreover have "settled_under ?env (all_lines st')"
        using settled_receipts_after [OF s, of sales dated] sales' by (simp add: all_lines_def)
      ultimately show ?thesis
        using settled_stable [of st st' "planned_of ?env l"] ingest_keeps [OF i] by (simp add: planned_of_def)
    qed
    then show ?thesis by (simp add: planned_sale_of_def planned_of_def case_prod_beta)
  qed
  have "tp_sales st'' = receipts_after ?env' sales dated (receipts_after ?env sales dated (tp_sales st))"
    by (simp add: st'' sales')
  also have "\<dots> = receipts_after ?env sales dated (tp_sales st)"
    using same kept_ids [OF d(2)] by (auto simp: receipts_after_def planned_sale_of_def case_prod_beta filter_empty_conv)
  finally have ts: "tp_sales st'' = tp_sales st'" using sales' by simp
  let ?days = "days_after zone ?env sales dated (tp_sales st)" and ?days' = "days_after zone ?env' sales dated (tp_sales st')"
  have sub: "set ?days' \<subseteq> set ?days"
  proof -
    have "map (planned_sale_of ?env') dated = map (planned_sale_of ?env) dated" using same by simp
    then show ?thesis unfolding sales' days_after_def touched_days_def receipts_after_def by auto
  qed
  have under: "settled_under ?env (all_lines (st\<lparr>tp_sales := receipts_after ?env sales dated (tp_sales st)\<rparr>))"
    by (rule settled_receipts_after [OF s])
  have settled': "settled st'"
    by (rule settled_step [of st]) (use under in \<open>simp_all add: st' all_lines_def\<close>)
  have under': "settled_under ?env' (all_lines (st'\<lparr>tp_sales := receipts_after ?env' sales dated (tp_sales st')\<rparr>))"
    by (rule settled_receipts_after [OF settled'])
  let ?R = "ledger_rows ?env zone (tp_sales st')"
  have R: "ledger_rows ?env' zone (tp_sales st'') = ?R"
    using rollup_same [of st' st] ts by (simp add: st')
  have h': "tp_history st' = filter (\<lambda>h. \<not> (hy_channel h = ''pos'' \<and> hy_date h \<in> set ?days)) (tp_history st) @
      map pos_row (filter (\<lambda>r. ph_dayKey r \<in> set ?days) ?R)"
    using rebuildDays_history [OF under z(2), of ?days] by (simp add: st')
  have h'': "tp_history st'' = filter (\<lambda>h. \<not> (hy_channel h = ''pos'' \<and> hy_date h \<in> set ?days')) (tp_history st') @
      map pos_row (filter (\<lambda>r. ph_dayKey r \<in> set ?days') ?R)"
    using rebuildDays_history [OF under' z(2), of ?days'] R by (simp add: st'')
  have "filter (\<lambda>h. hy_channel h = ''pos'' \<and> hy_date h \<in> set ?days') (tp_history st') =
      map pos_row (filter (\<lambda>r. ph_dayKey r \<in> set ?days') ?R)"
  proof -
    have "filter (\<lambda>r. ph_dayKey r \<in> set ?days') (filter (\<lambda>r. ph_dayKey r \<in> set ?days) ?R) = filter (\<lambda>r. ph_dayKey r \<in> set ?days') ?R"
      using sub by (auto intro!: filter_cong)
    moreover have "filter (\<lambda>h. hy_channel h = ''pos'' \<and> hy_date h \<in> set ?days')
        (filter (\<lambda>h. \<not> (hy_channel h = ''pos'' \<and> hy_date h \<in> set ?days)) (tp_history st)) = []"
      using sub by (auto simp: filter_empty_conv)
    moreover have "filter (\<lambda>h. hy_channel h = ''pos'' \<and> hy_date h \<in> D) (map pos_row rs) = map pos_row (filter (\<lambda>r. ph_dayKey r \<in> D) rs)" for D rs
      by (simp add: filter_map comp_def)
    ultimately show ?thesis unfolding h' filter_append by simp
  qed
  moreover have "mset (tp_history st') = mset (filter (\<lambda>h. hy_channel h = ''pos'' \<and> hy_date h \<in> set ?days') (tp_history st')) +
      mset (filter (\<lambda>h. \<not> (hy_channel h = ''pos'' \<and> hy_date h \<in> set ?days')) (tp_history st'))"
    by (simp only: mset_filter) (rule multiset_partition)
  ultimately have "mset (tp_history st'') = mset (tp_history st')" unfolding h'' mset_append by (simp only: add.commute)
  then show ?thesis using i' ts by blast
qed

end
