(* ===== verification/PosFix.thy ===== *)
theory PosFix
  imports PosSteps
begin

text \<open>
  \<^verbatim>\<open>apps/web/lib/pos/match.ts\<close>: the owner's fixes. A till code is linked to a product, which
  back-fills the product's history, or it is marked as not a product. The audit row follows the
  transaction. The step relation composes the operations over one shop's ledger.
\<close>

definition NAIROBI :: zone where
  "NAIROBI d = 3 * HOUR_MS"

definition ledger_stored :: "planned_sale \<Rightarrow> string \<Rightarrow> planned_line \<Rightarrow> stored_pos_line" where
  "ledger_stored s productId l =
    \<lparr>kl_productId = productId, kl_qty = tl_qty l, kl_price = tl_price l, kl_subtotal = tl_subtotal l,
     kl_saleDate = sd_date s, kl_warehouse = sd_warehouse s\<rparr>"

definition product_lines :: "string \<Rightarrow> planned_sale list \<Rightarrow> stored_pos_line list" where
  "product_lines productId sales =
    concat (map (\<lambda>s. map (ledger_stored s productId) (filter (\<lambda>l. tl_productId l = Some productId) (sd_lines s))) sales)"

definition rederiveProductPosHistory :: "string \<Rightarrow> real \<Rightarrow> zone \<Rightarrow> pos_store \<Rightarrow> pos_store" where
  "rederiveProductPosHistory productId price zone st =
    (let warehouses = js_map (map (\<lambda>(w, l). (normalizeSku (Some w), l)) (tp_warehouseMaps st));
         rows = aggregateStoredPosLines [(productId, price)] warehouses (tenantDayKey zone)
                  (product_lines productId (tp_sales st));
         cleared = filter (\<lambda>h. \<not> (hy_productId h = productId \<and> hy_channel h = ''pos'')) (tp_history st)
     in st\<lparr>tp_history := cleared @ map pos_row rows\<rparr>)"

datatype match_outcome = MatchedLines nat | MatchNoProduct | MatchNoLines | MatchBadSku

definition link_lines :: "string \<Rightarrow> string \<Rightarrow> planned_sale list \<Rightarrow> planned_sale list" where
  "link_lines target productId sales =
    map (\<lambda>s. s\<lparr>sd_lines := update_where (\<lambda>l. tl_productId l = None \<and> normalizeSku (Some (tl_sku l)) = target)
      (\<lambda>l. l\<lparr>tl_productId := Some productId\<rparr>) (sd_lines s)\<rparr>) sales"

definition matchPosSku :: "string \<Rightarrow> string \<Rightarrow> string \<Rightarrow> pos_store \<Rightarrow> match_outcome \<times> pos_store" where
  "matchPosSku actor sku productId st =
    (let target = normalizeSku (Some sku)
     in if target = [] then (MatchBadSku, st)
        else
          (case find (\<lambda>p. mp_id p = productId) (tp_products st) of
             None \<Rightarrow> (MatchNoProduct, st)
           | Some product \<Rightarrow>
               (let n = count_where (\<lambda>l. tl_productId l = None \<and> normalizeSku (Some (tl_sku l)) = target) (all_lines st)
                in if n = 0 then (MatchNoLines, st)
                   else
                     (let linked = st\<lparr>tp_sales := link_lines target (mp_id product) (tp_sales st)\<rparr>;
                          derived = rederiveProductPosHistory (mp_id product) (nvl (mp_priceKes product) 0)
                                      (nvl (tp_zone st) NAIROBI) linked
                      in (MatchedLines n,
                          derived\<lparr>tp_audit := tp_audit derived @ [SkuMatched actor productId (js_trim sku) n]\<rparr>)))))"

datatype ignore_outcome = Ignored | IgnoreBadSku

definition ignorePosSku :: "string \<Rightarrow> string \<Rightarrow> pos_store \<Rightarrow> ignore_outcome \<times> pos_store" where
  "ignorePosSku actor sku st =
    (let value = normalizeSku (Some sku)
     in if value = [] then (IgnoreBadSku, st)
        else (Ignored, st\<lparr>tp_ignoreRules := set_add value (tp_ignoreRules st),
                          tp_audit := tp_audit st @ [SkuIgnored actor value (js_trim sku)]\<rparr>))"

section \<open>The ledger as a state machine\<close>

text \<open>The operations of a shop whose catalogue and till maps stay as they are, with any arguments: the owner may
  link or ignore any code, an ignored one or one that means a product included.\<close>

inductive till_step :: "(string \<Rightarrow> date option) \<Rightarrow> pos_store \<Rightarrow> pos_store \<Rightarrow> bool" for js_parse where
  post: "ingestPosSales js_parse sales st = (out, st') \<Longrightarrow> till_step js_parse st st'"
| repair: "healPosRollup n now st = (out, st') \<Longrightarrow> till_step js_parse st st'"
| link: "matchPosSku actor sku productId st = (out, st') \<Longrightarrow> till_step js_parse st st'"
| ignore: "ignorePosSku actor sku st = (out, st') \<Longrightarrow> till_step js_parse st st'"

inductive till_reachable :: "(string \<Rightarrow> date option) \<Rightarrow> pos_store \<Rightarrow> pos_store \<Rightarrow> bool" for js_parse s0 where
  start: "till_reachable js_parse s0 s0"
| step: "till_reachable js_parse s0 st \<Longrightarrow> till_step js_parse st st' \<Longrightarrow> till_reachable js_parse s0 st'"

text \<open>A shop with a catalogue and no receipts yet.\<close>

definition fresh_ledger :: "zone \<Rightarrow> pos_store \<Rightarrow> bool" where
  "fresh_ledger zone st \<longleftrightarrow>
    tp_zone st = Some zone \<and> zone_ok zone \<and> tp_sales st = [] \<and> pos_rows st = [] \<and> tp_ignoreRules st = [] \<and>
    distinct (map mp_id (tp_products st)) \<and> [] \<notin> set (map mp_id (tp_products st))"

definition ledger_inv :: "zone \<Rightarrow> pos_store \<Rightarrow> bool" where
  "ledger_inv zone st \<longleftrightarrow>
    tp_zone st = Some zone \<and> zone_ok zone \<and>
    distinct (map mp_id (tp_products st)) \<and> [] \<notin> set (map mp_id (tp_products st)) \<and>
    (\<forall>s \<in> set (tp_sales st). sd_channel s = ''physical'') \<and>
    settled st \<and> in_step zone st"

section \<open>Keeping the invariant\<close>

lemma ingest_refused: "ingestPosSales js_parse sales st = (out, st') \<Longrightarrow> (\<forall>r. out \<noteq> Ingested r) \<Longrightarrow> st' = st"
  by (auto simp: ingestPosSales_def Let_def split: option.splits if_splits prod.splits)

lemma post_keeps_inv:
  assumes i: "ingestPosSales js_parse sales st = (out, st')" and inv: "ledger_inv zone st"
  shows "ledger_inv zone st'"
proof (cases "(\<forall>r. out \<noteq> Ingested r) \<or> sales = []")
  case True
  then have "st' = st" using ingest_refused [OF i] i inv by (auto simp: ingestPosSales_def ledger_inv_def)
  then show ?thesis using inv by simp
next
  case False
  then obtain r where o: "out = Ingested r" by blast
  have z: "tp_zone st = Some zone" "zone_ok zone" and s: "settled st" "in_step zone st"
    using inv by (simp_all add: ledger_inv_def)
  note keep = ingest_keeps [OF i]
  from ingest_Ingested [OF i [unfolded o] z(1)] False obtain dated where
    st': "st' = snd (rebuildDays (rollup_maps st) zone (days_after zone (rollup_maps st) sales dated (tp_sales st))
      (st\<lparr>tp_sales := receipts_after (rollup_maps st) sales dated (tp_sales st)\<rparr>))" by metis
  have "\<forall>s \<in> set (tp_sales st'). sd_channel s = ''physical''"
    using inv by (auto simp: st' receipts_after_def ledger_inv_def planned_sale_of_def case_prod_beta)
  then show ?thesis
    using ingest_invariant [OF i [unfolded o] z s] keep inv by (simp add: ledger_inv_def)
qed

lemma heal_keeps_fields:
  "healPosRollup n now st = (out, st') \<Longrightarrow>
   tp_zone st' = tp_zone st \<and> tp_products st' = tp_products st \<and> tp_ignoreRules st' = tp_ignoreRules st \<and>
   tp_warehouseMaps st' = tp_warehouseMaps st \<and> tp_sales st' = tp_sales st"
  by (auto simp: healPosRollup_def Let_def case_prod_beta split: option.splits if_splits)

lemma repair_keeps_inv:
  assumes h: "healPosRollup n now st = (out, st')" and inv: "ledger_inv zone st"
  shows "ledger_inv zone st'"
proof -
  have z: "tp_zone st = Some zone" "zone_ok zone" and s: "settled st" "in_step zone st"
    using inv by (simp_all add: ledger_inv_def)
  note keep = heal_keeps_fields [OF h]
  then have "rollup_maps st' = rollup_maps st" by (simp add: rollup_maps_def matched_history_def all_lines_def)
  then show ?thesis using heal_invariant [OF h z s] keep inv by (simp add: ledger_inv_def)
qed

text \<open>A normalised code is its own normal form.\<close>

lemma blank_lower [simp]:
  "is_blank (if 65 \<le> char_code c \<and> char_code c \<le> 90 then char_of (char_code c + 32) else c) = is_blank c"
  by (auto simp: is_blank_def char_code_def)

lemma js_trim_lower: "js_trim (js_lower s) = js_lower (js_trim s)"
  by (simp add: js_trim_def js_lower_def dropWhile_map rev_map comp_def)

lemma dropWhile_idem: "dropWhile P (dropWhile P xs) = dropWhile P xs"
  by (induction xs) auto

lemma dropWhile_rev_idem: "dropWhile P (rev (dropWhile P (rev (dropWhile P xs)))) = rev (dropWhile P (rev (dropWhile P xs)))"
proof (cases "dropWhile P (rev (dropWhile P xs)) = []")
  case False
  then have ne: "dropWhile P xs \<noteq> []" by (cases "dropWhile P xs = []") simp_all
  then have h: "\<not> P (hd (dropWhile P xs))" by (rule hd_dropWhile)
  have "rev (dropWhile P (rev (dropWhile P xs))) \<noteq> []" using False by simp
  moreover have "\<exists>zs. dropWhile P xs = rev (dropWhile P (rev (dropWhile P xs))) @ zs"
    by (metis rev_append rev_rev_ident takeWhile_dropWhile_id)
  then have "hd (rev (dropWhile P (rev (dropWhile P xs)))) = hd (dropWhile P xs)"
    using calculation by (metis hd_append2)
  ultimately show ?thesis using h by (cases "rev (dropWhile P (rev (dropWhile P xs)))") simp_all
next
  case True
  show ?thesis unfolding True by simp
qed

lemma js_trim_idem: "js_trim (js_trim s) = js_trim s"
  by (simp add: js_trim_def dropWhile_rev_idem dropWhile_idem)

lemma normalizeSku_idem [simp]: "normalizeSku (Some (normalizeSku v)) = normalizeSku v"
  by (simp add: normalizeSku_def js_trim_lower js_lower_idem js_trim_idem)

lemma aggregate_where:
  "planned_where G (aggregateStoredPosLines prices wh day_of lines) =
   aggregateStoredPosLines prices wh day_of (filter (\<lambda>l. G (kl_productId l) (day_of (kl_saleDate l))) lines)"
  unfolding aggregate_day_rows using day_rows_filter [of "\<lambda>k. G (fst k) (snd k)"]
  by (simp add: filter_map comp_def stored_contribution_def)

lemma ledger_lines_cong:
  assumes "\<And>s l. s \<in> set sales \<Longrightarrow> l \<in> set (sd_lines s) \<Longrightarrow> filter Q (ledger_line m s l) = filter Q (ledger_line m' s l)"
  shows "filter Q (ledger_lines m sales) = filter Q (ledger_lines m' sales)"
proof -
  have "map (\<lambda>l. filter Q (ledger_line m s l)) (sd_lines s) = map (\<lambda>l. filter Q (ledger_line m' s l)) (sd_lines s)"
    if "s \<in> set sales" for s
    using assms(1) [OF that] by (intro map_cong) auto
  then show ?thesis
    unfolding ledger_lines_def filter_concat map_map comp_def by (intro arg_cong [where f = concat] map_cong) auto
qed

text \<open>Ignoring a code takes its lines out of the ledger, on the products and days that carry it from then on.\<close>

lemma ignore_keeps_inv:
  assumes g: "ignorePosSku actor sku st = (out, st')" and inv: "ledger_inv zone st"
  shows "ledger_inv zone st'"
proof (cases "normalizeSku (Some sku) = []")
  case True
  then show ?thesis using g inv by (simp add: ignorePosSku_def)
next
  case False
  let ?k = "normalizeSku (Some sku)"
  have st': "st' = st\<lparr>tp_ignoreRules := set_add ?k (tp_ignoreRules st), tp_audit := tp_audit st @ [SkuIgnored actor ?k (js_trim sku)]\<rparr>"
    using g False by (simp add: ignorePosSku_def Let_def)
  have maps: "in_skuToProductId (rollup_maps st') = in_skuToProductId (rollup_maps st)"
    "in_priceByProductId (rollup_maps st') = in_priceByProductId (rollup_maps st)"
    "in_warehouseToLocationId (rollup_maps st') = in_warehouseToLocationId (rollup_maps st)"
    by (simp_all add: st' rollup_maps_def matched_history_def all_lines_def)
  have lp: "line_product (rollup_maps st') k = line_product (rollup_maps st) k" for k
    by (simp add: line_product_def maps)
  have ig: "set (in_ignoredSkus (rollup_maps st')) = insert ?k (set (in_ignoredSkus (rollup_maps st)))"
    using imageI [of ?k "set (tp_ignoreRules st)" "\<lambda>v. normalizeSku (Some v)"]
    by (auto simp: st' rollup_maps_def set_add_def)
  have sales: "tp_sales st' = tp_sales st" by (simp add: st')
  let ?G = "\<lambda>p d. \<not> carries_ignored zone st' p d"
  let ?Q = "\<lambda>l. ?G (kl_productId l) (tenantDayKey zone (kl_saleDate l))"
  have more: "carries_ignored zone st p d \<Longrightarrow> carries_ignored zone st' p d" for p d
    unfolding carries_ignored_def sales ig by blast
  have "filter ?Q (ledger_lines (rollup_maps st) (tp_sales st)) = filter ?Q (ledger_lines (rollup_maps st') (tp_sales st))"
  proof (rule ledger_lines_cong)
    fix s l assume sl: "s \<in> set (tp_sales st)" "l \<in> set (sd_lines s)"
    have "carries_ignored zone st' p (tenantDayKey zone (sd_date s))" if "tl_key l = ?k" "tl_productId l = Some p" for p
      unfolding carries_ignored_def sales ig using sl that by blast
    then show "filter ?Q (ledger_line (rollup_maps st) s l) = filter ?Q (ledger_line (rollup_maps st') s l)"
      unfolding ledger_line_def maps by (auto simp: ig truthy_def split: option.split)
  qed
  then have rows: "planned_where ?G (ledger_rows (rollup_maps st) zone (tp_sales st)) =
      planned_where ?G (ledger_rows (rollup_maps st') zone (tp_sales st))"
    unfolding ledger_rows_def aggregate_where [of ?G] maps by simp
  have "mset (rows_where ?G (pos_rows st)) = mset (map pos_row (planned_where ?G (ledger_rows (rollup_maps st) zone (tp_sales st))))"
  proof (rule mset_rows_where)
    show "mset (rows_where (\<lambda>p d. \<not> carries_ignored zone st p d) (pos_rows st)) =
        mset (map pos_row (planned_where (\<lambda>p d. \<not> carries_ignored zone st p d) (ledger_rows (rollup_maps st) zone (tp_sales st))))"
      using inv by (simp only: ledger_inv_def in_step_def)
  qed (use more in blast)
  then have "in_step zone st'" unfolding in_step_def sales rows by (simp add: st')
  moreover have "all_lines st' = all_lines st" by (simp add: st' all_lines_def)
  then have "settled st'" using inv by (simp add: ledger_inv_def settled_def settled_under_def lp)
  moreover have "tp_zone st' = tp_zone st" "tp_products st' = tp_products st"
    by (simp_all add: st')
  ultimately show ?thesis using inv sales by (auto simp: ledger_inv_def)
qed

text \<open>Linking a code: its unmatched lines, which settled lines of that code all are, take the product.\<close>

lemma all_lines_link:
  "all_lines (st\<lparr>tp_sales := link_lines k p (tp_sales st)\<rparr>) =
    update_where (\<lambda>l. tl_productId l = None \<and> tl_key l = k) (\<lambda>l. l\<lparr>tl_productId := Some p\<rparr>) (all_lines st)"
  by (simp add: all_lines_def link_lines_def update_where_def map_concat comp_def)

lemma link_maps:
  assumes s: "settled st" and none: "line_product (rollup_maps st) k = None" and k: "k \<noteq> []" and p: "p \<noteq> []"
    and some: "\<exists>l \<in> set (all_lines st). tl_productId l = None \<and> tl_key l = k"
    and lines: "all_lines st' = update_where (\<lambda>l. tl_productId l = None \<and> tl_key l = k)
      (\<lambda>l. l\<lparr>tl_productId := Some p\<rparr>) (all_lines st)"
    and prods: "tp_products st' = tp_products st"
  shows "line_product (rollup_maps st') j = (if j = k then Some p else line_product (rollup_maps st) j)"
proof -
  let ?L = "\<lambda>st j. {q. q \<noteq> [] \<and> (\<exists>l \<in> set (all_lines st). tl_productId l = Some q \<and> tl_key l = j)}"
  let ?m = "\<lambda>st j. map_of (in_skuToProductId (rollup_maps st)) j"
  have nk: "?m st k = None" using none by (simp add: line_product_maps)
  have at: "l \<in> set (all_lines st) \<Longrightarrow> tl_key l = k \<Longrightarrow> tl_productId l = None" for l
    using s none by (simp add: settled_def settled_under_def)
  obtain l0 where l0: "l0 \<in> set (all_lines st)" "tl_productId l0 = None" "tl_key l0 = k" using some by blast
  have from_old: "\<exists>l1 \<in> set (all_lines st). tl_key l1 = tl_key l \<and>
      (if tl_key l = k then tl_productId l = Some p else l = l1)" if l: "l \<in> set (all_lines st')" for l
  proof -
    obtain l1 where l1: "l1 \<in> set (all_lines st)"
      "l = (if tl_productId l1 = None \<and> tl_key l1 = k then l1\<lparr>tl_productId := Some p\<rparr> else l1)"
      using l unfolding lines set_update_where by blast
    then show ?thesis using at [of l1] by (intro bexI [of _ l1]) auto
  qed
  have to_new: "l1 \<in> set (all_lines st')" if "l1 \<in> set (all_lines st)" "tl_key l1 \<noteq> k" for l1
    using that unfolding lines set_update_where by (intro image_eqI [of _ _ l1]) auto
  have Lk: "?L st' k = {p}"
  proof (intro set_eqI iffI)
    fix q assume "q \<in> ?L st' k"
    then obtain l where "l \<in> set (all_lines st')" "tl_productId l = Some q" "tl_key l = k" by blast
    then show "q \<in> {p}" using from_old [of l] by simp
  next
    fix q assume "q \<in> {p}"
    moreover have "l0\<lparr>tl_productId := Some p\<rparr> \<in> set (all_lines st')"
      unfolding lines set_update_where using l0 by (intro image_eqI [of _ _ l0]) auto
    ultimately show "q \<in> ?L st' k" using p l0(3) by (intro CollectI conjI bexI) auto
  qed
  have Lj: "?L st' j = ?L st j" if j: "j \<noteq> k" for j
  proof (intro set_eqI iffI)
    fix q assume "q \<in> ?L st' j"
    then obtain l where "q \<noteq> []" "l \<in> set (all_lines st')" "tl_productId l = Some q" "tl_key l = j" by blast
    then show "q \<in> ?L st j" using from_old [of l] j by auto
  next
    fix q assume "q \<in> ?L st j"
    then show "q \<in> ?L st' j" using to_new j by blast
  qed
  have unc: "map_of (resolvePosSkuMap (tp_products st)) k = None"
  proof (rule ccontr)
    assume "map_of (resolvePosSkuMap (tp_products st)) k \<noteq> None"
    then obtain q where "map_of (resolvePosSkuMap (tp_products st)) k = Some q" by blast
    then have "?m st k = Some q" by (simp add: maps_lookup)
    then show False using nk by simp
  qed
  have "?m st' j = (if j = k then Some p else ?m st j)"
  proof (cases "j = k")
    case True
    have "?m st' k = Some p" unfolding maps_lookup prods using unc k Lk by simp
    then show ?thesis using True by simp
  next
    case False
    have "?m st' j = Some q \<longleftrightarrow> ?m st j = Some q" for q unfolding maps_lookup prods Lj [OF False] ..
    then have "?m st' j = ?m st j" by (metis not_Some_eq)
    then show ?thesis using False by simp
  qed
  then show ?thesis by (simp add: line_product_maps)
qed

lemma price_of_product:
  assumes "distinct (map mp_id (tp_products st))" "find (\<lambda>q. mp_id q = p) (tp_products st) = Some pr"
  shows "map_of (in_priceByProductId (rollup_maps st)) p = Some (nvl (mp_priceKes pr) 0)"
proof -
  have pr: "mp_id pr = p" "pr \<in> set (tp_products st)" using find_SomeD [OF assms(2)] by simp_all
  have "distinct (map fst (rev (map (\<lambda>q. (mp_id q, nvl (mp_priceKes q) 0)) (tp_products st))))"
    using assms(1) by (simp add: rev_map [symmetric] comp_def)
  moreover have "(p, nvl (mp_priceKes pr) 0) \<in> set (rev (map (\<lambda>q. (mp_id q, nvl (mp_priceKes q) 0)) (tp_products st)))"
    using pr by force
  ultimately show ?thesis unfolding rollup_maps_def plan_maps.select_convs map_of_js_map by (rule map_of_is_SomeI)
qed

lemma rows_of_product:
  "filter (\<lambda>r. P (ph_productId r)) (aggregateStoredPosLines prices wh day_of lines) =
   aggregateStoredPosLines prices wh day_of (filter (\<lambda>l. P (kl_productId l)) lines)"
  unfolding aggregate_day_rows using day_rows_filter [of "\<lambda>k. P (fst k)"]
  by (simp add: filter_map comp_def stored_contribution_def)

lemma aggregate_one_product:
  assumes "\<And>l. l \<in> set lines \<Longrightarrow> kl_productId l = p" "map_of prices p = Some price"
  shows "aggregateStoredPosLines [(p, price)] wh day_of lines = aggregateStoredPosLines prices wh day_of lines"
proof -
  have "map (stored_contribution [(p, price)] wh day_of) lines = map (stored_contribution prices wh day_of) lines"
    using assms by (intro map_cong) (auto simp: stored_contribution_def)
  then show ?thesis unfolding aggregate_day_rows by (rule arg_cong)
qed

text \<open>Linked lines in the ledger: the others are what they were, the product's are its stored lines.\<close>

lemma filter_concat_map: "filter P (concat (map h xs)) = concat (map (\<lambda>x. filter P (h x)) xs)"
  by (induction xs) simp_all

lemma ledger_other_products:
  "filter (\<lambda>k. kl_productId k \<noteq> p) (ledger_lines maps (link_lines target p sales)) =
   filter (\<lambda>k. kl_productId k \<noteq> p) (ledger_lines maps sales)"
proof -
  have one: "filter (\<lambda>k. kl_productId k \<noteq> p) (ledger_line maps (s\<lparr>sd_lines := ls\<rparr>)
        (if tl_productId l = None \<and> tl_key l = target then l\<lparr>tl_productId := Some p\<rparr> else l)) =
      filter (\<lambda>k. kl_productId k \<noteq> p) (ledger_line maps s l)" for s ls l
    by (auto simp: ledger_line_def truthy_def split: option.split)
  have "filter (\<lambda>k. kl_productId k \<noteq> p) (concat (map (ledger_line maps (s\<lparr>sd_lines := ls\<rparr>))
        (update_where (\<lambda>l. tl_productId l = None \<and> tl_key l = target) (\<lambda>l. l\<lparr>tl_productId := Some p\<rparr>) ls'))) =
      filter (\<lambda>k. kl_productId k \<noteq> p) (concat (map (ledger_line maps s) ls'))" for s ls ls'
    unfolding update_where_def filter_concat map_map comp_def one ..
  note line = this
  have e: "sd_lines (s\<lparr>sd_lines := ls\<rparr>) = ls" for s :: planned_sale and ls by simp
  let ?f = "\<lambda>s. s\<lparr>sd_lines := update_where (\<lambda>l. tl_productId l = None \<and> tl_key l = target)
      (\<lambda>l. l\<lparr>tl_productId := Some p\<rparr>) (sd_lines s)\<rparr>"
  have sale: "filter (\<lambda>k. kl_productId k \<noteq> p) (concat (map (ledger_line maps (?f s)) (sd_lines (?f s)))) =
      filter (\<lambda>k. kl_productId k \<noteq> p) (concat (map (ledger_line maps s) (sd_lines s)))" for s
    unfolding e by (rule line)
  have phys: "filter (\<lambda>s. sd_channel s = ''physical'') (map ?f sales) = map ?f (filter (\<lambda>s. sd_channel s = ''physical'') sales)"
    by (simp add: filter_map comp_def)
  show ?thesis
    unfolding ledger_lines_def link_lines_def phys filter_concat_map map_map comp_def
    by (simp only: sale [unfolded filter_concat_map])
qed

lemma ledger_product_lines:
  assumes "\<And>s. s \<in> set sales \<Longrightarrow> sd_channel s = ''physical''" "p \<noteq> []"
    and "map_of (in_priceByProductId maps) p \<noteq> None"
    and "\<And>s l. s \<in> set sales \<Longrightarrow> l \<in> set (sd_lines s) \<Longrightarrow> tl_productId l = Some p \<Longrightarrow> tl_key l \<notin> set (in_ignoredSkus maps)"
  shows "filter (\<lambda>k. kl_productId k = p) (ledger_lines maps sales) = product_lines p sales"
proof -
  have one: "filter (\<lambda>k. kl_productId k = p) (concat (map (ledger_line maps s) ls)) =
      map (ledger_stored s p) (filter (\<lambda>l. tl_productId l = Some p) ls)"
    if "\<And>l. l \<in> set ls \<Longrightarrow> tl_productId l = Some p \<Longrightarrow> tl_key l \<notin> set (in_ignoredSkus maps)" for s ls
    using that
  proof (induction ls)
    case (Cons l ls)
    then show ?case using assms(2,3)
      by (auto simp: ledger_line_def truthy_def ledger_stored_def split: option.split)
  qed simp
  have ph: "filter (\<lambda>s. sd_channel s = ''physical'') sales = sales" using assms(1) by (simp add: filter_id_conv)
  have "filter (\<lambda>k. kl_productId k = p) (concat (map (ledger_line maps s) (sd_lines s))) =
      map (ledger_stored s p) (filter (\<lambda>l. tl_productId l = Some p) (sd_lines s))" if s: "s \<in> set sales" for s
    by (rule one) (rule assms(4) [OF s])
  then have "map (\<lambda>s. filter (\<lambda>k. kl_productId k = p) (concat (map (ledger_line maps s) (sd_lines s)))) sales =
      map (\<lambda>s. map (ledger_stored s p) (filter (\<lambda>l. tl_productId l = Some p) (sd_lines s))) sales"
    by (intro map_cong refl)
  then show ?thesis
    unfolding ledger_lines_def product_lines_def ph by (subst filter_concat) (simp only: map_map comp_def)
qed

lemma product_lines_days:
  "filter (\<lambda>k. D (kl_saleDate k)) (product_lines p sales) = product_lines p (filter (\<lambda>s. D (sd_date s)) sales)"
  by (induction sales) (auto simp: product_lines_def ledger_stored_def filter_map comp_def)

lemma rederive_fields [simp]:
  "tp_sales (rederiveProductPosHistory p v z st) = tp_sales st"
  "tp_products (rederiveProductPosHistory p v z st) = tp_products st"
  "tp_ignoreRules (rederiveProductPosHistory p v z st) = tp_ignoreRules st"
  "tp_warehouseMaps (rederiveProductPosHistory p v z st) = tp_warehouseMaps st"
  "tp_zone (rederiveProductPosHistory p v z st) = tp_zone st"
  by (simp_all add: rederiveProductPosHistory_def Let_def)

text \<open>Re-deriving one product is rebuilding it, on the days where its lines are exactly the ones that count.\<close>

lemma rederive_in_step:
  assumes old: "mset (rows_where G (pos_rows st)) = mset (map pos_row (planned_where G (ledger_rows maps zone sales0')))"
    and g: "\<And>q d. q \<noteq> p \<Longrightarrow> G' q d \<Longrightarrow> G q d"
    and others: "filter (\<lambda>k. kl_productId k \<noteq> p) (ledger_lines maps (tp_sales st)) =
      filter (\<lambda>k. kl_productId k \<noteq> p) (ledger_lines maps sales0')"
    and own: "filter (\<lambda>k. kl_productId k = p) (filter (\<lambda>k. G' p (tenantDayKey zone (kl_saleDate k))) (ledger_lines maps (tp_sales st))) =
      filter (\<lambda>k. G' p (tenantDayKey zone (kl_saleDate k))) (product_lines p (tp_sales st))"
    and price: "map_of (in_priceByProductId maps) p = Some v"
    and wh: "in_warehouseToLocationId maps = in_warehouseToLocationId (rollup_maps st)"
  shows "mset (rows_where G' (pos_rows (rederiveProductPosHistory p v zone st))) =
    mset (map pos_row (planned_where G' (ledger_rows maps zone (tp_sales st))))"
proof -
  let ?R = "ledger_rows maps zone" and ?o = "\<lambda>q d. G' q d \<and> q \<noteq> p" and ?i = "\<lambda>q d. G' q d \<and> q = p"
  let ?agg = "aggregateStoredPosLines [(p, v)] (in_warehouseToLocationId maps) (tenantDayKey zone)"
  have off: "planned_where ?o rs = planned_where G' (filter (\<lambda>r. ph_productId r \<noteq> p) rs)" for rs by (auto intro!: filter_cong)
  have "mset (rows_where ?o (pos_rows st)) = mset (map pos_row (planned_where ?o (?R sales0')))"
    by (rule mset_rows_where [OF old]) (use g in blast)
  also have "planned_where ?o (?R sales0') = planned_where ?o (?R (tp_sales st))"
    unfolding off unfolding ledger_rows_def rows_of_product [of "\<lambda>q. q \<noteq> p"] others ..
  finally have a: "mset (rows_where ?o (pos_rows st)) = mset (map pos_row (planned_where ?o (?R (tp_sales st))))" .
  have lines: "l \<in> set (filter D (product_lines p (tp_sales st))) \<Longrightarrow> kl_productId l = p" for l D
    by (auto simp: product_lines_def ledger_stored_def)
  have "planned_where ?i (?R (tp_sales st)) = aggregateStoredPosLines (in_priceByProductId maps) (in_warehouseToLocationId maps)
      (tenantDayKey zone) (filter (\<lambda>k. kl_productId k = p)
        (filter (\<lambda>k. G' p (tenantDayKey zone (kl_saleDate k))) (ledger_lines maps (tp_sales st))))"
    unfolding ledger_rows_def aggregate_where [of ?i]
    by (rule arg_cong [where f = "aggregateStoredPosLines (in_priceByProductId maps) (in_warehouseToLocationId maps) (tenantDayKey zone)"])
      (auto intro!: filter_cong)
  also have "\<dots> = ?agg (filter (\<lambda>k. G' p (tenantDayKey zone (kl_saleDate k))) (product_lines p (tp_sales st)))"
    unfolding own by (rule aggregate_one_product [OF lines price, symmetric])
  also have "\<dots> = planned_where G' (?agg (product_lines p (tp_sales st)))"
    unfolding aggregate_where [of G']
    by (rule arg_cong [where f = ?agg], rule filter_cong) (use lines [of _ "\<lambda>_. True"] in auto)
  finally have b: "planned_where ?i (?R (tp_sales st)) = planned_where G' (?agg (product_lines p (tp_sales st)))" .
  have hist: "tp_history (rederiveProductPosHistory p v zone st) =
      filter (\<lambda>h. \<not> (hy_productId h = p \<and> hy_channel h = ''pos'')) (tp_history st) @ map pos_row (?agg (product_lines p (tp_sales st)))"
    by (simp add: rederiveProductPosHistory_def Let_def wh [unfolded rollup_maps_def plan_maps.select_convs, symmetric])
  have "rows_where G' (filter (\<lambda>h. hy_channel h = ''pos'') (filter (\<lambda>h. \<not> (hy_productId h = p \<and> hy_channel h = ''pos'')) (tp_history st))) =
      rows_where ?o (pos_rows st)"
    by (auto intro!: filter_cong)
  moreover have "rows_where G' (filter (\<lambda>h. hy_channel h = ''pos'') (map pos_row rs)) = map pos_row (planned_where G' rs)" for rs
    by (simp add: filter_map comp_def)
  ultimately have "mset (rows_where G' (pos_rows (rederiveProductPosHistory p v zone st))) =
      mset (map pos_row (planned_where ?o (?R (tp_sales st)))) + mset (map pos_row (planned_where ?i (?R (tp_sales st))))"
    unfolding hist filter_append b a [symmetric] by simp
  also have "\<dots> = mset (map pos_row (planned_where G' (?R (tp_sales st))))"
  proof -
    have "planned_where ?o rs = filter (\<lambda>r. ph_productId r \<noteq> p) (planned_where G' rs)"
      "planned_where ?i rs = filter (\<lambda>r. ph_productId r = p) (planned_where G' rs)" for rs
      by (auto intro!: filter_cong)
    then show ?thesis by (simp only: mset_map_split [where P = "\<lambda>r. ph_productId r = p"])
  qed
  finally show ?thesis .
qed

lemma some_counted: "count_where P xs \<noteq> 0 \<longleftrightarrow> (\<exists>x \<in> set xs. P x)"
  by (auto simp: count_where_def filter_empty_conv)

lemma matchPosSku_cases:
  assumes m: "matchPosSku actor sku p st = (out, st')"
  obtains "st' = st" | n pr where "out = MatchedLines n" "normalizeSku (Some sku) \<noteq> []"
    "find (\<lambda>q. mp_id q = p) (tp_products st) = Some pr"
    "\<exists>l \<in> set (all_lines st). tl_productId l = None \<and> tl_key l = normalizeSku (Some sku)"
    "st' = (rederiveProductPosHistory p (nvl (mp_priceKes pr) 0) (nvl (tp_zone st) NAIROBI)
              (st\<lparr>tp_sales := link_lines (normalizeSku (Some sku)) p (tp_sales st)\<rparr>))
           \<lparr>tp_audit := tp_audit st @ [SkuMatched actor p (js_trim sku) n]\<rparr>"
proof -
  let ?t = "normalizeSku (Some sku)"
  let ?n = "count_where (\<lambda>l. tl_productId l = None \<and> tl_key l = ?t) (all_lines st)"
  show thesis
  proof (cases "?t = [] \<or> find (\<lambda>q. mp_id q = p) (tp_products st) = None \<or> ?n = 0")
    case True
    then have "st' = st" using m by (auto simp: matchPosSku_def Let_def split: option.splits if_splits)
    then show thesis by (rule that(1))
  next
    case False
    then have "find (\<lambda>q. mp_id q = p) (tp_products st) \<noteq> None" by simp
    then obtain pr where pr: "find (\<lambda>q. mp_id q = p) (tp_products st) = Some pr" by auto
    have ex: "\<exists>l \<in> set (all_lines st). tl_productId l = None \<and> tl_key l = ?t"
      using False some_counted [of "\<lambda>l. tl_productId l = None \<and> tl_key l = ?t" "all_lines st"] by simp
    have id: "mp_id pr = p" using find_SomeD [OF pr] by simp
    have au: "tp_audit (rederiveProductPosHistory p v z s) = tp_audit s" for v z s
      by (simp add: rederiveProductPosHistory_def Let_def)
    show thesis
      by (rule that(2) [of ?n pr])
         (use m False pr ex in \<open>auto simp: matchPosSku_def Let_def id au\<close>)
  qed
qed

lemma link_keeps_inv:
  assumes m: "matchPosSku actor sku p st = (out, st')" and inv: "ledger_inv zone st"
  shows "ledger_inv zone st'"
  using m
proof (cases rule: matchPosSku_cases)
  case 1
  then show ?thesis using inv by simp
next
  case (2 n pr)
  let ?t = "normalizeSku (Some sku)"
  let ?st1 = "st\<lparr>tp_sales := link_lines ?t p (tp_sales st)\<rparr>"
  have z: "tp_zone st = Some zone" and s: "settled st" "in_step zone st" using inv by (simp_all add: ledger_inv_def)
  have "p \<in> set (map mp_id (tp_products st))" using find_SomeD [OF 2(3)] by force
  then have p: "p \<noteq> []" using inv by (metis ledger_inv_def)
  have st': "tp_sales st' = link_lines ?t p (tp_sales st)" "tp_products st' = tp_products st"
    "tp_ignoreRules st' = tp_ignoreRules st" "tp_warehouseMaps st' = tp_warehouseMaps st" "tp_zone st' = tp_zone st"
    by (simp_all add: 2(5))
  have maps: "in_ignoredSkus (rollup_maps st') = in_ignoredSkus (rollup_maps st)"
    "in_priceByProductId (rollup_maps st') = in_priceByProductId (rollup_maps st)"
    "in_warehouseToLocationId (rollup_maps st') = in_warehouseToLocationId (rollup_maps st)"
    by (simp_all add: rollup_maps_def st')
  have lines: "all_lines st' = update_where (\<lambda>l. tl_productId l = None \<and> tl_key l = ?t)
      (\<lambda>l. l\<lparr>tl_productId := Some p\<rparr>) (all_lines st)"
    using all_lines_link [where st = st and k = ?t and p = p] by (simp add: all_lines_def st')
  have settled_at: "l \<in> set (all_lines st) \<Longrightarrow> tl_productId l = line_product (rollup_maps st) (tl_key l)" for l
    using s(1) by (simp add: settled_def settled_under_def)
  have none: "line_product (rollup_maps st) ?t = None" using 2(4) settled_at by force
  have lp: "line_product (rollup_maps st') j = (if j = ?t then Some p else line_product (rollup_maps st) j)" for j
    by (rule link_maps [OF s(1) none 2(2) p 2(4) lines st'(2)])
  have settled': "settled st'"
    unfolding settled_def settled_under_def lp lines set_update_where using settled_at none by auto
  have phys: "s \<in> set (tp_sales st') \<Longrightarrow> sd_channel s = ''physical''" for s
    using inv by (auto simp: st' link_lines_def ledger_inv_def)
  have price: "map_of (in_priceByProductId (rollup_maps st)) p = Some (nvl (mp_priceKes pr) 0)"
    by (rule price_of_product [OF _ 2(3)]) (use inv in \<open>simp add: ledger_inv_def\<close>)
  let ?G = "\<lambda>q d. \<not> carries_ignored zone st' q d"
  have own: "filter (\<lambda>k. kl_productId k = p) (filter (\<lambda>k. ?G p (tenantDayKey zone (kl_saleDate k))) (ledger_lines (rollup_maps st) (tp_sales st'))) =
      filter (\<lambda>k. ?G p (tenantDayKey zone (kl_saleDate k))) (product_lines p (tp_sales st'))"
    unfolding ledger_lines_filter [of "\<lambda>d. ?G p (tenantDayKey zone d)"] product_lines_days [of "\<lambda>d. ?G p (tenantDayKey zone d)"]
  proof (rule ledger_product_lines [OF _ p])
    fix s l assume "s \<in> set (filter (\<lambda>s. ?G p (tenantDayKey zone (sd_date s))) (tp_sales st'))" "l \<in> set (sd_lines s)" "tl_productId l = Some p"
    then show "tl_key l \<notin> set (in_ignoredSkus (rollup_maps st))" by (auto simp: carries_ignored_def maps)
  qed (use phys price in auto)
  have g: "\<not> carries_ignored zone st q d" if "q \<noteq> p" "?G q d" for q d
  proof
    assume "carries_ignored zone st q d"
    then obtain s l where sl: "s \<in> set (tp_sales st)" "tenantDayKey zone (sd_date s) = d" "l \<in> set (sd_lines s)"
      "tl_productId l = Some q" "tl_key l \<in> set (in_ignoredSkus (rollup_maps st))" by (auto simp: carries_ignored_def)
    let ?s = "s\<lparr>sd_lines := update_where (\<lambda>l. tl_productId l = None \<and> tl_key l = ?t) (\<lambda>l. l\<lparr>tl_productId := Some p\<rparr>) (sd_lines s)\<rparr>"
    have "?s \<in> set (tp_sales st')" using sl(1) by (auto simp: st' link_lines_def)
    moreover have "l \<in> set (sd_lines ?s)" using sl(3,4) by (auto simp: set_update_where intro!: image_eqI [of _ _ l])
    moreover have "tenantDayKey zone (sd_date ?s) = d" using sl(2) by simp
    ultimately have "carries_ignored zone st' q d"
      unfolding carries_ignored_def maps using sl(4,5) by (intro bexI [of _ ?s] conjI bexI [of _ l])
    with that(2) show False by blast
  qed
  have "mset (rows_where ?G (pos_rows (rederiveProductPosHistory p (nvl (mp_priceKes pr) 0) zone ?st1))) =
      mset (map pos_row (planned_where ?G (ledger_rows (rollup_maps st) zone (tp_sales ?st1))))"
  proof (rule rederive_in_step [OF _ g _ _ price])
    show "mset (rows_where (\<lambda>q d. \<not> carries_ignored zone st q d) (pos_rows ?st1)) =
        mset (map pos_row (planned_where (\<lambda>q d. \<not> carries_ignored zone st q d) (ledger_rows (rollup_maps st) zone (tp_sales st))))"
      using s(2) by (simp add: in_step_def)
    show "filter (\<lambda>k. kl_productId k \<noteq> p) (ledger_lines (rollup_maps st) (tp_sales ?st1)) =
        filter (\<lambda>k. kl_productId k \<noteq> p) (ledger_lines (rollup_maps st) (tp_sales st))"
      by (simp add: ledger_other_products)
  qed (use own in \<open>simp_all add: st' rollup_maps_def\<close>)
  then have "mset (rows_where ?G (pos_rows st')) = mset (map pos_row (planned_where ?G (ledger_rows (rollup_maps st) zone (tp_sales st'))))"
    by (simp add: 2(5) z)
  then have "in_step zone st'"
    unfolding in_step_def using ledger_rows_maps [OF maps] by simp
  then show ?thesis using inv settled' phys by (auto simp: ledger_inv_def st')
qed

section \<open>Every reachable ledger\<close>

lemma fresh_inv: "fresh_ledger zone st \<Longrightarrow> ledger_inv zone st"
  by (auto simp: fresh_ledger_def ledger_inv_def settled_def settled_under_def all_lines_def in_step_def
      ledger_rows_def ledger_lines_def aggregateStoredPosLines_def rollup_maps_def js_set_def)

lemma till_step_inv: "till_step js_parse st st' \<Longrightarrow> ledger_inv zone st \<Longrightarrow> ledger_inv zone st'"
  by (erule till_step.cases)
     (blast intro: post_keeps_inv repair_keeps_inv link_keeps_inv ignore_keeps_inv)+

lemma till_reachable_inv: "till_reachable js_parse s0 st \<Longrightarrow> fresh_ledger zone s0 \<Longrightarrow> ledger_inv zone st"
  by (induction rule: till_reachable.induct) (blast intro: fresh_inv till_step_inv)+

text \<open>Off the ignored lines, the rows of a product on a day are the ledger's; with no such line, all rows are.\<close>

lemma in_step_at:
  assumes "in_step zone st" and "\<not> carries_ignored zone st p d"
  shows "mset (rows_where (\<lambda>q e. q = p \<and> e = d) (pos_rows st)) =
    mset (map pos_row (planned_where (\<lambda>q e. q = p \<and> e = d) (ledger_rows (rollup_maps st) zone (tp_sales st))))"
  by (rule mset_rows_where [OF assms(1) [unfolded in_step_def]]) (use assms(2) in blast)

lemma in_step_all:
  assumes "in_step zone st" and "\<And>p d. \<not> carries_ignored zone st p d"
  shows "mset (pos_rows st) = mset (map pos_row (ledger_rows (rollup_maps st) zone (tp_sales st)))"
  using mset_rows_where [OF assms(1) [unfolded in_step_def], of "\<lambda>p d. True"] assms(2) by simp

text \<open>An ignored code that means no product is carried by no line.\<close>

lemma carries_nothing:
  assumes "settled st" and "\<forall>k \<in> set (in_ignoredSkus (rollup_maps st)). line_product (rollup_maps st) k = None"
  shows "\<not> carries_ignored zone st p d"
proof
  assume "carries_ignored zone st p d"
  then obtain l where l: "l \<in> set (all_lines st)" "tl_productId l = Some p" "tl_key l \<in> set (in_ignoredSkus (rollup_maps st))"
    by (auto simp: carries_ignored_def all_lines_def)
  then have "line_product (rollup_maps st) (tl_key l) = Some p"
    using assms(1) by (simp add: settled_def settled_under_def)
  with l(3) assms(2) show False by simp
qed

end
