(* ===== verification/PosGap.thy ===== *)
theory PosGap
  imports PosIngest
begin

text \<open>
  \<^verbatim>\<open>packages/pos/src/gap.ts\<close>, the daily check of \<^verbatim>\<open>apps/worker/src/pos-gap-cron.ts\<close>, the live
  list of \<^verbatim>\<open>apps/web/lib/data/pos-queues.ts\<close> and the closures of
  \<^verbatim>\<open>apps/web/lib/signals/closures.ts\<close>: a branch that recorded nothing on a day its siblings sold.
  The rendered day label (\<open>toLocaleDateString\<close>) is a parameter.
\<close>

section \<open>The detector\<close>

type_synonym gap_fact = "string \<times> date"

definition note_sold :: "string list \<Rightarrow> gap_fact \<Rightarrow> (date \<times> string list) list \<Rightarrow> (date \<times> string list) list" where
  "note_sold sells = (\<lambda>(locationId, dayKey) soldByDay.
    if locationId \<notin> set sells then soldByDay
    else AList.update dayKey (set_add locationId (nvl (map_of soldByDay dayKey) [])) soldByDay)"

definition gap_before :: "gap_fact \<Rightarrow> gap_fact \<Rightarrow> bool" where
  "gap_before a b \<longleftrightarrow> snd b < snd a \<or> (snd a = snd b \<and> fst a \<le> fst b)"

definition detectSalesGaps :: "string list \<Rightarrow> gap_fact list \<Rightarrow> date list \<Rightarrow> gap_fact list \<Rightarrow> gap_fact list" where
  "detectSalesGaps sells soldOn days closures =
    (let soldByDay = fold (note_sold sells) soldOn [];
         activeLocs = js_set (concat (alist_vals soldByDay));
         gaps = concat (map (\<lambda>dayKey.
                  case map_of soldByDay dayKey of
                    None \<Rightarrow> []
                  | Some soldLocs \<Rightarrow>
                      if soldLocs = [] then []
                      else map (\<lambda>l. (l, dayKey))
                             (filter (\<lambda>l. l \<notin> set soldLocs \<and> (l, dayKey) \<notin> set closures) activeLocs)) days)
     in sort_by gap_before gaps)"

section \<open>The tables the check reads and writes\<close>

record shop_location =
  sh_id :: string
  sh_name :: string
  sh_locationType :: "string option"

record closure_row =
  cw_locationId :: string
  cw_date :: date
  cw_reason :: string
  cw_note :: "string option"
  cw_createdByUserId :: string

record bell =
  be_kind :: string
  be_title :: string
  be_createdAt :: date

record gap_store =
  gp_zone :: "zone option"
  gp_locations :: "shop_location list"
  gp_history :: "history_record list"
  gp_closures :: "closure_row list"
  gp_notifications :: "bell list"

definition GAP_WINDOW_DAYS :: int where "GAP_WINDOW_DAYS = 14"

definition recentTenantDays :: "zone \<Rightarrow> int \<Rightarrow> date \<Rightarrow> date list" where
  "recentTenantDays zone n now = map (\<lambda>i. tenantDayKey zone (now - i * DAY_MS)) [1..n]"

definition gapTitle :: "(date \<Rightarrow> string) \<Rightarrow> string \<Rightarrow> date \<Rightarrow> string" where
  "gapTitle label locationName dayKey = locationName @ '' recorded zero sales on '' @ label dayKey"

text \<open>The facts read for a window: sales of a known branch and closed days, from its oldest day on.\<close>

definition sold_facts :: "date \<Rightarrow> history_record list \<Rightarrow> gap_fact list" where
  "sold_facts oldest rows =
    concat (map (\<lambda>r. case hy_locationId r of
                       Some l \<Rightarrow> if oldest \<le> hy_date r then [(l, dayKeyOf (hy_date r))] else []
                     | None \<Rightarrow> []) rows)"

definition closed_facts :: "date \<Rightarrow> closure_row list \<Rightarrow> gap_fact list" where
  "closed_facts oldest rows =
    map (\<lambda>c. (cw_locationId c, dayKeyOf (cw_date c))) (filter (\<lambda>c. oldest \<le> cw_date c) rows)"

definition window_gaps :: "shop_location list \<Rightarrow> zone \<Rightarrow> date \<Rightarrow> gap_store \<Rightarrow> gap_fact list" where
  "window_gaps sells zone now st =
    (let days = recentTenantDays zone GAP_WINDOW_DAYS now;
         oldest = last days
     in detectSalesGaps (map sh_id sells) (sold_facts oldest (gp_history st)) days
          (closed_facts oldest (gp_closures st)))"

definition ring_gap ::
  "(date \<Rightarrow> string) \<Rightarrow> (string \<times> string) list \<Rightarrow> date \<Rightarrow> gap_fact \<Rightarrow> string list \<times> bell list \<Rightarrow> string list \<times> bell list" where
  "ring_gap label nameById now = (\<lambda>(l, d) (priorTitles, rung).
    let title = gapTitle label (nvl (map_of nameById l) ''A branch'') d
    in if title \<in> set priorTitles then (priorTitles, rung)
       else (set_add title priorTitles, rung @ [\<lparr>be_kind = ''sales_gap'', be_title = title, be_createdAt = now\<rparr>]))"

definition checkTenantSalesGaps ::
  "(date \<Rightarrow> string) \<Rightarrow> date \<Rightarrow> gap_store \<Rightarrow> (gap_fact list \<times> nat) option \<times> gap_store" where
  "checkTenantSalesGaps label now st =
    (case gp_zone st of
       None \<Rightarrow> (None, st)
     | Some zone \<Rightarrow>
         (let sells = filter (\<lambda>l. isSellable (sh_locationType l)) (gp_locations st)
          in if length sells < 2 then (Some ([], 0), st)
             else
               (let nameById = js_map (map (\<lambda>l. (sh_id l, sh_name l)) sells);
                    gaps = window_gaps sells zone now st;
                    recentSince = now - (GAP_WINDOW_DAYS + 7) * DAY_MS;
                    prior = js_set (map be_title (filter (\<lambda>n. be_kind n = ''sales_gap'' \<and> recentSince \<le> be_createdAt n)
                              (gp_notifications st)));
                    (titles, rung) = fold (ring_gap label nameById now) gaps (prior, [])
                in (Some (gaps, length rung), st\<lparr>gp_notifications := gp_notifications st @ rung\<rparr>))))"

text \<open>The list on the Sales screen, which spells the branches out by their stored type.\<close>

record gap_view =
  gv_locationId :: string
  gv_locationName :: string
  gv_dayKey :: date
  gv_label :: string

definition getSalesGaps :: "(date \<Rightarrow> string) \<Rightarrow> zone \<Rightarrow> date \<Rightarrow> gap_store \<Rightarrow> gap_view list" where
  "getSalesGaps label nairobi now st =
    (let zone = nvl (gp_zone st) nairobi;
         sells = filter (\<lambda>l. sh_locationType l = None \<or> sh_locationType l = Some ''branch'') (gp_locations st)
     in if length sells < 2 then []
        else
          (let nameById = js_map (map (\<lambda>l. (sh_id l, sh_name l)) sells)
           in map (\<lambda>(l, d). \<lparr>gv_locationId = l, gv_locationName = nvl (map_of nameById l) ''A branch'',
                              gv_dayKey = d, gv_label = label d\<rparr>) (window_gaps sells zone now st)))"

section \<open>Declared closures\<close>

datatype closure_outcome = ClosedDays nat | ClosureNoLocation | ClosureBadDay

text \<open>A day key that is not one is \<open>None\<close>; a note that is not given is \<open>None\<close>, a cleared one \<open>Some None\<close>.\<close>

definition upsert_closure ::
  "string \<Rightarrow> string \<Rightarrow> string \<Rightarrow> string option option \<Rightarrow> date \<Rightarrow> closure_row list \<Rightarrow> closure_row list" where
  "upsert_closure actor locationId reason note d rows =
    (let here = (\<lambda>c. cw_locationId c = locationId \<and> cw_date c = dayMarker d)
     in if \<exists>c \<in> set rows. here c
        then update_where here (\<lambda>c. case note of None \<Rightarrow> c\<lparr>cw_reason := reason\<rparr>
                                               | Some n \<Rightarrow> c\<lparr>cw_reason := reason, cw_note := n\<rparr>) rows
        else rows @ [\<lparr>cw_locationId = locationId, cw_date = dayMarker d, cw_reason = reason,
                      cw_note = nvl note None, cw_createdByUserId = actor\<rparr>])"

definition trimmed_or_none :: "string option \<Rightarrow> string option" where
  "trimmed_or_none s = truthy (map_option js_trim s)"

definition recordClosure ::
  "string \<Rightarrow> string \<Rightarrow> date option list \<Rightarrow> string option \<Rightarrow> string option option \<Rightarrow> gap_store \<Rightarrow> closure_outcome \<times> gap_store" where
  "recordClosure actor locationId dayKeys reason note st =
    (if dayKeys = [] \<or> None \<in> set dayKeys then (ClosureBadDay, st)
     else
       (let why = nvl (trimmed_or_none reason) ''closed'';
            said = map_option trimmed_or_none note
        in if \<not> (\<exists>l \<in> set (gp_locations st). sh_id l = locationId) then (ClosureNoLocation, st)
           else (ClosedDays (length dayKeys),
                 st\<lparr>gp_closures := fold (\<lambda>d rows. case d of Some k \<Rightarrow> upsert_closure actor locationId why said k rows
                                                        | None \<Rightarrow> rows) dayKeys (gp_closures st)\<rparr>)))"

datatype closure_removal = ClosureRemoved | RemoveBadDay | RemoveNotFound

definition removeClosure :: "string \<Rightarrow> date option \<Rightarrow> gap_store \<Rightarrow> closure_removal \<times> gap_store" where
  "removeClosure locationId dayKey st =
    (case dayKey of
       None \<Rightarrow> (RemoveBadDay, st)
     | Some d \<Rightarrow>
         (let here = (\<lambda>c. cw_locationId c = locationId \<and> cw_date c = dayMarker d)
          in if count_where here (gp_closures st) = 0 then (RemoveNotFound, st)
             else (ClosureRemoved, st\<lparr>gp_closures := filter (\<lambda>c. \<not> here c) (gp_closures st)\<rparr>)))"

definition dismissGapAsClosure :: "string \<Rightarrow> string \<Rightarrow> date option \<Rightarrow> gap_store \<Rightarrow> closure_outcome \<times> gap_store" where
  "dismissGapAsClosure actor locationId dayKey st = recordClosure actor locationId [dayKey] None None st"

section \<open>Lemmas\<close>

lemma sold_by_day:
  "distinct (alist_keys (fold (note_sold sells) soldOn [])) \<and>
   set (nvl (map_of (fold (note_sold sells) soldOn []) d) []) = {l. l \<in> set sells \<and> (l, d) \<in> set soldOn} \<and>
   (map_of (fold (note_sold sells) soldOn []) d = None \<longleftrightarrow> {l. l \<in> set sells \<and> (l, d) \<in> set soldOn} = {})"
proof (induction soldOn arbitrary: d rule: rev_induct)
  case (snoc f soldOn)
  obtain l k where f: "f = (l, k)" by (cases f)
  note IH = snoc [of d] snoc [of k]
  show ?case
  proof (cases "l \<in> set sells \<and> d = k")
    case True
    then show ?thesis using IH by (auto simp: f note_sold_def update_conv' distinct_update set_add_def)
  next
    case False
    then have "{l'. l' \<in> set sells \<and> (l', d) \<in> set (soldOn @ [f])} = {l'. l' \<in> set sells \<and> (l', d) \<in> set soldOn}"
      by (auto simp: f)
    then show ?thesis using IH False by (auto simp: f note_sold_def update_conv' distinct_update)
  qed
qed simp

lemma active_locs:
  "set (concat (alist_vals (fold (note_sold sells) soldOn []))) = {l. l \<in> set sells \<and> (\<exists>d. (l, d) \<in> set soldOn)}"
proof -
  let ?m = "fold (note_sold sells) soldOn []"
  have dist: "distinct (alist_keys ?m)" using sold_by_day [of sells soldOn 0] by simp
  have "l \<in> set (concat (alist_vals ?m)) \<longleftrightarrow> (\<exists>d. l \<in> set (nvl (map_of ?m d) []))" for l
  proof
    assume "l \<in> set (concat (alist_vals ?m))"
    then obtain d ls where "(d, ls) \<in> set ?m" "l \<in> set ls" by auto
    then show "\<exists>d. l \<in> set (nvl (map_of ?m d) [])" using dist by (intro exI [of _ d]) (simp add: map_of_eq_Some_iff)
  next
    assume "\<exists>d. l \<in> set (nvl (map_of ?m d) [])"
    then obtain d where "l \<in> set (nvl (map_of ?m d) [])" by blast
    then show "l \<in> set (concat (alist_vals ?m))" by (cases "map_of ?m d") (auto dest!: map_of_SomeD intro: bexI [of _ "(d, _)"])
  qed
  then show ?thesis using sold_by_day [of sells soldOn] by auto
qed

text \<open>A branch is asked about exactly the days it was silent while a sibling sold.\<close>

lemma gap_iff:
  "(l, d) \<in> set (detectSalesGaps sells soldOn days closures) \<longleftrightarrow>
   d \<in> set days \<and> l \<in> set sells \<and> (\<exists>d'. (l, d') \<in> set soldOn) \<and> (l, d) \<notin> set soldOn \<and>
   (\<exists>l' \<in> set sells. (l', d) \<in> set soldOn) \<and> (l, d) \<notin> set closures"
proof -
  let ?m = "fold (note_sold sells) soldOn []"
  note s = sold_by_day [of sells soldOn]
  let ?active = "js_set (concat (alist_vals ?m))"
  let ?g = "\<lambda>k. case map_of ?m k of None \<Rightarrow> []
    | Some ls \<Rightarrow> if ls = [] then [] else map (\<lambda>l. (l, k)) (filter (\<lambda>l. l \<notin> set ls \<and> (l, k) \<notin> set closures) ?active)"
  have of_day: "(l, d) \<in> set (?g k) \<longleftrightarrow>
      k = d \<and> (\<exists>ls. map_of ?m d = Some ls \<and> ls \<noteq> [] \<and> l \<notin> set ls \<and> (l, d) \<notin> set closures \<and> l \<in> set ?active)" for k
    by (cases "map_of ?m k") auto
  have "set (detectSalesGaps sells soldOn days closures) = (\<Union>k \<in> set days. set (?g k))"
    unfolding detectSalesGaps_def Let_def set_sort_by set_concat set_map image_image ..
  then have "(l, d) \<in> set (detectSalesGaps sells soldOn days closures) \<longleftrightarrow> (\<exists>k \<in> set days. (l, d) \<in> set (?g k))" by simp
  also have "\<dots> \<longleftrightarrow> d \<in> set days \<and> (\<exists>ls. map_of ?m d = Some ls \<and> ls \<noteq> [] \<and> l \<notin> set ls \<and> (l, d) \<notin> set closures \<and>
        l \<in> set (concat (alist_vals ?m)))"
    unfolding of_day set_js_set by blast
  also have "\<dots> \<longleftrightarrow> d \<in> set days \<and> nvl (map_of ?m d) [] \<noteq> [] \<and> l \<notin> set (nvl (map_of ?m d) []) \<and>
      (l, d) \<notin> set closures \<and> l \<in> set (concat (alist_vals ?m))"
    by (cases "map_of ?m d") auto
  also have "nvl (map_of ?m d) [] \<noteq> [] \<longleftrightarrow> (\<exists>l' \<in> set sells. (l', d) \<in> set soldOn)"
    using s [of d] by (metis (mono_tags, lifting) empty_Collect_eq set_empty2)
  finally show ?thesis unfolding active_locs using s [of d] by auto
qed

interpretation gap_order: comparator gap_before
  by unfold_locales (auto simp: gap_before_def)

text \<open>The bell rings once per gap.\<close>

abbreviation gap_title_of :: "(date \<Rightarrow> string) \<Rightarrow> (string \<times> string) list \<Rightarrow> gap_fact \<Rightarrow> string" where
  "gap_title_of label names g \<equiv> gapTitle label (nvl (map_of names (fst g)) ''A branch'') (snd g)"

lemma ring_known: "gap_title_of label names g \<in> set prior \<Longrightarrow> ring_gap label names now g (prior, rung) = (prior, rung)"
  by (simp add: ring_gap_def case_prod_beta)

lemma ring_fold_known:
  "(\<And>g. g \<in> set gaps \<Longrightarrow> gap_title_of label names g \<in> set prior) \<Longrightarrow>
   fold (ring_gap label names now) gaps (prior, rung) = (prior, rung)"
  by (induction gaps) (simp_all add: ring_known)

lemma ring_fold:
  "fold (ring_gap label names now) gaps (prior, rung) = (titles, rung') \<Longrightarrow>
   set titles = set prior \<union> gap_title_of label names ` set gaps \<and>
   (\<exists>new. rung' = rung @ new \<and> gap_title_of label names ` set gaps - set prior = be_title ` set new \<and>
      distinct (map be_title new) \<and> (\<forall>b \<in> set new. be_kind b = ''sales_gap'' \<and> be_createdAt b = now))"
proof (induction gaps arbitrary: prior rung)
  case (Cons g gaps)
  let ?t = "gap_title_of label names g"
  show ?case
  proof (cases "?t \<in> set prior")
    case True
    then show ?thesis using Cons.IH [of prior rung] Cons.prems by (auto simp: ring_known)
  next
    case False
    let ?b = "\<lparr>be_kind = ''sales_gap'', be_title = ?t, be_createdAt = now\<rparr>"
    have "ring_gap label names now g (prior, rung) = (set_add ?t prior, rung @ [?b])"
      using False by (simp add: ring_gap_def case_prod_beta Let_def)
    then have "fold (ring_gap label names now) gaps (set_add ?t prior, rung @ [?b]) = (titles, rung')"
      using Cons.prems by simp
    from Cons.IH [OF this] obtain new where new: "set titles = set (set_add ?t prior) \<union> gap_title_of label names ` set gaps"
      "rung' = (rung @ [?b]) @ new" "gap_title_of label names ` set gaps - set (set_add ?t prior) = be_title ` set new"
      "distinct (map be_title new)" "\<forall>b \<in> set new. be_kind b = ''sales_gap'' \<and> be_createdAt b = now" by blast
    have a: "set (set_add ?t prior) = insert ?t (set prior)" by (simp add: set_add_def insert_absorb)
    have "?t \<notin> be_title ` set new" using new(3) unfolding a by blast
    then have "distinct (map be_title (?b # new))" using new(4) by simp
    moreover have "gap_title_of label names ` set (g # gaps) - set prior = be_title ` set (?b # new)"
      using new(3) False unfolding a by (simp add: insert_Diff_if) blast
    ultimately show ?thesis using new(1,2,5) a by (intro conjI exI [of _ "?b # new"]) auto
  qed
qed simp

lemma check_rings_once:
  assumes c: "checkTenantSalesGaps label now st = (Some (gaps, n), st')"
  shows "checkTenantSalesGaps label now st' = (Some (gaps, 0), st')"
proof -
  obtain zone where z: "gp_zone st = Some zone" using c by (cases "gp_zone st") (simp_all add: checkTenantSalesGaps_def)
  let ?sells = "filter (\<lambda>l. isSellable (sh_locationType l)) (gp_locations st)"
  let ?names = "js_map (map (\<lambda>l. (sh_id l, sh_name l)) ?sells)"
  let ?since = "now - (GAP_WINDOW_DAYS + 7) * DAY_MS"
  let ?prior = "\<lambda>st. js_set (map be_title (filter (\<lambda>n. be_kind n = ''sales_gap'' \<and> ?since \<le> be_createdAt n) (gp_notifications st)))"
  show ?thesis
  proof (cases "length ?sells < 2")
    case True
    then show ?thesis using c z by (auto simp: checkTenantSalesGaps_def Let_def)
  next
    case False
    obtain titles rung where r: "fold (ring_gap label ?names now) (window_gaps ?sells zone now st) (?prior st, []) = (titles, rung)"
      by (cases "fold (ring_gap label ?names now) (window_gaps ?sells zone now st) (?prior st, [])")
    have g: "gaps = window_gaps ?sells zone now st" and st': "st' = st\<lparr>gp_notifications := gp_notifications st @ rung\<rparr>"
      using c z False r by (auto simp: checkTenantSalesGaps_def Let_def)
    have same: "window_gaps ?sells zone now st' = gaps" by (simp add: g st' window_gaps_def)
    have "gap_title_of label ?names x \<in> set (?prior st')" if x: "x \<in> set gaps" for x
    proof -
      obtain new where "gap_title_of label ?names ` set gaps - set (?prior st) = be_title ` set rung"
        "\<forall>b \<in> set rung. be_kind b = ''sales_gap'' \<and> be_createdAt b = now"
        using ring_fold [OF r] g by auto
      moreover have "?since \<le> now" by (simp add: GAP_WINDOW_DAYS_def)
      ultimately have "be_title ` set rung \<subseteq> set (?prior st')" by (auto simp: st')
      moreover have "set (?prior st) \<subseteq> set (?prior st')" by (auto simp: st')
      ultimately show ?thesis
        using \<open>gap_title_of label ?names ` set gaps - set (?prior st) = be_title ` set rung\<close> x by blast
    qed
    then have "fold (ring_gap label ?names now) gaps (?prior st', []) = (?prior st', [])"
      by (rule ring_fold_known)
    moreover have "gp_zone st' = Some zone" "gp_locations st' = gp_locations st" "length ?sells \<ge> 2"
      using z False by (simp_all add: st')
    ultimately show ?thesis using same by (simp add: checkTenantSalesGaps_def Let_def)
  qed
qed

end
