(* ===== verification/PosFeed.thy ===== *)
theory PosFeed
  imports PosGap PosFix PlanLimits
begin

text \<open>
  The way into the ledger: \<^verbatim>\<open>packages/pos/src/validate.ts\<close>, \<^verbatim>\<open>feed.ts\<close> and \<^verbatim>\<open>auth.ts\<close>, the
  route \<^verbatim>\<open>apps/web/app/api/pos/ingest/route.ts\<close>, and the queues of
  \<^verbatim>\<open>apps/web/lib/data/pos-queues.ts\<close>. A payload is a \<open>json\<close> value; a JSON number is finite and a
  JSON payload holds no \<open>Date\<close>. The digest is a parameter \<open>hash\<close>, rendering and reading a number
  as text the parameters \<open>show_num\<close> and \<open>read_num\<close>.
\<close>

section \<open>Validation\<close>

record pos_validation_error =
  ve_index :: nat
  ve_field :: string
  ve_message :: string

fun field_of :: "json \<Rightarrow> string \<Rightarrow> json option" where
  "field_of (JObj fs) k = map_of fs k"
| "field_of _ k = None"

definition isNonEmptyString :: "json option \<Rightarrow> bool" where
  "isNonEmptyString v \<longleftrightarrow> (case v of Some (JStr s) \<Rightarrow> js_trim s \<noteq> [] | _ \<Rightarrow> False)"

definition dateProblem :: "(string \<Rightarrow> date option) \<Rightarrow> json option \<Rightarrow> string option" where
  "dateProblem js_parse v =
    (case v of
       Some (JStr s) \<Rightarrow>
         if js_trim s = [] then Some ''must be a date string or a Date''
         else if js_parse s = None then Some (''is not a readable date ('' @ s @ '')'')
         else None
     | _ \<Rightarrow> Some ''must be a date string or a Date'')"

definition optionalNumberProblem :: "json option \<Rightarrow> string option" where
  "optionalNumberProblem v =
    (case v of None \<Rightarrow> None | Some JNull \<Rightarrow> None | Some (JNum _) \<Rightarrow> None | _ \<Rightarrow> Some ''must be a number'')"

definition problem :: "nat \<Rightarrow> string \<Rightarrow> string option \<Rightarrow> pos_validation_error list" where
  "problem index fld issue =
    (case issue of None \<Rightarrow> [] | Some m \<Rightarrow> [\<lparr>ve_index = index, ve_field = fld, ve_message = m\<rparr>])"

definition line_field :: "nat \<Rightarrow> string \<Rightarrow> string" where
  "line_field i fld = ''lines.'' @ show_nat i @ (if fld = [] then [] else ''.'' @ fld)"

definition line_problems :: "nat \<Rightarrow> nat \<Rightarrow> json \<Rightarrow> pos_validation_error list" where
  "line_problems index i line =
    (case line of
       JObj _ \<Rightarrow>
         problem index (line_field i ''sku'') (if isNonEmptyString (field_of line ''sku'') then None else Some ''is required'') @
         problem index (line_field i ''qty'') (case field_of line ''qty'' of Some (JNum _) \<Rightarrow> None | _ \<Rightarrow> Some ''must be a number'') @
         problem index (line_field i ''price'') (optionalNumberProblem (field_of line ''price'')) @
         problem index (line_field i ''subtotal'') (optionalNumberProblem (field_of line ''subtotal''))
     | _ \<Rightarrow> problem index (line_field i []) (Some ''must be an object''))"

definition enumerated :: "'a list \<Rightarrow> (nat \<times> 'a) list" where
  "enumerated xs = zip [0..<length xs] xs"

definition sale_problems :: "(string \<Rightarrow> date option) \<Rightarrow> nat \<Rightarrow> json \<Rightarrow> pos_validation_error list" where
  "sale_problems js_parse index raw =
    (case raw of
       JObj _ \<Rightarrow>
         problem index ''externalId'' (if isNonEmptyString (field_of raw ''externalId'') then None else Some ''is required'') @
         problem index ''date'' (dateProblem js_parse (field_of raw ''date'')) @
         problem index ''grandTotal'' (optionalNumberProblem (field_of raw ''grandTotal'')) @
         (case field_of raw ''lines'' of
            Some (JArr ls) \<Rightarrow> concat (map (\<lambda>(i, l). line_problems index i l) (enumerated ls))
          | _ \<Rightarrow> problem index ''lines'' (Some ''must be an array''))
     | _ \<Rightarrow> problem index [] (Some ''must be an object''))"

definition validation_errors :: "(string \<Rightarrow> date option) \<Rightarrow> json list \<Rightarrow> pos_validation_error list" where
  "validation_errors js_parse sales = concat (map (\<lambda>(i, r). sale_problems js_parse i r) (enumerated sales))"

text \<open>What the planner reads of a payload that the cast \<open>sales as PosSaleInput[]\<close> lets through.\<close>

definition str_field :: "json \<Rightarrow> string \<Rightarrow> string option" where
  "str_field o' k = (case field_of o' k of Some (JStr s) \<Rightarrow> Some s | _ \<Rightarrow> None)"

definition num_field :: "json \<Rightarrow> string \<Rightarrow> real option" where
  "num_field o' k = (case field_of o' k of Some (JNum n) \<Rightarrow> Some n | _ \<Rightarrow> None)"

definition line_of_json :: "json \<Rightarrow> pos_line" where
  "line_of_json l =
    \<lparr>pn_sku = nvl (str_field l ''sku'') [], pn_name = str_field l ''name'', pn_qty = nvl (num_field l ''qty'') 0,
     pn_price = num_field l ''price'', pn_subtotal = num_field l ''subtotal''\<rparr>"

definition sale_of_json :: "json \<Rightarrow> pos_sale" where
  "sale_of_json r =
    \<lparr>se_externalId = nvl (str_field r ''externalId'') [], se_reference = str_field r ''reference'',
     se_date = Written (nvl (str_field r ''date'') []), se_createdBy = str_field r ''createdBy'',
     se_salesAgent = str_field r ''salesAgent'', se_warehouse = str_field r ''warehouse'',
     se_customer = str_field r ''customer'', se_saleStatus = str_field r ''saleStatus'',
     se_paymentStatus = str_field r ''paymentStatus'', se_grandTotal = num_field r ''grandTotal'',
     se_channel = str_field r ''channel'',
     se_lines = (case field_of r ''lines'' of Some (JArr ls) \<Rightarrow> map line_of_json ls | _ \<Rightarrow> [])\<rparr>"

definition validatePosSales ::
  "(string \<Rightarrow> date option) \<Rightarrow> json list \<Rightarrow> pos_validation_error list + json list" where
  "validatePosSales js_parse sales =
    (let errors = validation_errors js_parse sales in if errors \<noteq> [] then Inl errors else Inr sales)"

text \<open>The text fields are not validated. One that is looked at and is not text throws: \<open>trim\<close> is not a
  function of it, or the database column refuses it. An online receipt is dropped before most are.\<close>

definition text_ok :: "json \<Rightarrow> string \<Rightarrow> bool" where
  "text_ok r k \<longleftrightarrow> (case field_of r k of None \<Rightarrow> True | Some JNull \<Rightarrow> True | Some (JStr _) \<Rightarrow> True | _ \<Rightarrow> False)"

definition planned_texts :: "json \<Rightarrow> bool" where
  "planned_texts r \<longleftrightarrow>
    list_all (text_ok r) [''reference'', ''salesAgent'', ''warehouse'', ''customer'', ''saleStatus'', ''paymentStatus''] \<and>
    (case field_of r ''lines'' of Some (JArr ls) \<Rightarrow> list_all (\<lambda>l. text_ok l ''name'') ls | _ \<Rightarrow> True)"

definition sale_typed :: "json \<Rightarrow> bool" where
  "sale_typed r \<longleftrightarrow>
    text_ok r ''channel'' \<and>
    (normalizeSku (str_field r ''channel'') \<in> set ONLINE_CHANNELS \<or>
     text_ok r ''createdBy'' \<and> (normalizeSku (str_field r ''createdBy'') = ''shopify'' \<or> planned_texts r))"

definition last_versions :: "json list \<Rightarrow> json list" where
  "last_versions sales = alist_vals (js_map (map (\<lambda>r. (str_field r ''externalId'', r)) sales))"

section \<open>The permissive feed parser\<close>

definition asArray :: "json option \<Rightarrow> json list" where
  "asArray v = (case v of Some (JArr xs) \<Rightarrow> xs | _ \<Rightarrow> [])"

fun show_json :: "(real \<Rightarrow> string) \<Rightarrow> json \<Rightarrow> string" where
  "show_json show_num JNull = ''null''"
| "show_json show_num (JBool b) = (if b then ''true'' else ''false'')"
| "show_json show_num (JNum n) = show_num n"
| "show_json show_num (JStr s) = s"
| "show_json show_num (JArr xs) =
    (case map (\<lambda>x. if x = JNull then [] else show_json show_num x) xs of
       [] \<Rightarrow> [] | y # ys \<Rightarrow> y @ concat (map (\<lambda>z. '','' @ z) ys))"
| "show_json show_num (JObj fs) = ''[object Object]''"

definition loose_str :: "(real \<Rightarrow> string) \<Rightarrow> json option \<Rightarrow> string option" where
  "loose_str show_num v = (case v of None \<Rightarrow> None | Some JNull \<Rightarrow> None | Some j \<Rightarrow> Some (show_json show_num j))"

definition loose_num :: "(string \<Rightarrow> real option) \<Rightarrow> json option \<Rightarrow> real option" where
  "loose_num read_num v =
    (case v of
       Some (JNum n) \<Rightarrow> Some n
     | Some (JStr s) \<Rightarrow> if js_trim s \<noteq> [] then read_num s else None
     | _ \<Rightarrow> None)"

definition pick :: "json \<Rightarrow> string list \<Rightarrow> json option" where
  "pick o' ks =
    (case find (\<lambda>k. field_of o' k \<noteq> None \<and> field_of o' k \<noteq> Some JNull) ks of
       None \<Rightarrow> None | Some k \<Rightarrow> field_of o' k)"

definition parseLine :: "(real \<Rightarrow> string) \<Rightarrow> (string \<Rightarrow> real option) \<Rightarrow> json \<Rightarrow> pos_line option" where
  "parseLine show_num read_num l =
    (let sku = loose_str show_num (pick l [''sku'', ''code'', ''itemCode'', ''item_code'', ''barcode'']);
         qty = loose_num read_num (pick l [''qty'', ''quantity'', ''units''])
     in case (sku, qty) of
          (Some s, Some q) \<Rightarrow>
            Some \<lparr>pn_sku = s,
                  pn_name = loose_str show_num (pick l [''name'', ''productName'', ''product_name'', ''title'', ''description'']),
                  pn_qty = q,
                  pn_price = loose_num read_num (pick l [''price'', ''unitPrice'', ''unit_price'']),
                  pn_subtotal = loose_num read_num (pick l [''subtotal'', ''lineTotal'', ''line_total'', ''amount''])\<rparr>
        | _ \<Rightarrow> None)"

definition parse_sale :: "(real \<Rightarrow> string) \<Rightarrow> (string \<Rightarrow> real option) \<Rightarrow> json \<Rightarrow> pos_sale option" where
  "parse_sale show_num read_num r =
    (let str = (\<lambda>ks. loose_str show_num (pick r ks));
         externalId = str [''externalId'', ''id'', ''saleId'', ''reference_no'', ''referenceNo''];
         date = str [''date'', ''createdAt'', ''created_at'', ''saleDate'', ''timestamp''];
         lines = List.map_filter (parseLine show_num read_num) (asArray (pick r [''lines'', ''items'', ''products'']))
     in case (truthy externalId, truthy date) of
          (Some e, Some d) \<Rightarrow>
            if lines = [] then None
            else Some
              \<lparr>se_externalId = e, se_reference = str [''reference'', ''reference_no'', ''referenceNo''],
               se_date = Written d, se_createdBy = str [''createdBy'', ''created_by'', ''cashier'', ''staff''],
               se_salesAgent = str [''salesAgent'', ''sales_agent'', ''agent''],
               se_warehouse = str [''warehouse'', ''till'', ''location'', ''branch'', ''store''],
               se_customer = str [''customer'', ''customer_name''],
               se_saleStatus = str [''saleStatus'', ''sale_status'', ''status''],
               se_paymentStatus = str [''paymentStatus'', ''payment_status''],
               se_grandTotal = loose_num read_num (pick r [''grandTotal'', ''grand_total'', ''total'']),
               se_channel = str [''channel'', ''source''], se_lines = lines\<rparr>
        | _ \<Rightarrow> None)"

definition parsePosFeed :: "(real \<Rightarrow> string) \<Rightarrow> (string \<Rightarrow> real option) \<Rightarrow> json \<Rightarrow> pos_sale list" where
  "parsePosFeed show_num read_num raw =
    (let rows = (case raw of
                   JArr xs \<Rightarrow> xs
                 | _ \<Rightarrow> asArray (pick raw [''sales'', ''data'']))
     in List.map_filter (parse_sale show_num read_num) rows)"

section \<open>Credentials\<close>

record feed_tenant =
  fd_id :: string
  fd_slug :: string
  fd_posFeedSlug :: "string option"
  fd_posIngestSecretHash :: "string option"

definition resolveFeedTenant :: "string \<Rightarrow> feed_tenant list \<Rightarrow> feed_tenant option" where
  "resolveFeedTenant slug tenants =
    (case find (\<lambda>t. fd_posFeedSlug t = Some slug) tenants of
       Some t \<Rightarrow> Some t
     | None \<Rightarrow> find (\<lambda>t. fd_slug t = slug) tenants)"

definition digestMatches :: "string \<Rightarrow> string \<Rightarrow> bool" where
  "digestMatches presented stored \<longleftrightarrow> length presented = length stored \<and> presented = stored"

definition authenticatePosFeed ::
  "(string \<Rightarrow> string) \<Rightarrow> string \<Rightarrow> feed_tenant list \<Rightarrow> string \<Rightarrow> string \<Rightarrow> string option" where
  "authenticatePosFeed hash decoy tenants slug presentedSecret =
    (let tenant = resolveFeedTenant (js_trim slug) tenants;
         secret = js_trim presentedSecret;
         stored = nvl (truthy (Option.bind tenant (\<lambda>t. map_option js_trim (fd_posIngestSecretHash t)))) decoy;
         matches = digestMatches (hash secret) stored
     in case tenant of
          None \<Rightarrow> None
        | Some t \<Rightarrow> if length secret = 0 \<or> \<not> matches then None else Some (fd_id t))"

text \<open>\<open>trim().split(/\s+/)\<close>: the scheme, and the rest joined by single blanks.\<close>

definition bearerToken :: "string option \<Rightarrow> string" where
  "bearerToken header =
    (case pieces (\<lambda>c. \<not> is_blank c) (nvl header []) of
       [] \<Rightarrow> []
     | scheme # rest \<Rightarrow>
         if js_lower scheme \<noteq> ''bearer'' then []
         else (case rest of [] \<Rightarrow> [] | w # ws \<Rightarrow> js_trim (w @ concat (map (\<lambda>x. '' '' @ x) ws))))"

section \<open>The ingest route\<close>

record pos_system =
  py_tenants :: "feed_tenant list"
  py_shops :: "string \<Rightarrow> pos_store"

datatype pos_response =
  Unauthorized | InvalidJson | SlugRequired | SalesNotArray
| InvalidSales "pos_validation_error list" | ThrownError | TenantNotFound | IngestReply pos_ingest_result

definition MAX_REPORTED_ERRORS :: nat where "MAX_REPORTED_ERRORS = 20"

definition POST :: "(string \<Rightarrow> date option) \<Rightarrow> (string \<Rightarrow> string) \<Rightarrow> string \<Rightarrow>
    string option \<Rightarrow> json option \<Rightarrow> pos_system \<Rightarrow> pos_response \<times> pos_system" where
  "POST js_parse hash decoy authorization body sys =
    (let presented = bearerToken authorization
     in if presented = [] then (Unauthorized, sys)
        else
          (case body of
             None \<Rightarrow> (InvalidJson, sys)
           | Some JNull \<Rightarrow> (ThrownError, sys)
           | Some b \<Rightarrow>
               (let slug = js_trim (nvl (str_field b ''slug'') [])
                in if slug = [] then (SlugRequired, sys)
                   else
                     (case field_of b ''sales'' of
                        Some (JArr sales) \<Rightarrow>
                          (case authenticatePosFeed hash decoy (py_tenants sys) slug presented of
                             None \<Rightarrow> (Unauthorized, sys)
                           | Some t \<Rightarrow>
                               (case validatePosSales js_parse sales of
                                  Inl errors \<Rightarrow> (InvalidSales (take MAX_REPORTED_ERRORS errors), sys)
                                | Inr rows \<Rightarrow>
                                    if tp_zone (py_shops sys t) \<noteq> None \<and> \<not> list_all sale_typed (last_versions rows)
                                    then (ThrownError, sys)
                                    else
                                      (let (out, shop) = ingestPosSales js_parse (map sale_of_json rows) (py_shops sys t);
                                           sys' = sys\<lparr>py_shops := (py_shops sys)(t := shop)\<rparr>
                                       in case out of
                                            UnknownTenant \<Rightarrow> (TenantNotFound, sys')
                                          | InvalidDate \<Rightarrow> (ThrownError, sys')
                                          | Ingested r \<Rightarrow> (IngestReply r, sys'))))
                      | _ \<Rightarrow> (SalesNotArray, sys)))))"

section \<open>The fix queues\<close>

record unmatched_view =
  uv_sku :: string
  uv_productName :: string
  uv_units :: real
  uv_revenueKes :: real
  uv_suggestion :: "product_suggestion option"

definition queue_revenue :: "planned_line \<Rightarrow> real" where
  "queue_revenue l =
    (if 0 < tl_subtotal l then tl_subtotal l else if 0 < tl_price l then tl_price l * tl_qty l else 0)"

definition roll_up :: "string list \<Rightarrow> planned_line \<Rightarrow> (string \<times> unmatched_sku) list \<Rightarrow> (string \<times> unmatched_sku) list" where
  "roll_up ignored l byKey =
    (let key = normalizeSku (Some (tl_sku l))
     in if key = [] \<or> key \<in> set ignored then byKey
        else
          (case map_of byKey key of
             Some row \<Rightarrow>
               AList.update key
                 (row\<lparr>uq_units := uq_units row + tl_qty l, uq_revenueKes := uq_revenueKes row + queue_revenue l,
                      uq_productName := (if uq_productName row = [] \<and> tl_productName l \<noteq> [] then tl_productName l
                                         else uq_productName row)\<rparr>) byKey
           | None \<Rightarrow>
               AList.update key \<lparr>uq_sku = js_trim (tl_sku l), uq_productName = tl_productName l,
                                 uq_units = tl_qty l, uq_revenueKes = queue_revenue l\<rparr> byKey))"

definition getUnmatchedPosSkus :: "pos_store \<Rightarrow> unmatched_view list" where
  "getUnmatchedPosSkus st =
    (let ignored = js_set (map (\<lambda>v. normalizeSku (Some v)) (tp_ignoreRules st));
         byKey = fold (roll_up ignored) (filter (\<lambda>l. tl_productId l = None) (all_lines st)) []
     in sort_by (\<lambda>a b. uv_revenueKes b \<le> uv_revenueKes a)
          (map (\<lambda>r. \<lparr>uv_sku = uq_sku r, uv_productName = uq_productName r, uv_units = uq_units r,
                      uv_revenueKes = uq_revenueKes r,
                      uv_suggestion = suggestProductForSku (uq_sku r) (Some (uq_productName r)) (tp_products st)\<rparr>)
            (alist_vals byKey)))"

text \<open>\<open>groupBy\<close> the raw till name, then both till lists.\<close>

definition till_groups :: "pos_store \<Rightarrow> (string \<times> nat) list" where
  "till_groups st =
    (let names = concat (map (\<lambda>s. case sd_warehouse s of Some w \<Rightarrow> [w] | None \<Rightarrow> []) (tp_sales st))
     in map (\<lambda>w. (w, count_list names w)) (js_set names))"

record till_row =
  tw_warehouse :: string
  tw_salesCount :: nat
  tw_locationId :: "string option"
  tw_locationName :: "string option"

definition till_before :: "till_row \<Rightarrow> till_row \<Rightarrow> bool" where
  "till_before a b \<longleftrightarrow>
    (if (tw_locationId a = None) \<noteq> (tw_locationId b = None) then tw_locationId a = None
     else tw_salesCount b \<le> tw_salesCount a)"

definition getTillMappings :: "shop_location list \<Rightarrow> pos_store \<Rightarrow> till_row list" where
  "getTillMappings locations st =
    (let locationName = js_map (map (\<lambda>l. (sh_id l, sh_name l)) locations);
         mapped = js_map (map (\<lambda>(w, l). (normalizeSku (Some w), (w, l))) (tp_warehouseMaps st));
         counts = js_map (map (\<lambda>(w, n). (normalizeSku (Some w), (w, n))) (till_groups st));
         all = fold (\<lambda>(key, (w, l)) m. if map_of m key = None then AList.update key (w, 0) m else m) mapped counts
     in sort_by till_before
          (map (\<lambda>(key, (w, n)).
             (case map_of mapped key of
                None \<Rightarrow> \<lparr>tw_warehouse = w, tw_salesCount = n, tw_locationId = None, tw_locationName = None\<rparr>
              | Some (_, l) \<Rightarrow> \<lparr>tw_warehouse = w, tw_salesCount = n, tw_locationId = Some l,
                                tw_locationName = map_of locationName l\<rparr>)) all))"

definition getUnmappedTills :: "pos_store \<Rightarrow> (string \<times> nat) list" where
  "getUnmappedTills st =
    (let mapped = js_set (map (\<lambda>(w, _). normalizeSku (Some w)) (tp_warehouseMaps st))
     in sort_by (\<lambda>a b. snd b \<le> snd a) (filter (\<lambda>(w, _). normalizeSku (Some w) \<notin> set mapped) (till_groups st)))"

end
