(* ===== verification/TillProperties.thy ===== *)
theory TillProperties
  imports PosFeed
begin

text \<open>
  The properties of the till ledger, with a small shop that reaches them, and the behaviours of the
  code that fall short of what it says.
\<close>

section \<open>A shop\<close>

definition demo_line :: "string \<Rightarrow> real \<Rightarrow> pos_line" where
  "demo_line sku qty = \<lparr>pn_sku = sku, pn_name = None, pn_qty = qty, pn_price = Some 10, pn_subtotal = None\<rparr>"

definition demo_sale :: "string \<Rightarrow> date \<Rightarrow> pos_line list \<Rightarrow> pos_sale" where
  "demo_sale i d ls =
    \<lparr>se_externalId = i, se_reference = None, se_date = Instant (Some d), se_createdBy = None, se_salesAgent = None,
     se_warehouse = Some ''Till 1'', se_customer = None, se_saleStatus = None, se_paymentStatus = None,
     se_grandTotal = None, se_channel = None, se_lines = ls\<rparr>"

definition demo_product :: "string \<Rightarrow> string \<Rightarrow> match_product" where
  "demo_product i sku = \<lparr>mp_id = i, mp_sku = Some sku, mp_title = None, mp_priceKes = Some 50\<rparr>"

definition demo_ledger :: pos_store where
  "demo_ledger =
    \<lparr>tp_zone = Some NAIROBI, tp_products = [demo_product ''p1'' ''A-1'', demo_product ''p2'' ''B-2''],
     tp_ignoreRules = [], tp_warehouseMaps = [(''till 1'', ''main'')], tp_sales = [], tp_history = [], tp_audit = []\<rparr>"

definition demo_batch :: "pos_sale list" where
  "demo_batch = [demo_sale ''r1'' 0 [demo_line ''a-1'' 2, demo_line ''x-9'' 3], demo_sale ''r2'' DAY_MS [demo_line ''A-1 '' 1]]"

definition no_parse :: "string \<Rightarrow> date option" where
  "no_parse s = None"

definition demo_posted :: pos_store where
  "demo_posted = snd (ingestPosSales no_parse demo_batch demo_ledger)"

definition demo_linked :: pos_store where
  "demo_linked = snd (matchPosSku ''Ann'' ''x-9'' ''p2'' demo_posted)"

lemma demo_zone_ok: "zone_ok NAIROBI"
  by (simp add: zone_ok_def NAIROBI_def)

lemma demo_fresh: "fresh_ledger NAIROBI demo_ledger"
  by (simp add: fresh_ledger_def demo_zone_ok demo_ledger_def demo_product_def)

lemma till_demo_reachable: "till_reachable no_parse demo_ledger demo_posted" "till_reachable no_parse demo_ledger demo_linked"
proof -
  show p: "till_reachable no_parse demo_ledger demo_posted"
    by (rule till_reachable.step [OF till_reachable.start till_step.post])
       (simp add: demo_posted_def prod_eq_iff)
  show "till_reachable no_parse demo_ledger demo_linked"
    by (rule till_reachable.step [OF p till_step.link [where sku = "''x-9''" and productId = "''p2''" and actor = "''Ann''"]])
       (simp add: demo_linked_def prod_eq_iff)
qed

lemma demo_history:
  "map (\<lambda>h. (hy_productId h, hy_date h, hy_quantity h, hy_revenueKes h, hy_locationId h)) (tp_history demo_linked) =
   [(''p1'', 0, 2, 20, Some ''main''), (''p1'', DAY_MS, 1, 10, Some ''main''), (''p2'', 0, 3, 30, Some ''main'')]"
  by code_simp

section \<open>The ledger and its history\<close>

text \<open>C35. For every shop reached by posting receipts, repairing, linking codes and ignoring codes, any codes and in
  any order, while its catalogue and its till maps stay as they are: every stored line carries the product its code
  means, and the till history of a product on a day is exactly the aggregate of the stored lines that count, unless
  a line of that day carries the product under an ignored code. A repair then brings every day it covers to that
  aggregate for all products, which leaves the lines of ignored codes out. When the ignored codes mean no product, as
  when the owner only ignores and links what the fix queue offers, the whole till history is that aggregate.\<close>

theorem till_history_in_step:
  assumes "till_reachable js_parse s0 st" "fresh_ledger zone s0"
  shows "(\<forall>l \<in> set (all_lines st). tl_productId l = line_product (rollup_maps st) (normalizeSku (Some (tl_sku l)))) \<and>
    (carries_ignored zone st p d \<or>
      mset (filter (\<lambda>h. hy_productId h = p \<and> hy_date h = d) (filter (\<lambda>h. hy_channel h = ''pos'') (tp_history st))) =
      mset (map pos_row (filter (\<lambda>r. ph_productId r = p \<and> ph_dayKey r = d) (ledger_rows (rollup_maps st) zone (tp_sales st))))) \<and>
    (1 \<le> n \<and> n \<le> 366 \<and> e \<in> set (trailing_days n (dayMarker (tenantDayKey zone now))) \<longrightarrow>
      mset (filter (\<lambda>h. hy_date h = e) (filter (\<lambda>h. hy_channel h = ''pos'') (tp_history (snd (healPosRollup n now st))))) =
      mset (map pos_row (filter (\<lambda>r. ph_dayKey r = e) (ledger_rows (rollup_maps st) zone (tp_sales st))))) \<and>
    ((\<forall>k \<in> set (in_ignoredSkus (rollup_maps st)). line_product (rollup_maps st) k = None) \<longrightarrow>
      mset (filter (\<lambda>h. hy_channel h = ''pos'') (tp_history st)) = mset (map pos_row (ledger_rows (rollup_maps st) zone (tp_sales st))))"
proof -
  have inv: "settled st" "in_step zone st" and z: "tp_zone st = Some zone" "zone_ok zone" using till_reachable_inv [OF assms] by (simp_all add: ledger_inv_def)
  show ?thesis
  proof (intro conjI impI)
    show "carries_ignored zone st p d \<or>
      mset (filter (\<lambda>h. hy_productId h = p \<and> hy_date h = d) (pos_rows st)) =
      mset (map pos_row (filter (\<lambda>r. ph_productId r = p \<and> ph_dayKey r = d) (ledger_rows (rollup_maps st) zone (tp_sales st))))"
      using in_step_at [OF inv(2)] by blast
  qed (use inv in \<open>simp add: settled_def settled_under_def\<close>, (elim conjE)?, rule heal_days [OF inv(1) z], assumption+,
    rule in_step_all [OF inv(2) carries_nothing [OF inv(1)]])
qed

theorem till_history_in_step_witness:
  "mset (filter (\<lambda>h. hy_channel h = ''pos'') (tp_history demo_linked)) =
      mset (map pos_row (ledger_rows (rollup_maps demo_linked) NAIROBI (tp_sales demo_linked))) \<and>
   length (tp_history demo_linked) = 3"
proof -
  have "length (tp_history demo_linked) = 3" using arg_cong [OF demo_history, of length] by simp
  moreover have "in_ignoredSkus (rollup_maps demo_linked) = []" by code_simp
  ultimately show ?thesis using till_history_in_step [OF till_demo_reachable(2) demo_fresh] by simp
qed

text \<open>C36. Posting the same window again leaves the same receipts and the same history, in every shop reached by
  posting, repairing, linking and ignoring any codes in any order while its catalogue and its till maps stay as they
  are: the learned links a first post used are there for the second.\<close>

theorem reposting_changes_nothing:
  assumes "till_reachable js_parse s0 st" "fresh_ledger zone s0"
    and "ingestPosSales js_parse sales st = (Ingested r, st')"
  shows "\<exists>r' st''. ingestPosSales js_parse sales st' = (Ingested r', st'') \<and>
    tp_sales st'' = tp_sales st' \<and> mset (tp_history st'') = mset (tp_history st')"
  by (rule ingest_again [OF assms(3), where zone = zone])
     (use till_reachable_inv [OF assms(1,2)] in \<open>simp_all add: ledger_inv_def\<close>)

theorem reposting_changes_nothing_witness:
  "\<exists>r' st''. ingestPosSales no_parse demo_batch demo_posted = (Ingested r', st'') \<and>
    tp_sales st'' = tp_sales demo_posted \<and> mset (tp_history st'') = mset (tp_history demo_posted)"
proof -
  have "case fst (ingestPosSales no_parse demo_batch demo_ledger) of Ingested r \<Rightarrow> True | _ \<Rightarrow> False" by code_simp
  then obtain r where "ingestPosSales no_parse demo_batch demo_ledger = (Ingested r, demo_posted)"
    by (auto simp: demo_posted_def prod_eq_iff split: ingest_outcome.splits)
  then show ?thesis by (rule reposting_changes_nothing [OF till_reachable.start demo_fresh])
qed

text \<open>C37. No till line is dropped or counted twice: matched, unmatched and ignored lines are all the lines of
  the receipts kept, kept and excluded receipts are all the ids sent, the planned history adds up to
  the matched units, and re-deriving it from the stored lines gives the same rows.\<close>

theorem receipt_lines_accounted:
  assumes "planPosIngest js_parse env day_of sales = Some plan"
  shows "pp_linesMatched plan + pp_linesUnmatched plan + pp_linesIgnored plan =
      (\<Sum>s \<leftarrow> pp_sales plan. length (sd_lines s)) \<and>
    length (pp_sales plan) + pp_salesExcluded plan = card (se_externalId ` set sales) \<and>
    (\<Sum>r \<leftarrow> pp_salesHistory plan. ph_quantity r) = (\<Sum>l \<leftarrow> matched_lines env (pp_sales plan). kl_qty l) \<and>
    pp_linesMatched plan = length (matched_lines env (pp_sales plan)) \<and>
    aggregateStoredPosLines (in_priceByProductId env) (in_warehouseToLocationId env) day_of
      (matched_lines env (pp_sales plan)) = pp_salesHistory plan"
proof -
  from planPosIngest_Some [OF assms] obtain dated where
    f: "map fst dated = filter (\<lambda>s. \<not> isOnlineSale s) (dedupe_sales sales)"
    and p: "pp_sales plan = map (planned_sale_of env) dated"
    and h: "pp_salesHistory plan = day_rows (concat (map (sale_contribs env day_of) dated))"
    and n: "pp_linesMatched plan + pp_linesUnmatched plan + pp_linesIgnored plan =
      (\<Sum>s \<leftarrow> dated. length (se_lines (fst s)))"
      "pp_linesMatched plan = length (concat (map (sale_contribs env day_of) dated))"
      "pp_salesExcluded plan = length (filter isOnlineSale (dedupe_sales sales))" by metis
  have lines: "(\<Sum>s \<leftarrow> pp_sales plan. length (sd_lines s)) = (\<Sum>s \<leftarrow> dated. length (se_lines (fst s)))"
    by (simp add: p comp_def planned_sale_of_def case_prod_beta)
  have "length (pp_sales plan) = length (filter (\<lambda>s. \<not> isOnlineSale s) (dedupe_sales sales))"
    using arg_cong [OF f, of length] by (simp add: p)
  then have "length (pp_sales plan) + pp_salesExcluded plan = length (dedupe_sales sales)"
    using n(3) sum_length_filter_compl [of isOnlineSale "dedupe_sales sales"] by simp
  also have "\<dots> = card (se_externalId ` set sales)"
    using arg_cong [OF dedupe_ids [of sales], of length] by (simp add: length_js_set)
  finally have ids: "length (pp_sales plan) + pp_salesExcluded plan = card (se_externalId ` set sales)" .
  have "(\<Sum>r \<leftarrow> pp_salesHistory plan. ph_quantity r) =
      (\<Sum>c \<leftarrow> map (stored_contribution (in_priceByProductId env) (in_warehouseToLocationId env) day_of)
        (matched_lines env (pp_sales plan)). cb_qty c)"
    unfolding h day_rows_sums p matched_lines_contribs ..
  then have qty: "(\<Sum>r \<leftarrow> pp_salesHistory plan. ph_quantity r) = (\<Sum>l \<leftarrow> matched_lines env (pp_sales plan). kl_qty l)"
    by (simp add: comp_def stored_contribution_def)
  have "pp_linesMatched plan = length (matched_lines env (pp_sales plan))"
    unfolding n(2) p matched_lines_contribs [symmetric] by (rule length_map)
  then show ?thesis using lines ids qty n(1) rederive_planned [OF assms] by (intro conjI) (simp_all only:)
qed

theorem receipt_lines_accounted_witness:
  "(\<exists>plan. planPosIngest no_parse (rollup_maps demo_ledger) (tenantDayKey NAIROBI) demo_batch = Some plan \<and>
     pp_linesMatched plan + pp_linesUnmatched plan + pp_linesIgnored plan = (\<Sum>s \<leftarrow> pp_sales plan. length (sd_lines s)))"
proof -
  have "planPosIngest no_parse (rollup_maps demo_ledger) (tenantDayKey NAIROBI) demo_batch \<noteq> None"
    unfolding planPosIngest_None by code_simp
  then show ?thesis using receipt_lines_accounted [of no_parse "rollup_maps demo_ledger" "tenantDayKey NAIROBI" demo_batch] by blast
qed

lemma stored_after:
  assumes i: "ingestPosSales js_parse sales st = (Ingested r, st')" and z: "tp_zone st = Some zone"
  shows "\<exists>dated. map fst dated = filter (\<lambda>s. \<not> isOnlineSale s) (dedupe_sales (resolved_sales js_parse zone sales)) \<and>
    tp_sales st' = receipts_after (rollup_maps st) sales dated (tp_sales st) \<and>
    (\<forall>x \<in> set dated. dated_sale js_parse (fst x) = Some x)"
proof (cases "sales = []")
  case True
  then show ?thesis using i z
    by (intro exI [of _ "[]"]) (simp add: ingestPosSales_def receipts_after_def resolved_sales_def dedupe_sales_def)
next
  case False
  from ingest_Ingested [OF i z False] obtain dated where d: "kept_sales js_parse (resolved_sales js_parse zone sales) = Some dated"
    "map fst dated = filter (\<lambda>s. \<not> isOnlineSale s) (dedupe_sales (resolved_sales js_parse zone sales))"
    "tp_sales st' = receipts_after (rollup_maps st) sales dated (tp_sales st)" by (metis rebuildDays_fields(1) pos_store.select_convs(5) pos_store.surjective pos_store.update_convs(5))
  have "those (map (dated_sale js_parse) ss) = Some ds \<Longrightarrow> x \<in> set ds \<Longrightarrow> dated_sale js_parse (fst x) = Some x" for ss ds x
    by (induction ss arbitrary: ds) (auto simp: dated_sale_def split: option.splits)
  then show ?thesis using d unfolding kept_sales_def by blast
qed

lemma filter_key_unique:
  "distinct (map f xs) \<Longrightarrow> x \<in> set xs \<Longrightarrow> filter (\<lambda>y. f y = f x) xs = [x]"
  by (induction xs) (auto simp: filter_empty_conv image_iff)

text \<open>Of the dated sales, the one kept under an id is the last version sent, if that is a till sale.\<close>

lemma dated_under:
  assumes f: "map fst dated = filter (\<lambda>s. \<not> isOnlineSale s) (dedupe_sales rs)"
    and dd: "\<forall>x \<in> set dated. dated_sale js_parse (fst x) = Some x"
    and s: "find (\<lambda>s. se_externalId s = e) (rev rs) = Some s"
  shows "filter (\<lambda>x. se_externalId (fst x) = e) dated =
    (if isOnlineSale s then []
     else (case toDate js_parse (se_date s) of Some d \<Rightarrow> [(s, d)] | None \<Rightarrow> []))"
proof -
  have "distinct (map se_externalId (dedupe_sales rs))" unfolding dedupe_ids by simp
  then have "distinct (map se_externalId (map fst dated))" unfolding f by (rule distinct_map_filter)
  then have dist: "distinct (map (\<lambda>x. se_externalId (fst x)) dated)" by (simp add: comp_def)
  have se: "se_externalId s = e" using find_SomeD [OF s] by simp
  have kept: "t \<in> fst ` set dated \<and> se_externalId t = e \<longleftrightarrow> t = s \<and> \<not> isOnlineSale s" for t
  proof -
    have "fst ` set dated = {t \<in> set (dedupe_sales rs). \<not> isOnlineSale t}" using arg_cong [OF f, of set] by simp
    moreover have "t \<in> set (dedupe_sales rs) \<and> se_externalId t = e \<longleftrightarrow> t = s"
      unfolding dedupe_last using s se by auto
    ultimately show ?thesis by blast
  qed
  show ?thesis
  proof (cases "isOnlineSale s")
    case True
    then have "filter (\<lambda>x. se_externalId (fst x) = e) dated = []"
      using kept by (fastforce simp: filter_empty_conv)
    then show ?thesis using True by simp
  next
    case False
    then obtain x where x: "x \<in> set dated" "fst x = s" using kept [of s] by auto
    then obtain dt where dt: "toDate js_parse (se_date s) = Some dt" "x = (s, dt)"
      using dd by (auto simp: dated_sale_def)
    show ?thesis using filter_key_unique [OF dist x(1)] x(2) se dt False by simp
  qed
qed

lemma receipts_under:
  "filter (\<lambda>s. sd_externalId s = e) (receipts_after env sales dated old) =
    (if e \<in> se_externalId ` set sales then [] else filter (\<lambda>s. sd_externalId s = e) old) @
    map (planned_sale_of env) (filter (\<lambda>x. se_externalId (fst x) = e) dated)"
proof -
  have id: "sd_externalId (planned_sale_of env x) = se_externalId (fst x)" for x
    by (simp add: planned_sale_of_def case_prod_beta)
  show ?thesis unfolding receipts_after_def
    by (auto simp: filter_map comp_def id filter_empty_conv intro!: filter_cong)
qed

text \<open>C38. What is stored under a receipt id after a post: the last version sent in it, nothing if that
  version is an online sale, and whatever was there before if the post does not name it.\<close>

theorem last_version_stored:
  assumes "ingestPosSales js_parse sales st = (Ingested r, st')" "tp_zone st = Some zone"
  shows "filter (\<lambda>s. sd_externalId s = e) (tp_sales st') =
    (case find (\<lambda>s. se_externalId s = e) (rev (resolved_sales js_parse zone sales)) of
       None \<Rightarrow> filter (\<lambda>s. sd_externalId s = e) (tp_sales st)
     | Some s \<Rightarrow>
         if isOnlineSale s then []
         else (case toDate js_parse (se_date s) of
                 Some d \<Rightarrow> [planned_sale_of (rollup_maps st) (s, d)] | None \<Rightarrow> []))"
proof -
  let ?rs = "resolved_sales js_parse zone sales"
  obtain dated where d: "map fst dated = filter (\<lambda>s. \<not> isOnlineSale s) (dedupe_sales ?rs)"
    and ts: "tp_sales st' = receipts_after (rollup_maps st) sales dated (tp_sales st)"
    and dd: "\<forall>x \<in> set dated. dated_sale js_parse (fst x) = Some x" using stored_after [OF assms] by blast
  have ids: "se_externalId ` set ?rs = se_externalId ` set sales" by (simp add: resolved_sales_def image_image)
  show ?thesis
  proof (cases "find (\<lambda>s. se_externalId s = e) (rev ?rs)")
    case None
    then have out: "e \<notin> se_externalId ` set sales" unfolding ids [symmetric] by (auto simp: find_None_iff)
    then have "filter (\<lambda>x. se_externalId (fst x) = e) dated = []"
      using kept_ids [OF d] by (auto simp: filter_empty_conv)
    then show ?thesis unfolding ts receipts_under None using out by simp
  next
    case (Some s)
    have "e \<in> se_externalId ` set sales" using find_SomeD [OF Some] unfolding ids [symmetric] by auto
    then show ?thesis unfolding ts receipts_under dated_under [OF d dd Some] Some by (simp split: option.split)
  qed
qed

theorem last_version_stored_witness:
  "filter (\<lambda>s. sd_externalId s = ''r3'') (tp_sales demo_posted) = []"
proof -
  have "case fst (ingestPosSales no_parse demo_batch demo_ledger) of Ingested r \<Rightarrow> True | _ \<Rightarrow> False" by code_simp
  then obtain r where "ingestPosSales no_parse demo_batch demo_ledger = (Ingested r, demo_posted)"
    by (auto simp: demo_posted_def prod_eq_iff split: ingest_outcome.splits)
  from last_version_stored [OF this, of NAIROBI "''r3''"] show ?thesis
    by (simp add: demo_ledger_def demo_batch_def demo_sale_def resolved_sales_def)
qed

section \<open>Gaps and the feed\<close>

text \<open>C39. A branch is asked about exactly the days of the window on which it recorded nothing while another
  selling branch sold, it is active, and the day is not declared closed; latest day first.\<close>

theorem gaps_are_silent_branch_days:
  "((l, d) \<in> set (detectSalesGaps sells soldOn days closures) \<longleftrightarrow>
     d \<in> set days \<and> l \<in> set sells \<and> (\<exists>d'. (l, d') \<in> set soldOn) \<and> (l, d) \<notin> set soldOn \<and>
     (\<exists>l' \<in> set sells. l' \<noteq> l \<and> (l', d) \<in> set soldOn) \<and> (l, d) \<notin> set closures) \<and>
   sorted_wrt (\<lambda>a b. snd b < snd a \<or> (snd a = snd b \<and> fst a \<le> fst b)) (detectSalesGaps sells soldOn days closures)"
proof -
  have "sorted_wrt gap_before (detectSalesGaps sells soldOn days closures)"
    unfolding detectSalesGaps_def Let_def by (rule gap_order.sorted_sort_by)
  then have "sorted_wrt (\<lambda>a b. snd b < snd a \<or> (snd a = snd b \<and> fst a \<le> fst b)) (detectSalesGaps sells soldOn days closures)"
    by (simp add: gap_before_def [abs_def])
  moreover have "(\<exists>l' \<in> set sells. (l', d) \<in> set soldOn) \<longleftrightarrow> (\<exists>l' \<in> set sells. l' \<noteq> l \<and> (l', d) \<in> set soldOn)"
    if "(l, d) \<notin> set soldOn" using that by auto
  ultimately show ?thesis unfolding gap_iff by blast
qed

lemma POST_changes:
  assumes p: "POST js_parse hash decoy authorization body sys = (reply, sys')" and c: "py_shops sys' \<noteq> py_shops sys"
  shows "\<exists>b t. body = Some b \<and>
    authenticatePosFeed hash decoy (py_tenants sys) (js_trim (nvl (str_field b ''slug'') [])) (bearerToken authorization) = Some t \<and>
    py_shops sys' = (py_shops sys)(t := py_shops sys' t)"
proof -
  have ne: "sys' \<noteq> sys" using c by auto
  obtain b where b: "body = Some b" "b \<noteq> JNull" "bearerToken authorization \<noteq> []"
    using p ne by (cases body; cases "the body") (auto simp: POST_def Let_def split: if_splits)
  then have p1: "POST js_parse hash decoy authorization (Some b) sys = (reply, sys')" using p by simp
  let ?slug = "js_trim (nvl (str_field b ''slug'') [])"
  let ?a = "authenticatePosFeed hash decoy (py_tenants sys) ?slug (bearerToken authorization)"
  have bc: "(case b of JNull \<Rightarrow> x | _ \<Rightarrow> y) = y" for x y :: "pos_response \<times> pos_system" using b(2) by (cases b) simp_all
  have slug: "?slug \<noteq> []" using p1 ne b by (cases b) (auto simp: POST_def Let_def)
  obtain sales where sales: "field_of b ''sales'' = Some (JArr sales)"
    using p1 ne b slug by (cases b) (auto simp: POST_def Let_def split: option.splits json.splits)
  obtain t where t: "?a = Some t"
    using p1 ne b slug sales by (cases b) (auto simp: POST_def Let_def split: option.splits)
  obtain rows where rows: "validatePosSales js_parse sales = Inr rows"
    using p1 ne b slug sales t by (cases "validatePosSales js_parse sales"; cases b) (auto simp: POST_def Let_def)
  have "\<exists>shop. py_shops sys' = (py_shops sys)(t := shop)"
    using p1 ne b slug sales t rows
    by (cases b; cases "fst (ingestPosSales js_parse (map sale_of_json rows) (py_shops sys t))")
       (auto simp: POST_def Let_def case_prod_beta split: if_splits)
  then show ?thesis using b(1) t by auto
qed

text \<open>C40. A post that changes anything changes one shop only, the one its slug names, and it carried the
  secret whose digest that shop stored; a shop without a secret takes nothing.\<close>

theorem feed_writes_own_shop:
  assumes "POST js_parse hash decoy authorization body sys = (reply, sys')" "\<And>s. hash s \<noteq> decoy"
    and "py_shops sys' \<noteq> py_shops sys"
  shows "\<exists>b t. body = Some b \<and>
    resolveFeedTenant (js_trim (nvl (str_field b ''slug'') [])) (py_tenants sys) = Some t \<and>
    map_option js_trim (fd_posIngestSecretHash t) = Some (hash (js_trim (bearerToken authorization))) \<and>
    py_shops sys' = (py_shops sys)(fd_id t := py_shops sys' (fd_id t))"
proof -
  have auth: "\<exists>t. resolveFeedTenant (js_trim slug) tenants = Some t \<and> fd_id t = i \<and>
      map_option js_trim (fd_posIngestSecretHash t) = Some (hash (js_trim secret))"
    if a: "authenticatePosFeed hash decoy tenants slug secret = Some i" for tenants slug secret i
  proof -
    obtain t where t: "resolveFeedTenant (js_trim slug) tenants = Some t" "fd_id t = i"
      "hash (js_trim secret) = nvl (truthy (map_option js_trim (fd_posIngestSecretHash t))) decoy"
      using a by (auto simp: authenticatePosFeed_def Let_def digestMatches_def split: option.splits if_splits)
    then show ?thesis using assms(2) [of "js_trim secret"]
      by (cases "fd_posIngestSecretHash t") (auto simp: truthy_def split: if_splits)
  qed
  from POST_changes [OF assms(1,3)] obtain b i where "body = Some b"
    "authenticatePosFeed hash decoy (py_tenants sys) (js_trim (nvl (str_field b ''slug'') [])) (bearerToken authorization) = Some i"
    "py_shops sys' = (py_shops sys)(i := py_shops sys' i)" by blast
  with auth [of "py_tenants sys"] show ?thesis by (metis js_trim_idem)
qed

definition demo_hash :: "string \<Rightarrow> string" where
  "demo_hash s = ''h'' @ s"

definition demo_system :: pos_system where
  "demo_system =
    \<lparr>py_tenants = [\<lparr>fd_id = ''a'', fd_slug = ''shop-a'', fd_posFeedSlug = None, fd_posIngestSecretHash = Some ''hone''\<rparr>,
                   \<lparr>fd_id = ''b'', fd_slug = ''shop-b'', fd_posFeedSlug = None, fd_posIngestSecretHash = Some ''htwo''\<rparr>],
     py_shops = (\<lambda>_. demo_ledger)\<rparr>"

definition demo_body :: "json \<Rightarrow> json" where
  "demo_body till =
    JObj [(''slug'', JStr ''shop-a''),
      (''sales'', JArr [JObj [(''externalId'', JStr ''r1''), (''date'', JStr ''2026-01-01 10:00''), (''warehouse'', till),
        (''lines'', JArr [JObj [(''sku'', JStr ''a-1''), (''qty'', JNum 1)]])]])]"

definition read_zero :: "string \<Rightarrow> date option" where
  "read_zero s = Some 0"

abbreviation demo_POST :: "string \<Rightarrow> json \<Rightarrow> pos_response \<times> pos_system" where
  "demo_POST secret till \<equiv> POST read_zero demo_hash [] (Some (''Bearer '' @ secret)) (Some (demo_body till)) demo_system"

theorem feed_writes_own_shop_witness:
  "\<exists>t. resolveFeedTenant ''shop-a'' (py_tenants demo_system) = Some t \<and>
    fd_posIngestSecretHash t = Some ''hone'' \<and> fd_id t = ''a'' \<and>
    py_shops (snd (demo_POST ''one'' (JStr ''till 1''))) =
      (py_shops demo_system)(''a'' := py_shops (snd (demo_POST ''one'' (JStr ''till 1''))) ''a'')"
proof -
  have "length (tp_sales (py_shops (snd (demo_POST ''one'' (JStr ''till 1''))) ''a'')) = 1" by code_simp
  then have ch: "py_shops (snd (demo_POST ''one'' (JStr ''till 1''))) \<noteq> py_shops demo_system"
    by (auto simp: demo_system_def demo_ledger_def)
  have "POST read_zero demo_hash [] (Some (''Bearer '' @ ''one'')) (Some (demo_body (JStr ''till 1''))) demo_system =
      (fst (demo_POST ''one'' (JStr ''till 1'')), snd (demo_POST ''one'' (JStr ''till 1'')))" by simp
  from feed_writes_own_shop [OF this _ ch] obtain b t where
    bt: "Some (demo_body (JStr ''till 1'')) = Some b"
    "resolveFeedTenant (js_trim (nvl (str_field b ''slug'') [])) (py_tenants demo_system) = Some t"
    "py_shops (snd (demo_POST ''one'' (JStr ''till 1''))) =
      (py_shops demo_system)(fd_id t := py_shops (snd (demo_POST ''one'' (JStr ''till 1''))) (fd_id t))"
    by (auto simp: demo_hash_def)
  have "js_trim (nvl (str_field (demo_body (JStr ''till 1'')) ''slug'') []) = ''shop-a''" by code_simp
  with bt have r: "resolveFeedTenant ''shop-a'' (py_tenants demo_system) = Some t" by auto
  then have "fd_id t = ''a'' \<and> fd_posIngestSecretHash t = Some ''hone''"
    by (auto simp: demo_system_def resolveFeedTenant_def)
  with r bt(3) show ?thesis by auto
qed

section \<open>Where the code falls short\<close>

text \<open>A till number that is not text passes the validator and then throws in the planner.\<close>

lemma number_till_passes_then_throws:
  "validation_errors read_zero (asArray (field_of (demo_body (JNum 7)) ''sales'')) = [] \<and>
   fst (demo_POST ''one'' (JNum 7)) = ThrownError \<and> fst (demo_POST ''two'' (JNum 7)) = Unauthorized"
proof (intro conjI)
  show "validation_errors read_zero (asArray (field_of (demo_body (JNum 7)) ''sales'')) = []" by code_simp
  have t: "case fst (demo_POST ''one'' (JNum 7)) of ThrownError \<Rightarrow> True | _ \<Rightarrow> False" by code_simp
  then show "fst (demo_POST ''one'' (JNum 7)) = ThrownError" by (auto split: pos_response.splits)
  have u: "case fst (demo_POST ''two'' (JNum 7)) of Unauthorized \<Rightarrow> True | _ \<Rightarrow> False" by code_simp
  then show "fst (demo_POST ''two'' (JNum 7)) = Unauthorized" by (auto split: pos_response.splits)
qed

text \<open>The score is stored capped at 1 but compared uncapped, so a later near match displaces an exact one.\<close>

lemma suggestion_prefers_later_near_match:
  "map_option sg_productId (suggestProductForSku ''lav-oil-10-ml'' None
     [demo_product ''exact'' ''LAV-OIL-10-ML'', demo_product ''near'' ''LAV-OIL-10-ML-X'']) = Some ''near'' \<and>
   map_option sg_productId (suggestProductForSku ''lav-oil-10-ml'' None
     [demo_product ''near'' ''LAV-OIL-10-ML-X'', demo_product ''exact'' ''LAV-OIL-10-ML'']) = Some ''exact''"
  by code_simp

text \<open>A code that history links to two products is left unmatched once; posting the same receipt again
  then guesses the other one.\<close>

definition planned :: "string \<Rightarrow> date \<Rightarrow> string option \<Rightarrow> string \<Rightarrow> real \<Rightarrow> planned_sale" where
  "planned i d p sku qty =
    \<lparr>sd_externalId = i, sd_reference = None, sd_date = d, sd_createdBy = [], sd_salesAgent = None,
     sd_warehouse = None, sd_customer = None, sd_saleStatus = None, sd_paymentStatus = None, sd_grandTotal = 0,
     sd_channel = ''physical'',
     sd_lines = [\<lparr>tl_sku = sku, tl_productName = [], tl_qty = qty, tl_price = 10, tl_subtotal = 0, tl_productId = p\<rparr>]\<rparr>"

definition ambiguous_ledger :: pos_store where
  "ambiguous_ledger = demo_ledger\<lparr>tp_sales := [planned ''r1'' 0 (Some ''p1'') ''x-9'' 1, planned ''r2'' 0 (Some ''p2'') ''x-9'' 1]\<rparr>"

abbreviation product_of :: "pos_store \<Rightarrow> string \<Rightarrow> string option list" where
  "product_of st i \<equiv> concat (map (\<lambda>s. map tl_productId (sd_lines s)) (filter (\<lambda>s. sd_externalId s = i) (tp_sales st)))"

lemma repost_guesses_ambiguous_code:
  "let batch = [demo_sale ''r1'' 0 [demo_line ''x-9'' 1]];
       once = snd (ingestPosSales no_parse batch ambiguous_ledger);
       twice = snd (ingestPosSales no_parse batch once)
   in product_of ambiguous_ledger ''r1'' = [Some ''p1''] \<and> product_of once ''r1'' = [None] \<and>
      product_of twice ''r1'' = [Some ''p2'']"
  by code_simp

text \<open>A repair recovers receipts of a product that came later; linking another code to it drops them.\<close>

definition late_ledger :: pos_store where
  "late_ledger = demo_ledger\<lparr>tp_sales := [planned ''r1'' 0 None ''a-1'' 5, planned ''r2'' 0 None ''x-9'' 1]\<rparr>"

abbreviation sold_of :: "pos_store \<Rightarrow> string \<Rightarrow> real" where
  "sold_of st p \<equiv> sum_list (map hy_quantity (filter (\<lambda>h. hy_productId h = p \<and> hy_channel h = ''pos'') (tp_history st)))"

lemma linking_drops_recovered_sales:
  "let healed = snd (healPosRollup 35 0 late_ledger);
       linked = snd (matchPosSku ''Ann'' ''x-9'' ''p1'' healed);
       again = snd (healPosRollup 35 (36 * DAY_MS) linked)
   in sold_of healed ''p1'' = 5 \<and> sold_of linked ''p1'' = 1 \<and> sold_of again ''p1'' = 1"
  by code_simp

text \<open>Linking re-derives a product from lines an ignore rule keeps out; the next repair takes them out.\<close>

definition ignored_ledger :: pos_store where
  "ignored_ledger = demo_ledger\<lparr>tp_ignoreRules := [''a-1''],
     tp_sales := [planned ''r1'' 0 (Some ''p1'') ''a-1'' 5, planned ''r2'' 0 None ''x-9'' 1]\<rparr>"

lemma linking_counts_ignored_lines:
  "let linked = snd (matchPosSku ''Ann'' ''x-9'' ''p1'' ignored_ledger);
       healed = snd (healPosRollup 35 0 linked)
   in sold_of linked ''p1'' = 6 \<and> sold_of healed ''p1'' = 1"
  by code_simp

text \<open>Two spellings of one till: only the receipts of the last spelling are counted.\<close>

lemma till_spellings_lose_sales:
  "let sales = map (\<lambda>s. s\<lparr>sd_warehouse := Some ''Till 9''\<rparr>) [planned ''r1'' 0 None ''x'' 1, planned ''r2'' 0 None ''x'' 1] @
               map (\<lambda>s. s\<lparr>sd_warehouse := Some ''till 9''\<rparr>) [planned ''r3'' 0 None ''x'' 1]
   in map (\<lambda>r. (tw_warehouse r, tw_salesCount r))
        (filter (\<lambda>r. tw_locationId r = None) (getTillMappings [] (demo_ledger\<lparr>tp_sales := sales\<rparr>))) = [(''till 9'', 1)]"
  by code_simp

end
