(* ===== verification/Spec2Isabelle.thy ===== *)
theory Spec2Isabelle
  imports Prelude Baseline BigBuyer Abc Policy Quantile Reorder Layered Guardrail Pipeline Transfers Planner
    Locations PoModel PoStore PoReceive PoInvariant PoLifecycle PoReverse PoSystem PoRoundTrip PoOverlap PoDemo PoStock PoProperties EngineProperties PlanLimits Team Invites AccountProperties PosFix PosGap PosFeed TillProperties Promo Health Backtest
begin

text \<open>
  A verification development for a multi-tenant restock planner: a TypeScript system that reads a
  shop's catalogue, stock and sales, forecasts demand per product, shows a buy list, and turns it into
  purchase orders and transfers.

  \<^bold>\<open>The parts and how they meet.\<close>
  \<^item> The till ledger (\<^verbatim>\<open>packages/pos/src\<close>, \<^verbatim>\<open>apps/web/lib/pos\<close>) takes the receipts a shop's till posts,
    stores them, and derives the sales history: units per product, day and branch.
  \<^item> The forecast engine (\<^verbatim>\<open>packages/forecast/src\<close>) reads a history and gives each product a forecast,
    a guarded reorder quantity and an explanation; the helpers beside it rank products, spend a budget,
    size transfers, detect promotions and measure the engine on the past.
  \<^item> Purchase orders (\<^verbatim>\<open>apps/web/lib/po\<close>) take rows of the buy list through a draft, an email,
    deliveries and their reversals, and move the stock that the next forecast reads.
  \<^item> Teams, invites and plan limits (\<^verbatim>\<open>apps/web/lib/auth\<close>, \<^verbatim>\<open>apps/web/lib/limits\<close>, \<^verbatim>\<open>packages/db/src\<close>)
    decide who may do this and how much.

  \<^bold>\<open>How the code is modelled.\<close> A database table is the list of its rows and a row is a record with the
  columns the code uses; the tables are those of one workspace, because every query of the code names
  one. An operation is a function from the tables to its answer and the new tables, and every early
  return and every error of the source is a branch of it. A transaction is one function. Where the code
  reads and then writes without a lock and the interleaving matters (sending an order, committing the
  queue, editing a draft, accepting an invite) the operation is also given split at its reads and writes,
  and properties speak of other callers in between. A \<^verbatim>\<open>Date\<close> is its epoch milliseconds, a day key the
  UTC midnight it names; a JavaScript \<^verbatim>\<open>Map\<close> or \<^verbatim>\<open>Set\<close> is an association list or a list in
  insertion order; a double is an exact real; a string is a list of 8-bit characters.

  \<^bold>\<open>Which theory models which files.\<close>
  \<^item> \<open>Prelude\<close>: the pieces of the JavaScript library the source uses (rounding, slices, maps and sets
    in insertion order, \<open>updateMany\<close>), and the locales for loops and comparators that the sorting and
    preference code shares; each is interpreted in the theories of the components.
  \<^item> \<open>Baseline\<close>, \<open>BigBuyer\<close>, \<open>Abc\<close>, \<open>Policy\<close>, \<open>Quantile\<close>, \<open>Reorder\<close>, \<open>Layered\<close>, \<open>Guardrail\<close>,
    \<open>Pipeline\<close>: the engine, one theory per file or group of files, in the order the pipeline calls them
    (\<^verbatim>\<open>baseline.ts\<close>, \<^verbatim>\<open>big-buyer.ts\<close>, \<^verbatim>\<open>abc.ts\<close> and \<^verbatim>\<open>rate-floor.ts\<close>, \<^verbatim>\<open>config.ts\<close> and the small
    rules, \<^verbatim>\<open>calibrated-quantile.ts\<close>, \<^verbatim>\<open>reorder.ts\<close> and \<^verbatim>\<open>explain.ts\<close>, \<^verbatim>\<open>layered.ts\<close>, \<^verbatim>\<open>guardrail.ts\<close>,
    \<^verbatim>\<open>pipeline.ts\<close>). \<open>Transfers\<close>, \<open>Planner\<close>, \<open>Promo\<close>, \<open>Health\<close> and \<open>Backtest\<close>: the helpers beside it.
    \<open>EngineProperties\<close> holds their properties.
  \<^item> \<open>Locations\<close>: \<^verbatim>\<open>roles.ts\<close>, \<^verbatim>\<open>inventory.ts\<close> and \<^verbatim>\<open>product-lifecycle.ts\<close> of \<^verbatim>\<open>packages/db/src\<close>.
  \<^item> \<open>PoModel\<close>, \<open>PoStore\<close>, \<open>PoReceive\<close>: the pure helpers, the tables with the operations that create, edit,
    send and cancel, and receiving and reversing. \<open>PoInvariant\<close>, \<open>PoLifecycle\<close>, \<open>PoReverse\<close>, \<open>PoSystem\<close>,
    \<open>PoRoundTrip\<close>, \<open>PoOverlap\<close>, \<open>PoStock\<close>: the invariant of the tables, its preservation by every operation,
    the step relation over all of them, what a receipt and its reversal do, and what batches and edits that
    overlap do. \<open>PoDemo\<close>, \<open>PoProperties\<close>: a small workspace and the properties.
  \<^item> \<open>PlanLimits\<close>, \<open>Team\<close>, \<open>Invites\<close>, \<open>AccountProperties\<close>: plan limits and the daily check, permissions and
    guarded writes, invites, workspaces and terms, and their properties.
  \<^item> \<open>PosTime\<close>, \<open>PosPlan\<close>, \<open>PosIngest\<close>, \<open>PosFix\<close>, \<open>PosGap\<close>, \<open>PosFeed\<close>: the till's day, the pure planner, the
    writer and the repair, the owner's fixes, silent days, and the way in over HTTP. \<open>PosLedger\<close>,
    \<open>PosLearn\<close>, \<open>PosBooks\<close>, \<open>PosSteps\<close>: what the loops compute in closed form, what a till code means, and
    when the derived history is the aggregate of the receipts. \<open>TillProperties\<close>: the properties.

  \<^bold>\<open>The step relations.\<close>
  \<^item> \<open>po_step\<close> runs one operation on the purchase-order tables, whole. Receipts and reversals hold a lock per
    order in the code and are transactions; edits and cancellations are not locked, so a step stands for one that
    does not overlap another, and what overlapping edits do is stated apart (\<open>PoOverlap\<close>). The relation has a
    flag \<open>once\<close>. The code lets a batch of received quantities name a line twice and checks each entry against
    the quantity from before the batch, so with the flag off a step takes any batch, and the invariant bounds the
    received quantities on neither side; with the flag on, batches name each line at most once, and received
    quantities stay between zero and the ordered ones.
  \<^item> \<open>till_step\<close> posts receipts, repairs, links codes and ignores codes, each with any arguments, on a shop whose
    catalogue and till maps do not change. Ignoring a code rebuilds nothing, and linking re-derives a product from
    all its lines, ignored ones included; so the history is the ledger's except for a product on a day on which an
    ignored code's line carries it (\<open>carries_ignored\<close>).
  \<^item> \<open>team_step\<close> is one guarded write by any actor, even one whose own row has changed since they were read.

  \<^bold>\<open>What the lemmas show.\<close> For each stateful component an invariant of its tables and that every
  operation keeps it (orders and their lines, an owner in every workspace, the plan not exceeded by
  acceptances one after another, a history that is the aggregate of the receipts), lifted to every sequence of
  operations by induction on an \<open>inductive\<close> reachability predicate; what each operation books on its
  success and error branches; that optimised routines agree with a plain definition (loops that keep one
  accumulator per key, sampled windows, incremental probabilities); that what is undone is as before (a receipt and
  its reversal, an invite and its acceptance, a number and its parse); and for the engine the bounds and the
  monotonicity a buyer relies on. Where the code falls short of what it says, a lemma evaluates the case on
  a concrete store or states it for all inputs.

  \<^bold>\<open>Bounds and fuel.\<close> Loops with a bound in the source keep it: the quantile search stops at its cap and
  is proved to find the least quantile below it, slugs are tried 25 times, promotion windows are cut at
  their cap, writes are chunked by 500 rows, which is proved to change nothing. The walk-forward loop
  has no bound in the source; it is a \<open>partial_function\<close>, and it is proved to return when the step is
  positive. The till repair reads 36 hours around a day, which is enough for every zone from 12 hours behind
  UTC to 14 hours ahead, the hypothesis \<open>zone_ok\<close>, which holds of every zone in use. Division by zero is zero in
  the logic and not in JavaScript, so where a divisor could be zero the property states that it is not.

  \<^bold>\<open>Parameters.\<close> The time-zone database (a function from instants to offsets), the engine's date parser,
  database ids, tokens and hashes, Unicode normalisation, the outcome of sending an email and the clock are
  arguments of the definitions that use them.

  \<^bold>\<open>Not modelled.\<close> Rendering (pages, documents, spreadsheets, email bodies), the transport of HTTP,
  WebSocket and Redis, the store sync, the persistence of forecast runs, queues and schedules, OAuth, and
  row-level security. Rounding of doubles is not modelled, nor characters beyond 8 bits; where a message of
  the source has such a character the model writes an ASCII one. Concurrency is modelled where an operation is
  split, not between arbitrary statements.
\<close>

end
